(* ===== verification/Prelude.thy ===== *)
theory Prelude
  imports Main "HOL-Library.Word" "HOL-Library.AList" "HOL-Library.Multiset"
    "HOL-Library.List_Lexorder" "HOL-Library.Char_ord"
begin

text \<open>
  Shared vocabulary of the development: the machine integer types, the outcome of a Rust
  function that returns a \<open>Result\<close> or panics, hash maps as association lists, and the
  generic lemmas about them.

  Arithmetic is that of the release profile of the workspace (\<open>Cargo.toml\<close>,
  \<open>debug-assertions = false\<close>): \<open>+\<close>, \<open>-\<close> and \<open>*\<close> on fixed-width integers wrap around.
  Out-of-range indexing, \<open>unwrap\<close> on \<open>None\<close> and division by zero panic in every profile
  and are the value \<open>Panic\<close>.
\<close>

unbundle bit_operations_syntax

section \<open>Machine integers\<close>

type_synonym u8 = "8 word"
type_synonym u16 = "16 word"
type_synonym u32 = "32 word"
type_synonym u64 = "64 word"
type_synonym usize = "64 word"
type_synonym i32 = "32 word"
type_synonym i64 = "64 word"

text \<open>Simplification rules about the model's operations that several theories share.\<close>

named_theorems hm_simps
named_theorems res_simps

lemma unat_u64_less: "unat (w :: u64) < 18446744073709551616"
  and unat_u32_less: "unat (v :: u32) < 4294967296"
  and unat_u8_less: "unat (b :: u8) < 256"
  using unsigned_less [of w] unsigned_less [of v] unsigned_less [of b] by simp_all

lemma unat_ucast_u32 [simp]: "unat (ucast (v :: u32) :: u64) = unat v"
  using unat_u32_less [of v] by (simp add: unsigned_ucast_eq take_bit_nat_eq_self)

lemma ucast_scast_u32 [simp]: "(ucast (scast (v :: u32) :: u64) :: u32) = v"
  by (rule bit_word_eqI) (auto simp: bit_simps)

lemma scast_u32_eq_0 [simp]: "(scast (v :: u32) :: u64) = 0 \<longleftrightarrow> v = 0"
  by (metis ucast_scast_u32 ucast_0 signed_0)

lemma ucast_ucast_u8 [simp]: "(ucast (ucast (b :: u8) :: u64) :: u8) = b"
  by (rule bit_word_eqI) (auto simp: bit_simps)

section \<open>Outcomes\<close>

datatype ('a, 'e) res = Ok 'a | Err 'e | Panic

text \<open>The \<open>?\<close> operator: go on with the value, or leave with the error or the panic.\<close>

fun bind_res :: "('a, 'e) res \<Rightarrow> ('a \<Rightarrow> ('b, 'e) res) \<Rightarrow> ('b, 'e) res" where
  "bind_res (Ok x) f = f x"
| "bind_res (Err e) f = Err e"
| "bind_res Panic f = Panic"

fun map_err :: "('e \<Rightarrow> 'f) \<Rightarrow> ('a, 'e) res \<Rightarrow> ('a, 'f) res" where
  "map_err f (Ok x) = Ok x"
| "map_err f (Err e) = Err (f e)"
| "map_err f Panic = Panic"

fun is_ok :: "('a, 'e) res \<Rightarrow> bool" where
  "is_ok (Ok x) = True"
| "is_ok (Err e) = False"
| "is_ok Panic = False"

definition ok_or :: "'e \<Rightarrow> 'a option \<Rightarrow> ('a, 'e) res" where
  "ok_or e v = (case v of None \<Rightarrow> Err e | Some x \<Rightarrow> Ok x)"

lemma bind_res_eq_Ok [res_simps]:
  "bind_res m f = Ok y \<longleftrightarrow> (\<exists>x. m = Ok x \<and> f x = Ok y)"
  by (cases m) auto

lemma bind_res_eq_Err [res_simps]:
  "bind_res m f = Err e \<longleftrightarrow> m = Err e \<or> (\<exists>x. m = Ok x \<and> f x = Err e)"
  by (cases m) auto

lemma bind_res_eq_Panic [res_simps]:
  "bind_res m f = Panic \<longleftrightarrow> m = Panic \<or> (\<exists>x. m = Ok x \<and> f x = Panic)"
  by (cases m) auto

lemma bind_res_assoc:
  "bind_res (bind_res m f) g = bind_res m (\<lambda>x. bind_res (f x) g)"
  by (cases m) auto

lemma map_err_eq_Ok [res_simps]: "map_err f m = Ok x \<longleftrightarrow> m = Ok x"
  by (cases m) auto

lemma map_err_eq_Err [res_simps]: "map_err f m = Err e \<longleftrightarrow> (\<exists>e'. m = Err e' \<and> e = f e')"
  by (cases m) auto

lemma map_err_eq_Panic [res_simps]: "map_err f m = Panic \<longleftrightarrow> m = Panic"
  by (cases m) auto

lemma is_ok_iff [res_simps]: "is_ok m \<longleftrightarrow> (\<exists>x. m = Ok x)"
  by (cases m) auto

lemma ok_or_eq_Ok [res_simps]: "ok_or e v = Ok x \<longleftrightarrow> v = Some x"
  by (cases v) (auto simp: ok_or_def)

lemma ok_or_simps [simp]: "ok_or e (Some x) = Ok x" "ok_or e None = Err e"
  by (simp_all add: ok_or_def)

section \<open>Hash maps\<close>

text \<open>
  A \<open>HashMap\<close> is an association list with distinct keys. The order of the list is the
  order in which the model inserted the keys; the order in which Rust iterates over a
  \<open>HashMap\<close> is unspecified, so every loop over one goes through an iteration order, a
  parameter that returns the entries in some order.
\<close>

type_synonym ('k, 'v) hmap = "('k \<times> 'v) list"
type_synonym ('k, 'v) iter_order = "('k \<times> 'v) list \<Rightarrow> ('k \<times> 'v) list"

definition hm_get :: "('k, 'v) hmap \<Rightarrow> 'k \<Rightarrow> 'v option" where
  "hm_get m k = map_of m k"

definition hm_insert :: "('k, 'v) hmap \<Rightarrow> 'k \<Rightarrow> 'v \<Rightarrow> ('k, 'v) hmap" where
  "hm_insert m k v = AList.update k v m"

text \<open>\<open>*m.entry(k).or_insert(0) += c\<close>\<close>

definition hm_bump :: "('k, 'v::comm_monoid_add) hmap \<Rightarrow> 'k \<Rightarrow> 'v \<Rightarrow> ('k, 'v) hmap" where
  "hm_bump m k c = hm_insert m k ((case hm_get m k of None \<Rightarrow> 0 | Some v \<Rightarrow> v) + c)"

text \<open>\<open>iter.collect::<HashMap<_, _>>()\<close>: a later entry overwrites an earlier one of the same key.\<close>

definition hm_collect :: "('k \<times> 'v) list \<Rightarrow> ('k, 'v) hmap" where
  "hm_collect xs = foldl (\<lambda>m (k, v). hm_insert m k v) [] xs"

definition hm_wf :: "('k, 'v) hmap \<Rightarrow> bool" where
  "hm_wf m \<longleftrightarrow> distinct (map fst m)"

definition hm_total :: "('k, 'v::comm_monoid_add) hmap \<Rightarrow> 'v" where
  "hm_total m = sum_list (map snd m)"

text \<open>What is known of an iteration order: each entry comes exactly once.\<close>

definition fair_order :: "('k, 'v) iter_order \<Rightarrow> bool" where
  "fair_order ord \<longleftrightarrow> (\<forall>m. mset (ord m) = mset m)"

lemma fair_order_id [simp]: "fair_order (\<lambda>m. m)" and fair_order_rev [simp]: "fair_order rev"
  by (simp_all add: fair_order_def)

lemma fair_order_set [hm_simps]: "fair_order ord \<Longrightarrow> set (ord m) = set m"
  unfolding fair_order_def by (metis set_mset_mset)

lemma hm_get_Nil [simp]: "hm_get [] k = None"
  by (simp add: hm_get_def)

lemma hm_wf_Nil [simp]: "hm_wf []"
  by (simp add: hm_wf_def)

lemma hm_get_insert [hm_simps]: "hm_get (hm_insert m k v) k' = (if k' = k then Some v else hm_get m k')"
  by (auto simp: hm_get_def hm_insert_def update_conv')

lemma hm_wf_insert [simp, intro]: "hm_wf m \<Longrightarrow> hm_wf (hm_insert m k v)"
  by (simp add: hm_wf_def hm_insert_def distinct_update)

lemma hm_wf_bump [simp, intro]: "hm_wf m \<Longrightarrow> hm_wf (hm_bump m k v)"
  by (simp add: hm_bump_def)

lemma hm_get_bump [hm_simps]:
  "hm_get (hm_bump m k c) k' =
     (if k' = k then Some ((case hm_get m k of None \<Rightarrow> 0 | Some v \<Rightarrow> v) + c) else hm_get m k')"
  by (simp add: hm_bump_def hm_get_insert)

lemma hm_get_SomeD: "hm_get m k = Some v \<Longrightarrow> (k, v) \<in> set m"
  by (simp add: hm_get_def map_of_SomeD)

lemma hm_get_wf: "hm_wf m \<Longrightarrow> hm_get m k = Some v \<longleftrightarrow> (k, v) \<in> set m"
  by (simp add: hm_get_def hm_wf_def)

lemma hm_get_None_iff: "hm_get m k = None \<longleftrightarrow> k \<notin> fst ` set m"
  by (simp add: hm_get_def map_of_eq_None_iff)

lemma hm_insert_fresh: "hm_get m k = None \<Longrightarrow> hm_insert m k v = m @ [(k, v)]"
  unfolding hm_get_def hm_insert_def by (induction m) auto

lemma hm_insert_keys: "set (map fst (hm_insert m k v)) = insert k (set (map fst m))"
  by (simp add: hm_insert_def dom_update)

text \<open>Overwriting the value of a present key exchanges exactly one entry.\<close>

lemma hm_insert_mset:
  "hm_wf m \<Longrightarrow> hm_get m k = Some w \<Longrightarrow>
     add_mset (k, w) (mset (hm_insert m k v)) = add_mset (k, v) (mset m)"
proof (induction m)
  case Nil
  then show ?case by simp
next
  case (Cons p m)
  obtain a b where p: "p = (a, b)" by (cases p)
  show ?case
  proof (cases "a = k")
    case True
    then show ?thesis
      using Cons.prems by (simp add: p hm_get_def hm_insert_def add_mset_commute)
  next
    case False
    with Cons.prems have "add_mset (k, w) (mset (hm_insert m k v)) = add_mset (k, v) (mset m)"
      by (intro Cons.IH) (simp_all add: p hm_get_def hm_wf_def)
    with False show ?thesis
      by (simp add: p hm_insert_def add_mset_commute [of _ "(a, b)"])
  qed
qed

lemma hm_total_mset: "hm_total m = (\<Sum>p\<in>#mset m. snd p)"
  by (simp add: hm_total_def flip: sum_mset_sum_list)

lemma hm_total_append [simp]: "hm_total (m @ m') = hm_total m + hm_total m'"
  by (simp add: hm_total_def)

lemma hm_total_Nil [simp]: "hm_total [] = 0"
  by (simp add: hm_total_def)

lemma hm_total_fair [hm_simps]: "fair_order ord \<Longrightarrow> hm_total (ord m) = hm_total m"
  by (simp add: hm_total_mset fair_order_def)

text \<open>Counting into a map adds exactly the amount to the total.\<close>

lemma hm_total_bump [hm_simps]:
  fixes m :: "('k, 'v::{cancel_comm_monoid_add}) hmap"
  assumes "hm_wf m"
  shows "hm_total (hm_bump m k c) = hm_total m + c"
proof (cases "hm_get m k")
  case None
  then show ?thesis by (simp add: hm_bump_def hm_insert_fresh hm_total_def)
next
  case (Some w)
  have "hm_total (hm_insert m k (w + c)) + w = hm_total m + (w + c)"
    using arg_cong [OF hm_insert_mset [OF assms Some, of "w + c"], of "\<lambda>M. \<Sum>p\<in>#M. snd p"]
    by (simp add: hm_total_mset add.commute)
  then have "hm_total (hm_insert m k (w + c)) + w = (hm_total m + c) + w"
    by (simp add: add.commute add.left_commute)
  with Some show ?thesis by (simp add: hm_bump_def add_right_cancel)
qed

text \<open>Renaming keys and values commutes with an update, as long as no present key gets the new name.\<close>

lemma hm_insert_map:
  assumes "\<And>k'. k' \<in> fst ` set m \<Longrightarrow> f k' = f k \<Longrightarrow> k' = k"
  shows "hm_insert (map (\<lambda>(k, v). (f k, g v)) m) (f k) (g v) = map (\<lambda>(k, v). (f k, g v)) (hm_insert m k v)"
  using assms
proof (induction m)
  case Nil
  then show ?case by (simp add: hm_insert_def)
next
  case (Cons p m)
  then have "hm_insert (map (\<lambda>(k, v). (f k, g v)) m) (f k) (g v) = map (\<lambda>(k, v). (f k, g v)) (hm_insert m k v)"
    by auto
  then show ?case
    using Cons.prems [of "fst p"] by (cases p) (auto simp: hm_insert_def)
qed

lemma hm_get_map:
  assumes "\<And>k'. k' \<in> fst ` set m \<Longrightarrow> f k' = f k \<Longrightarrow> k' = k"
  shows "hm_get (map (\<lambda>(k, v). (f k, g v)) m) (f k) = map_option g (hm_get m k)"
  using assms
proof (induction m)
  case Nil
  then show ?case by simp
next
  case (Cons p m)
  then have "hm_get (map (\<lambda>(k, v). (f k, g v)) m) (f k) = map_option g (hm_get m k)"
    by simp
  then show ?case
    using Cons.prems [of "fst p"] by (cases p) (auto simp: hm_get_def)
qed

lemma hm_bump_map:
  assumes "\<And>k'. k' \<in> fst ` set m \<Longrightarrow> f k' = f k \<Longrightarrow> k' = k"
  shows "hm_bump (map (\<lambda>(k, v). (f k, v)) m) (f k) c = map (\<lambda>(k, v). (f k, v)) (hm_bump m k c)"
  using hm_get_map [of m f k "\<lambda>v. v", OF assms]
    hm_insert_map [of m f k "\<lambda>v. v" "(case hm_get m k of None \<Rightarrow> 0 | Some v \<Rightarrow> v) + c", OF assms]
  by (simp add: hm_bump_def option.map_ident)

text \<open>Updating the key at a position updates that position.\<close>

lemma hm_insert_nth:
  "hm_wf m \<Longrightarrow> n < length m \<Longrightarrow> hm_insert m (fst (m ! n)) v = m[n := (fst (m ! n), v)]"
proof (induction m arbitrary: n)
  case Nil
  then show ?case by simp
next
  case (Cons p m)
  show ?case
  proof (cases n)
    case 0
    then show ?thesis by (cases p) (simp add: hm_insert_def)
  next
    case (Suc k)
    with Cons.prems have "k < length m" "hm_wf m" "fst p \<notin> fst ` set m"
      by (simp_all add: hm_wf_def)
    moreover from this(1,3) have "fst (m ! k) \<noteq> fst p"
      by (metis image_eqI nth_mem)
    ultimately show ?thesis
      using Cons.IH [of k] Suc by (cases p) (simp add: hm_insert_def)
  qed
qed

lemma hm_get_nth: "hm_wf m \<Longrightarrow> n < length m \<Longrightarrow> hm_get m (fst (m ! n)) = Some (snd (m ! n))"
  by (simp add: hm_get_wf)

lemma hm_collect_snoc: "hm_collect (xs @ [(k, v)]) = hm_insert (hm_collect xs) k v"
  by (simp add: hm_collect_def)

lemma hm_wf_collect [simp]: "hm_wf (hm_collect xs)"
  by (induction xs rule: rev_induct) (auto simp: hm_collect_snoc, simp add: hm_collect_def)

text \<open>Collecting entries with distinct keys keeps them all.\<close>

lemma hm_collect_distinct: "distinct (map fst xs) \<Longrightarrow> hm_collect xs = xs"
proof (induction xs rule: rev_induct)
  case Nil
  then show ?case by (simp add: hm_collect_def)
next
  case (snoc p xs)
  then have IH: "hm_collect xs = xs" by simp
  from snoc.prems have "hm_get xs (fst p) = None"
    by (auto simp: hm_get_None_iff)
  with IH show ?case
    by (cases p) (simp add: hm_collect_snoc hm_insert_fresh)
qed

lemma distinct_mapD: "distinct (map f xs) \<Longrightarrow> x \<in> set xs \<Longrightarrow> y \<in> set xs \<Longrightarrow> f x = f y \<Longrightarrow> x = y"
  by (auto simp: distinct_map dest: inj_onD)

section \<open>Decimal rendering\<close>

text \<open>\<open>Display\<close> of an unsigned integer.\<close>

fun dec_digits :: "nat \<Rightarrow> string" where
  "dec_digits n = (if n < 10 then [char_of (48 + n)] else dec_digits (n div 10) @ [char_of (48 + n mod 10)])"

declare dec_digits.simps [simp del]

definition show_nat :: "nat \<Rightarrow> string" where
  "show_nat n = dec_digits n"

text \<open>\<open>[..].join(sep)\<close>\<close>

fun join_with :: "string \<Rightarrow> string list \<Rightarrow> string" where
  "join_with sep [] = []"
| "join_with sep [x] = x"
| "join_with sep (x # y # xs) = x @ sep @ join_with sep (y # xs)"

end
