(* ===== verification/PyroError.thy ===== *)
theory PyroError
  imports Prelude
begin

text \<open>
  The crate's error type (\<open>src/error.rs\<close>) and the two conversions into it that the other
  components rely on, with \<open>std\<close>'s mutexes, whose poisoning is one of its sources.
\<close>

section \<open>PyroscopeError\<close>

text \<open>
  The variants that wrap an error of another crate carry that error's message, which is
  what the code uses of it.
\<close>

datatype pyroscope_error =
    AdHoc string
  | Compat string
  | BackendImplError
  | Reqwest string
  | ParseError string
  | TimeSource
  | IoError string
  | JsonError string

type_synonym 'a presult = "('a, pyroscope_error) res"

definition pe_new :: "string \<Rightarrow> pyroscope_error" where
  "pe_new msg = AdHoc msg"

definition pe_new_with_source :: "string \<Rightarrow> string \<Rightarrow> pyroscope_error" where
  "pe_new_with_source msg src = Compat msg"

definition pe_from_poison :: pyroscope_error where
  "pe_from_poison = AdHoc ''Poison Error''"

definition pe_from_send_error :: pyroscope_error where
  "pe_from_send_error = Compat ''SendError Error''"

section \<open>Mutexes\<close>

text \<open>
  A mutex is poisoned for good once a thread panics while it holds the lock;
  \<open>lock()?\<close> then leaves with the poison error.
\<close>

datatype 'a mutex = Mutex (mx_poisoned: bool) (mx_value: 'a)

definition mx_new :: "'a \<Rightarrow> 'a mutex" where
  "mx_new v = Mutex False v"

definition mx_lock :: "'a mutex \<Rightarrow> 'a presult" where
  "mx_lock m = (if mx_poisoned m then Err pe_from_poison else Ok (mx_value m))"

definition mx_store :: "'a mutex \<Rightarrow> 'a \<Rightarrow> 'a mutex" where
  "mx_store m v = Mutex (mx_poisoned m) v"

lemma mx_simps [simp]:
  "mx_value (mx_new v) = v" "mx_value (mx_store m v) = v"
  "\<not> mx_poisoned (mx_new v)" "mx_poisoned (mx_store m v) = mx_poisoned m"
  by (simp_all add: mx_new_def mx_store_def)

lemma mx_lock_new [simp]: "mx_lock (mx_new v) = Ok v"
  by (simp add: mx_lock_def)

lemma mx_lock_eq_Ok [res_simps]: "mx_lock m = Ok v \<longleftrightarrow> \<not> mx_poisoned m \<and> v = mx_value m"
  by (auto simp: mx_lock_def)

lemma mx_lock_free [simp]: "\<not> mx_poisoned m \<Longrightarrow> mx_lock m = Ok (mx_value m)"
  by (simp add: mx_lock_def)

end
