(* ===== verification/StackTypes.thy ===== *)
theory StackTypes
  imports PyroError
begin

text \<open>
  Tags, stack frames, stack traces, the stack buffer and reports of
  \<open>src/backend/types.rs\<close>: their operations and the conversion of a buffer into reports.
\<close>

section \<open>Tags and metadata\<close>

datatype tag = Tag (tag_key: string) (tag_value: string)

text \<open>\<open>Tag\<close> derives \<open>Ord\<close>: by key, then by value, bytes compared in order.\<close>

instantiation tag :: linorder
begin

definition less_eq_tag :: "tag \<Rightarrow> tag \<Rightarrow> bool" where
  "s \<le> t \<longleftrightarrow> tag_key s < tag_key t \<or> tag_key s = tag_key t \<and> tag_value s \<le> tag_value t"

definition less_tag :: "tag \<Rightarrow> tag \<Rightarrow> bool" where
  "s < t \<longleftrightarrow> tag_key s < tag_key t \<or> tag_key s = tag_key t \<and> tag_value s < tag_value t"

instance
  by standard (auto simp: less_eq_tag_def less_tag_def tag.expand)

end

definition tag_display :: "tag \<Rightarrow> string" where
  "tag_display t = tag_key t @ ''='' @ tag_value t"

text \<open>\<open>Metadata\<close> holds a \<open>BTreeSet<Tag>\<close>: a strictly sorted list, which is its iteration order.\<close>

record metadata =
  md_tags :: "tag list"

definition md_default :: metadata where
  "md_default = \<lparr>md_tags = []\<rparr>"

definition md_add_tag :: "metadata \<Rightarrow> tag \<Rightarrow> metadata" where
  "md_add_tag md t = md\<lparr>md_tags := insort_insert t (md_tags md)\<rparr>"

definition md_wf :: "metadata \<Rightarrow> bool" where
  "md_wf md \<longleftrightarrow> sorted (md_tags md) \<and> distinct (md_tags md)"

text \<open>\<open>get_id\<close> is the \<open>DefaultHasher\<close> hash of the metadata, a parameter of the model.\<close>

type_synonym metadata_hash = "metadata \<Rightarrow> u64"

definition md_get_id :: "metadata_hash \<Rightarrow> metadata \<Rightarrow> usize" where
  "md_get_id hash md = hash md"

lemma md_wf_default [simp]: "md_wf md_default"
  by (simp add: md_wf_def md_default_def)

lemma md_wf_add_tag [simp, intro]: "md_wf md \<Longrightarrow> md_wf (md_add_tag md t)"
  by (simp add: md_wf_def md_add_tag_def sorted_insort_insert distinct_insort_insert)

lemma md_add_tag_set [simp]: "set (md_tags (md_add_tag md t)) = insert t (set (md_tags md))"
  by (simp add: md_add_tag_def set_insort_insert)

text \<open>Metadata with the same tags are the same value.\<close>

lemma md_eqI: "md_wf a \<Longrightarrow> md_wf b \<Longrightarrow> set (md_tags a) = set (md_tags b) \<Longrightarrow> a = b"
  by (cases a; cases b) (auto simp: md_wf_def intro: sorted_distinct_set_unique)

lemma md_add_tag_commute:
  "md_wf md \<Longrightarrow> md_add_tag (md_add_tag md s) t = md_add_tag (md_add_tag md t) s"
  by (rule md_eqI) auto

section \<open>Frames and stack traces\<close>

datatype thread_id = ThreadId (pthread: u64)

definition tid_display :: "thread_id \<Rightarrow> string" where
  "tid_display t = show_nat (unat (pthread t))"

record stack_frame =
  sf_module :: "string option"
  sf_name :: "string option"
  sf_filename :: "string option"
  sf_relative_path :: "string option"
  sf_absolute_path :: "string option"
  sf_line :: "u32 option"

definition sf_new ::
    "string option \<Rightarrow> string option \<Rightarrow> string option \<Rightarrow> string option \<Rightarrow> string option \<Rightarrow> u32 option
     \<Rightarrow> stack_frame" where
  "sf_new m n f rp ap l =
     \<lparr>sf_module = m, sf_name = n, sf_filename = f, sf_relative_path = rp,
      sf_absolute_path = ap, sf_line = l\<rparr>"

definition opt_or :: "'a \<Rightarrow> 'a option \<Rightarrow> 'a" where
  "opt_or d v = (case v of None \<Rightarrow> d | Some x \<Rightarrow> x)"

lemma opt_or_simps [simp]: "opt_or d None = d" "opt_or d (Some x) = x"
  by (simp_all add: opt_or_def)

definition sf_display :: "stack_frame \<Rightarrow> string" where
  "sf_display f = opt_or [] (sf_filename f) @ '':'' @ show_nat (unat (opt_or 0 (sf_line f)))
     @ '' - '' @ opt_or [] (sf_name f)"

record stack_trace =
  st_pid :: "u32 option"
  st_thread_id :: "thread_id option"
  st_thread_name :: "string option"
  st_frames :: "stack_frame list"
  st_metadata :: metadata

definition st_display :: "stack_trace \<Rightarrow> string" where
  "st_display st = join_with '';'' (map sf_display (rev (st_frames st)))"

record backend_config =
  report_thread_id :: bool
  report_thread_name :: bool
  report_pid :: bool

definition bc_default :: backend_config where
  "bc_default = \<lparr>report_thread_id = False, report_thread_name = False, report_pid = False\<rparr>"

text \<open>\<open>StackTrace::new\<close>: the configured properties of the thread become tags.\<close>

definition st_new ::
    "backend_config \<Rightarrow> u32 option \<Rightarrow> thread_id option \<Rightarrow> string option \<Rightarrow> stack_frame list
     \<Rightarrow> stack_trace" where
  "st_new config pid tid tname frames =
     (let md0 = md_default;
          md1 = (if report_pid config
                 then (case pid of None \<Rightarrow> md0
                       | Some p \<Rightarrow> md_add_tag md0 (Tag ''pid'' (show_nat (unat p))))
                 else md0);
          md2 = (if report_thread_id config
                 then (case tid of None \<Rightarrow> md1
                       | Some t \<Rightarrow> md_add_tag md1 (Tag ''thread_id'' (tid_display t)))
                 else md1);
          md3 = (if report_thread_name config
                 then (case tname of None \<Rightarrow> md2
                       | Some n \<Rightarrow> md_add_tag md2 (Tag ''thread_name'' n))
                 else md2)
      in \<lparr>st_pid = pid, st_thread_id = tid, st_thread_name = tname, st_frames = frames,
          st_metadata = md3\<rparr>)"

lemma st_new_fields [simp]:
  "st_pid (st_new c p t n fs) = p" "st_thread_id (st_new c p t n fs) = t"
  "st_thread_name (st_new c p t n fs) = n" "st_frames (st_new c p t n fs) = fs"
  by (simp_all add: st_new_def Let_def)

lemma st_new_md_wf [simp]: "md_wf (st_metadata (st_new c p t n fs))"
  by (auto simp: st_new_def Let_def split: option.split)

section \<open>Stack buffer\<close>

record stack_buffer =
  sb_data :: "(stack_trace, usize) hmap"

definition sb_new :: "(stack_trace, usize) hmap \<Rightarrow> stack_buffer" where
  "sb_new d = \<lparr>sb_data = d\<rparr>"

definition sb_default :: stack_buffer where
  "sb_default = \<lparr>sb_data = []\<rparr>"

definition sb_record :: "stack_buffer \<Rightarrow> stack_trace \<Rightarrow> stack_buffer" where
  "sb_record b st = b\<lparr>sb_data := hm_bump (sb_data b) st 1\<rparr>"

definition sb_record_with_count :: "stack_buffer \<Rightarrow> stack_trace \<Rightarrow> usize \<Rightarrow> stack_buffer" where
  "sb_record_with_count b st c = b\<lparr>sb_data := hm_bump (sb_data b) st c\<rparr>"

definition sb_clear :: "stack_buffer \<Rightarrow> stack_buffer" where
  "sb_clear b = b\<lparr>sb_data := []\<rparr>"

section \<open>Reports\<close>

record report =
  rp_data :: "(stack_trace, usize) hmap"
  rp_metadata :: metadata

definition rp_new :: "(stack_trace, usize) hmap \<Rightarrow> report" where
  "rp_new d = \<lparr>rp_data = d, rp_metadata = md_default\<rparr>"

definition rp_set_metadata :: "report \<Rightarrow> metadata \<Rightarrow> report" where
  "rp_set_metadata r md = \<lparr>rp_data = rp_data r, rp_metadata = md\<rparr>"

definition rp_record :: "report \<Rightarrow> stack_trace \<Rightarrow> report" where
  "rp_record r st = r\<lparr>rp_data := hm_bump (rp_data r) st 1\<rparr>"

definition rp_record_with_count :: "report \<Rightarrow> stack_trace \<Rightarrow> usize \<Rightarrow> report" where
  "rp_record_with_count r st c = r\<lparr>rp_data := hm_bump (rp_data r) st c\<rparr>"

text \<open>One step of the fold of \<open>From<StackBuffer> for Vec<Report>\<close>.\<close>

definition group_step ::
    "metadata_hash \<Rightarrow> (usize, report) hmap \<Rightarrow> stack_trace \<times> usize \<Rightarrow> (usize, report) hmap" where
  "group_step hash acc = (\<lambda>(st, count).
     let rid = md_get_id hash (st_metadata st) in
     case hm_get acc rid of
       Some r \<Rightarrow> hm_insert acc rid (rp_record_with_count r st count)
     | None \<Rightarrow>
         let r = rp_set_metadata (rp_new []) (st_metadata st)
         in hm_insert acc rid (rp_record_with_count r st count))"

definition reports_of_buffer ::
    "metadata_hash \<Rightarrow> (stack_trace, usize) iter_order \<Rightarrow> (usize, report) iter_order
     \<Rightarrow> stack_buffer \<Rightarrow> report list" where
  "reports_of_buffer hash ord ord_reports b =
     map snd (ord_reports (foldl (group_step hash) [] (ord (sb_data b))))"

definition rp_total :: "report \<Rightarrow> usize" where
  "rp_total r = hm_total (rp_data r)"

end
