(* ===== verification/StackReports.thy ===== *)
theory StackReports
  imports StackTypes
begin

text \<open>
  What the stack buffer promises (a count per stack trace) and that its conversion into
  reports neither loses nor duplicates a recorded trace, whatever the iteration orders of
  the hash maps and whatever the hash of the metadata.
\<close>

section \<open>The stack buffer as a table of counts\<close>

definition sb_wf :: "stack_buffer \<Rightarrow> bool" where
  "sb_wf b \<longleftrightarrow> hm_wf (sb_data b)"

definition sb_count :: "stack_buffer \<Rightarrow> stack_trace \<Rightarrow> usize" where
  "sb_count b st = opt_or 0 (hm_get (sb_data b) st)"

definition sb_total :: "stack_buffer \<Rightarrow> usize" where
  "sb_total b = hm_total (sb_data b)"

lemmas sb_defs = sb_wf_def sb_count_def sb_total_def sb_record_def sb_record_with_count_def
  sb_clear_def sb_default_def sb_new_def

lemma opt_or_bump: "(case v of None \<Rightarrow> 0 | Some x \<Rightarrow> x) = opt_or 0 v"
  by (simp add: opt_or_def)

lemma sb_wf_simps [simp]:
  "sb_wf sb_default" "sb_wf (sb_clear b)"
  "sb_wf b \<Longrightarrow> sb_wf (sb_record b st)" "sb_wf b \<Longrightarrow> sb_wf (sb_record_with_count b st c)"
  by (simp_all add: sb_defs)

lemma sb_count_simps [simp]:
  "sb_count sb_default st = 0" "sb_count (sb_clear b) st = 0"
  "sb_count (sb_record_with_count b st c) = (sb_count b)(st := sb_count b st + c)"
  "sb_count (sb_record b st) = (sb_count b)(st := sb_count b st + 1)"
  by (auto simp: sb_defs hm_simps opt_or_bump)

lemma sb_total_simps [simp]:
  "sb_total sb_default = 0" "sb_total (sb_clear b) = 0"
  "sb_wf b \<Longrightarrow> sb_total (sb_record_with_count b st c) = sb_total b + c"
  "sb_wf b \<Longrightarrow> sb_total (sb_record b st) = sb_total b + 1"
  by (simp_all add: sb_defs hm_simps)

lemma sb_record_as_count: "sb_record b st = sb_record_with_count b st 1"
  by (simp add: sb_defs)

section \<open>Grouping by metadata\<close>

definition grouped_entries :: "(usize, report) hmap \<Rightarrow> (stack_trace \<times> usize) multiset" where
  "grouped_entries acc = (\<Sum>p\<in>#mset acc. mset (rp_data (snd p)))"

definition group_inv :: "metadata_hash \<Rightarrow> (usize, report) hmap \<Rightarrow> bool" where
  "group_inv hash acc \<longleftrightarrow> hm_wf acc \<and>
     (\<forall>(rid, r) \<in> set acc. rp_data r \<noteq> [] \<and> hash (rp_metadata r) = rid \<and>
        (\<forall>(st, c) \<in> set (rp_data r). hash (st_metadata st) = rid))"

definition report_metadata_from :: "stack_trace set \<Rightarrow> (usize, report) hmap \<Rightarrow> bool" where
  "report_metadata_from S acc \<longleftrightarrow> (\<forall>(rid, r) \<in> set acc. rp_metadata r \<in> st_metadata ` S)"

lemma grouped_entries_Nil [simp]: "grouped_entries [] = {#}"
  by (simp add: grouped_entries_def)

lemma grouped_entries_fresh:
  "hm_get acc k = None \<Longrightarrow> grouped_entries (hm_insert acc k r) = grouped_entries acc + mset (rp_data r)"
  by (simp add: hm_insert_fresh grouped_entries_def)

lemma grouped_entries_update:
  assumes "hm_wf acc" and "hm_get acc k = Some r"
  shows "grouped_entries (hm_insert acc k r') + mset (rp_data r) = grouped_entries acc + mset (rp_data r')"
  using arg_cong [OF hm_insert_mset [OF assms, of r'], of "\<lambda>M. \<Sum>p\<in>#M. mset (rp_data (snd p))"]
  by (simp add: grouped_entries_def add.commute)

lemma rp_record_fresh:
  "st \<notin> fst ` set (rp_data r) \<Longrightarrow> rp_data (rp_record_with_count r st c) = rp_data r @ [(st, c)]"
  by (simp add: rp_record_with_count_def hm_bump_def hm_get_None_iff [symmetric] hm_insert_fresh)

lemma in_grouped_entries:
  "x \<in># grouped_entries acc \<longleftrightarrow> (\<exists>rid r. (rid, r) \<in> set acc \<and> x \<in> set (rp_data r))"
  by (force simp: grouped_entries_def)

text \<open>A step adds its entry to exactly one group.\<close>

lemma group_step_entries:
  assumes wf: "hm_wf acc" and fresh: "st \<notin> fst ` set_mset (grouped_entries acc)"
  shows "grouped_entries (group_step hash acc (st, c)) = add_mset (st, c) (grouped_entries acc)"
proof (cases "hm_get acc (md_get_id hash (st_metadata st))")
  case None
  then show ?thesis
    by (simp add: group_step_def Let_def grouped_entries_fresh rp_record_fresh
        rp_set_metadata_def rp_new_def)
next
  case (Some r)
  then have "st \<notin> fst ` set (rp_data r)"
    using fresh hm_get_SomeD in_grouped_entries by (fastforce simp: image_iff)
  then have data: "rp_data (rp_record_with_count r st c) = rp_data r @ [(st, c)]"
    by (rule rp_record_fresh)
  from grouped_entries_update [OF wf Some, of "rp_record_with_count r st c"] show ?thesis
    by (simp add: group_step_def Let_def Some data)
qed

lemma group_inv_Nil [simp]: "group_inv hash []"
  by (simp add: group_inv_def)

lemma set_hm_insert: "hm_wf m \<Longrightarrow> set (hm_insert m k v) = insert (k, v) {p \<in> set m. fst p \<noteq> k}"
proof -
  assume wf: "hm_wf m"
  have "(a, b) \<in> set (hm_insert m k v) \<longleftrightarrow> (a, b) = (k, v) \<or> (a, b) \<in> set m \<and> a \<noteq> k" for a b
    by (auto simp: hm_get_wf [symmetric] wf hm_get_insert)
  then show ?thesis by auto
qed

lemma hm_bump_keys: "fst ` set (hm_bump m k c) = insert k (fst ` set m)"
  using hm_insert_keys [of m k] by (simp add: hm_bump_def)

lemma hm_bump_not_Nil [simp]: "hm_bump m k c \<noteq> []"
  using hm_bump_keys [of m k c] by auto

lemma in_hm_bumpD: "(a, b) \<in> set (hm_bump m k c) \<Longrightarrow> a = k \<or> a \<in> fst ` set m"
  using hm_bump_keys [of m k c] by force

lemma group_inv_insert:
  assumes "group_inv hash acc" and "rp_data r \<noteq> []" and "hash (rp_metadata r) = rid"
    and "\<And>st c. (st, c) \<in> set (rp_data r) \<Longrightarrow> hash (st_metadata st) = rid"
  shows "group_inv hash (hm_insert acc rid r)"
  using assms unfolding group_inv_def by (auto simp: set_hm_insert)

lemma group_inv_get:
  assumes "group_inv hash acc" and "hm_get acc rid = Some r"
  shows "rp_data r \<noteq> []" "hash (rp_metadata r) = rid"
    "\<And>st c. (st, c) \<in> set (rp_data r) \<Longrightarrow> hash (st_metadata st) = rid"
  using assms hm_get_SomeD [OF assms(2)] unfolding group_inv_def by blast+

lemma group_step_inv:
  assumes inv: "group_inv hash acc"
  shows "group_inv hash (group_step hash acc (st, c))"
proof (cases "hm_get acc (hash (st_metadata st))")
  case None
  then show ?thesis
    using inv by (auto simp: group_step_def md_get_id_def Let_def rp_record_with_count_def
        rp_set_metadata_def rp_new_def intro!: group_inv_insert dest!: in_hm_bumpD)
next
  case (Some r)
  note r = group_inv_get [OF inv Some]
  show ?thesis
    using inv r by (fastforce simp: group_step_def md_get_id_def Let_def Some
        rp_record_with_count_def intro!: group_inv_insert dest!: in_hm_bumpD)
qed

lemma group_step_metadata_from:
  assumes "report_metadata_from S acc" and "group_inv hash acc"
  shows "report_metadata_from (insert st S) (group_step hash acc (st, c))"
proof (cases "hm_get acc (hash (st_metadata st))")
  case None
  with assms show ?thesis
    by (auto simp: report_metadata_from_def group_step_def md_get_id_def Let_def group_inv_def
        set_hm_insert rp_record_with_count_def rp_set_metadata_def)
next
  case (Some r)
  with assms hm_get_SomeD [OF Some] show ?thesis
    by (auto simp: report_metadata_from_def group_step_def md_get_id_def Let_def group_inv_def
        set_hm_insert rp_record_with_count_def)
qed

text \<open>The fold over any sequence of entries with distinct traces.\<close>

lemma group_fold:
  assumes "distinct (map fst xs)"
  shows "group_inv hash (foldl (group_step hash) [] xs)
    \<and> grouped_entries (foldl (group_step hash) [] xs) = mset xs
    \<and> report_metadata_from (fst ` set xs) (foldl (group_step hash) [] xs)"
  using assms
proof (induction xs rule: rev_induct)
  case Nil
  then show ?case by (simp add: report_metadata_from_def)
next
  case (snoc p xs)
  obtain st c where p: "p = (st, c)" by (cases p)
  let ?acc = "foldl (group_step hash) [] xs"
  from snoc have IH: "group_inv hash ?acc" "grouped_entries ?acc = mset xs"
    "report_metadata_from (fst ` set xs) ?acc" and new: "st \<notin> fst ` set xs"
    by (simp_all add: p)
  have "grouped_entries (group_step hash ?acc (st, c)) = add_mset (st, c) (grouped_entries ?acc)"
    using IH new by (intro group_step_entries) (simp_all add: group_inv_def)
  then show ?case
    using IH group_step_inv group_step_metadata_from by (fastforce simp: p)
qed

section \<open>Reports\<close>

lemma fair_order_distinct: "fair_order ord \<Longrightarrow> hm_wf m \<Longrightarrow> distinct (map fst (ord m))"
  unfolding fair_order_def hm_wf_def by (metis mset_eq_imp_distinct_iff mset_map)

text \<open>Every entry of the buffer is in exactly one report, and nothing else is.\<close>

lemma reports_of_buffer_entries:
  assumes "sb_wf b" and "fair_order ord" and "fair_order ord_r"
  shows "mset (concat (map rp_data (reports_of_buffer hash ord ord_r b))) = mset (sb_data b)"
proof -
  let ?acc = "foldl (group_step hash) [] (ord (sb_data b))"
  have "distinct (map fst (ord (sb_data b)))"
    using assms by (simp add: fair_order_distinct sb_wf_def)
  then have acc: "grouped_entries ?acc = mset (ord (sb_data b))"
    using group_fold by blast
  have "mset (concat (map rp_data (reports_of_buffer hash ord ord_r b)))
      = (\<Sum>p\<in>#mset (ord_r ?acc). mset (rp_data (snd p)))"
    by (simp add: reports_of_buffer_def mset_concat comp_def flip: sum_mset_sum_list)
  also have "\<dots> = grouped_entries ?acc"
    using assms(3) by (simp add: grouped_entries_def fair_order_def)
  finally show ?thesis
    using acc assms(2) by (simp add: fair_order_def)
qed

lemma sum_rp_total: "sum_list (map rp_total rs) = hm_total (concat (map rp_data rs))"
  by (induction rs) (simp_all add: rp_total_def)

lemma reports_of_buffer_total:
  assumes "sb_wf b" and "fair_order ord" and "fair_order ord_r"
  shows "sum_list (map rp_total (reports_of_buffer hash ord ord_r b)) = sb_total b"
  using reports_of_buffer_entries [OF assms, of hash]
  by (simp add: sum_rp_total sb_total_def hm_total_mset)

text \<open>All traces of a report have the report's metadata hash; with no hash collision among
  the buffer's metadata they have its metadata, and no two reports share theirs.\<close>

lemma reports_of_buffer_groups:
  assumes "sb_wf b" and "fair_order ord" and "fair_order ord_r"
    and "r \<in> set (reports_of_buffer hash ord ord_r b)"
  shows "rp_data r \<noteq> []" "rp_metadata r \<in> st_metadata ` fst ` set (sb_data b)"
    "(st, c) \<in> set (rp_data r) \<Longrightarrow> hash (st_metadata st) = hash (rp_metadata r)"
proof -
  let ?acc = "foldl (group_step hash) [] (ord (sb_data b))"
  have "distinct (map fst (ord (sb_data b)))"
    using assms by (simp add: fair_order_distinct sb_wf_def)
  then have inv: "group_inv hash ?acc"
    and mdsrc: "report_metadata_from (fst ` set (ord (sb_data b))) ?acc"
    using group_fold by blast+
  from assms(3,4) obtain rid where "(rid, r) \<in> set ?acc"
    by (auto simp: reports_of_buffer_def fair_order_set)
  with inv mdsrc assms(2) show "rp_data r \<noteq> []"
    "rp_metadata r \<in> st_metadata ` fst ` set (sb_data b)"
    "(st, c) \<in> set (rp_data r) \<Longrightarrow> hash (st_metadata st) = hash (rp_metadata r)"
    by (auto simp: group_inv_def report_metadata_from_def fair_order_set)
qed

lemma reports_of_buffer_distinct_hash:
  assumes "sb_wf b" and "fair_order ord" and "fair_order ord_r"
  shows "distinct (map (\<lambda>r. hash (rp_metadata r)) (reports_of_buffer hash ord ord_r b))"
proof -
  let ?acc = "foldl (group_step hash) [] (ord (sb_data b))"
  have "distinct (map fst (ord (sb_data b)))"
    using assms by (simp add: fair_order_distinct sb_wf_def)
  then have inv: "group_inv hash ?acc"
    using group_fold by blast
  have "map (\<lambda>r. hash (rp_metadata r)) (reports_of_buffer hash ord ord_r b) = map fst (ord_r ?acc)"
    using inv assms(3) by (auto simp: reports_of_buffer_def group_inv_def fair_order_set)
  with inv assms(3) show ?thesis
    by (simp add: fair_order_distinct group_inv_def)
qed

end
