(* ===== verification/Ruleset.thy ===== *)
theory Ruleset
  imports StackTypes
begin

text \<open>
  The thread tag rules of \<open>src/backend/ruleset.rs\<close>: a shared set of (thread, tag) pairs,
  and their application to a stack trace.
\<close>

section \<open>Rules\<close>

datatype thread_tag = ThreadTag (tt_tid: thread_id) (tt_tag: tag)

text \<open>
  The \<open>HashSet\<close> behind the mutex is a list without duplicates; iteration over it goes
  through an order, a parameter.
\<close>

type_synonym thread_tags_set = "thread_tag list mutex"
type_synonym rule_order = "thread_tag list \<Rightarrow> thread_tag list"

definition rule_order_ok :: "rule_order \<Rightarrow> bool" where
  "rule_order_ok ord \<longleftrightarrow> (\<forall>rs. set (ord rs) = set rs)"

definition tts_new :: thread_tags_set where
  "tts_new = mx_new []"

definition tts_add :: "thread_tags_set \<Rightarrow> thread_tag \<Rightarrow> (bool \<times> thread_tags_set) presult" where
  "tts_add s r = bind_res (mx_lock s) (\<lambda>rs.
     if r \<in> set rs then Ok (False, s) else Ok (True, mx_store s (rs @ [r])))"

definition tts_remove :: "thread_tags_set \<Rightarrow> thread_tag \<Rightarrow> (bool \<times> thread_tags_set) presult" where
  "tts_remove s r = bind_res (mx_lock s) (\<lambda>rs.
     if r \<in> set rs then Ok (True, mx_store s (removeAll r rs)) else Ok (False, s))"

definition tts_wf :: "thread_tags_set \<Rightarrow> bool" where
  "tts_wf s \<longleftrightarrow> distinct (mx_value s) \<and> \<not> mx_poisoned s"

section \<open>Applying the rules to a trace\<close>

definition add_tag_rule :: "stack_trace \<Rightarrow> metadata \<Rightarrow> thread_tag \<Rightarrow> metadata" where
  "add_tag_rule st md r =
     (case st_thread_id st of
        Some t \<Rightarrow> if tt_tid r = t then md_add_tag md (tt_tag r) else md
      | None \<Rightarrow> md)"

definition add_tag_rules :: "rule_order \<Rightarrow> stack_trace \<Rightarrow> thread_tags_set \<Rightarrow> stack_trace" where
  "add_tag_rules ord st s =
     (let md = (if mx_poisoned s then st_metadata st
                else foldl (add_tag_rule st) (st_metadata st) (ord (mx_value s)))
      in \<lparr>st_pid = st_pid st, st_thread_id = st_thread_id st, st_thread_name = st_thread_name st,
          st_frames = st_frames st, st_metadata = md\<rparr>)"

text \<open>The tags that the rules give a thread, as a set.\<close>

definition rule_tags :: "thread_tags_set \<Rightarrow> thread_id option \<Rightarrow> tag set" where
  "rule_tags s t = {tt_tag r | r. r \<in> set (mx_value s) \<and> t = Some (tt_tid r)}"

lemma tts_wf_new [simp]: "tts_wf tts_new"
  by (simp add: tts_wf_def tts_new_def)

lemma tts_add_ok:
  "tts_wf s \<Longrightarrow> \<exists>s'. tts_add s r = Ok (r \<notin> set (mx_value s), s') \<and> tts_wf s' \<and>
     set (mx_value s') = insert r (set (mx_value s))"
  by (auto simp: tts_wf_def tts_add_def)

lemma tts_remove_ok:
  "tts_wf s \<Longrightarrow> \<exists>s'. tts_remove s r = Ok (r \<in> set (mx_value s), s') \<and> tts_wf s' \<and>
     set (mx_value s') = set (mx_value s) - {r}"
  by (auto simp: tts_wf_def tts_remove_def distinct_removeAll)

lemma foldl_add_tag_rule:
  assumes "md_wf md"
  shows "md_wf (foldl (add_tag_rule st) md rs) \<and>
    set (md_tags (foldl (add_tag_rule st) md rs))
      = set (md_tags md) \<union> {tt_tag r | r. r \<in> set rs \<and> st_thread_id st = Some (tt_tid r)}"
  using assms
proof (induction rs arbitrary: md)
  case Nil
  then show ?case by simp
next
  case (Cons r rs)
  have "md_wf (add_tag_rule st md r)"
    "set (md_tags (add_tag_rule st md r))
      = set (md_tags md) \<union> {tt_tag r' | r'. r' = r \<and> st_thread_id st = Some (tt_tid r')}"
    using Cons.prems by (auto simp: add_tag_rule_def split: option.split)
  with Cons.IH [of "add_tag_rule st md r"] show ?case by auto
qed

lemma add_tag_rules_fields [simp]:
  "st_pid (add_tag_rules ord st s) = st_pid st"
  "st_thread_id (add_tag_rules ord st s) = st_thread_id st"
  "st_thread_name (add_tag_rules ord st s) = st_thread_name st"
  "st_frames (add_tag_rules ord st s) = st_frames st"
  by (simp_all add: add_tag_rules_def Let_def)

lemma add_tag_rules_tags:
  assumes "rule_order_ok ord" and "tts_wf s" and "md_wf (st_metadata st)"
  shows "md_wf (st_metadata (add_tag_rules ord st s)) \<and>
    set (md_tags (st_metadata (add_tag_rules ord st s)))
      = set (md_tags (st_metadata st)) \<union> rule_tags s (st_thread_id st)"
  using foldl_add_tag_rule [OF assms(3), of st "ord (mx_value s)"] assms(1,2)
  by (simp add: add_tag_rules_def Let_def tts_wf_def rule_order_ok_def rule_tags_def)

lemma stack_trace_eqI:
  "st_pid a = st_pid b \<Longrightarrow> st_thread_id a = st_thread_id b \<Longrightarrow> st_thread_name a = st_thread_name b \<Longrightarrow>
   st_frames a = st_frames b \<Longrightarrow> st_metadata a = st_metadata b \<Longrightarrow> a = (b::stack_trace)"
  by simp

text \<open>The order in which the set is iterated does not matter, and applying the rules twice is
  applying them once.\<close>

lemma add_tag_rules_order:
  assumes "rule_order_ok ord" "rule_order_ok ord'" "tts_wf s" "md_wf (st_metadata st)"
  shows "add_tag_rules ord st s = add_tag_rules ord' st s"
  using add_tag_rules_tags [OF assms(1,3,4)] add_tag_rules_tags [OF assms(2,3,4)]
  by (intro stack_trace_eqI) (auto intro: md_eqI)

lemma add_tag_rules_idem:
  assumes "rule_order_ok ord" "tts_wf s" "md_wf (st_metadata st)"
  shows "add_tag_rules ord (add_tag_rules ord st s) s = add_tag_rules ord st s"
  using add_tag_rules_tags [OF assms] add_tag_rules_tags [OF assms(1,2), of "add_tag_rules ord st s"]
  by (intro stack_trace_eqI) (auto intro: md_eqI)

text \<open>C35: applying the thread tag rules to a trace adds exactly the tags of the rules for its
  thread to its metadata, in whatever order the rule set is iterated; applying them again changes
  nothing, and nothing else of the trace changes.\<close>
theorem thread_tags_applied:
  assumes "rule_order_ok ord" and "rule_order_ok ord'" and "tts_wf s" and "md_wf (st_metadata st)"
  shows "set (md_tags (st_metadata (add_tag_rules ord st s)))
        = set (md_tags (st_metadata st)) \<union> rule_tags s (st_thread_id st)
    \<and> add_tag_rules ord' st s = add_tag_rules ord st s
    \<and> add_tag_rules ord (add_tag_rules ord st s) s = add_tag_rules ord st s
    \<and> st_frames (add_tag_rules ord st s) = st_frames st \<and> st_thread_id (add_tag_rules ord st s) = st_thread_id st"
  using add_tag_rules_tags [OF assms(1,3,4)] add_tag_rules_order [OF assms(2,1,3,4)]
    add_tag_rules_idem [OF assms(1,3,4)] by simp

lemma thread_tags_applied_witness:
  "md_tags (st_metadata (add_tag_rules rev
      \<lparr>st_pid = None, st_thread_id = Some (ThreadId 7), st_thread_name = None, st_frames = [],
       st_metadata = \<lparr>md_tags = []\<rparr>\<rparr>
      (mx_new [ThreadTag (ThreadId 7) (Tag ''k'' ''v''), ThreadTag (ThreadId 8) (Tag ''a'' ''b'')])))
    = [Tag ''k'' ''v'']" (is "md_tags (st_metadata (add_tag_rules rev ?st ?s)) = _")
proof -
  have ok: "rule_order_ok rev" "rule_order_ok (\<lambda>rs. rs)" "tts_wf ?s" "md_wf (st_metadata ?st)"
    by (simp_all add: rule_order_ok_def tts_wf_def md_wf_def)
  have "rule_tags ?s (Some (ThreadId 7)) = {Tag ''k'' ''v''}"
    by (auto simp: rule_tags_def) (metis thread_tag.sel)
  then have "set (md_tags (st_metadata (add_tag_rules rev ?st ?s))) = {Tag ''k'' ''v''}"
    unfolding conjunct1 [OF thread_tags_applied [OF ok]] by simp
  moreover have "md_wf (st_metadata (add_tag_rules rev ?st ?s))"
    using add_tag_rules_tags [OF ok(1,3,4)] by blast
  ultimately have "sorted_list_of_set {Tag ''k'' ''v''} = md_tags (st_metadata (add_tag_rules rev ?st ?s))"
    by (metis md_wf_def sorted_list_of_set.idem_if_sorted_distinct)
  then show ?thesis by simp
qed

end
