(* ===== verification/BackendImpl.thy ===== *)
theory BackendImpl
  imports StackReports Ruleset
begin

text \<open>
  The interface of the profiling backends (\<open>src/backend/backend.rs\<close>): the trait's operations, the
  wrapper that keeps a backend behind a mutex and takes it out at shutdown, and the contract
  that the agent relies on (the locale \<open>report_source\<close>).
\<close>

section \<open>The trait\<close>

text \<open>An operation returns its result and the backend afterwards.\<close>

record 'b backend_ops =
  bk_initialize :: "'b \<Rightarrow> unit presult \<times> 'b"
  bk_shutdown :: "'b \<Rightarrow> unit presult"
  bk_report :: "'b \<Rightarrow> report list presult \<times> 'b"
  bk_add_tag :: "thread_tag \<Rightarrow> 'b \<Rightarrow> unit presult \<times> 'b"
  bk_remove_tag :: "thread_tag \<Rightarrow> 'b \<Rightarrow> unit presult \<times> 'b"

section \<open>The wrapper\<close>

type_synonym 'b backend_impl = "'b option mutex"

definition bi_new :: "'b \<Rightarrow> 'b backend_impl" where
  "bi_new b = mx_new (Some b)"

text \<open>\<open>lock()?.as_mut().ok_or(BackendImpl)?.op()\<close>: a panic of the operation poisons the mutex.\<close>

definition bi_with :: "('b \<Rightarrow> 'a presult \<times> 'b) \<Rightarrow> 'b backend_impl \<Rightarrow> 'a presult \<times> 'b backend_impl" where
  "bi_with oper m =
     (case bind_res (mx_lock m) (ok_or BackendImplError) of
        Ok b \<Rightarrow> (case oper b of (r, b') \<Rightarrow> (r, Mutex (r = Panic) (Some b')))
      | Err e \<Rightarrow> (Err e, m)
      | Panic \<Rightarrow> (Panic, m))"

definition bi_initialize :: "'b backend_ops \<Rightarrow> 'b backend_impl \<Rightarrow> unit presult \<times> 'b backend_impl" where
  "bi_initialize ops m = bi_with (bk_initialize ops) m"

definition bi_add_tag :: "'b backend_ops \<Rightarrow> thread_tag \<Rightarrow> 'b backend_impl \<Rightarrow> unit presult \<times> 'b backend_impl" where
  "bi_add_tag ops t m = bi_with (bk_add_tag ops t) m"

definition bi_remove_tag :: "'b backend_ops \<Rightarrow> thread_tag \<Rightarrow> 'b backend_impl \<Rightarrow> unit presult \<times> 'b backend_impl" where
  "bi_remove_tag ops t m = bi_with (bk_remove_tag ops t) m"

definition bi_shutdown :: "'b backend_ops \<Rightarrow> 'b backend_impl \<Rightarrow> unit presult \<times> 'b backend_impl" where
  "bi_shutdown ops m =
     (case bind_res (mx_lock m) (ok_or BackendImplError) of
        Ok b \<Rightarrow> (bk_shutdown ops b, Mutex (bk_shutdown ops b = Panic) None)
      | Err e \<Rightarrow> (Err e, m)
      | Panic \<Rightarrow> (Panic, m))"

definition bi_report :: "'b backend_ops \<Rightarrow> 'b backend_impl \<Rightarrow> report list presult \<times> 'b backend_impl" where
  "bi_report ops m = bi_with (bk_report ops) m"

text \<open>After the shutdown every operation reports that the backend is gone.\<close>

lemma bi_with_gone: "mx_value m = None \<Longrightarrow> \<not> mx_poisoned m \<Longrightarrow> bi_with oper m = (Err BackendImplError, m)"
  by (simp add: bi_with_def)

lemma bi_with_new [simp]: "bi_with oper (mx_new (Some b)) = (case oper b of (r, b') \<Rightarrow> (r, Mutex (r = Panic) (Some b')))"
  by (simp add: bi_with_def)

section \<open>The contract\<close>

text \<open>How often a trace is counted in some reports.\<close>

definition entry_count :: "(stack_trace \<times> usize) list \<Rightarrow> stack_trace \<Rightarrow> usize" where
  "entry_count xs st = (\<Sum>p\<leftarrow>xs. if fst p = st then snd p else 0)"

definition reported :: "report list \<Rightarrow> stack_trace \<Rightarrow> usize" where
  "reported rs = entry_count (concat (map rp_data rs))"

text \<open>Reports taken one after the other, each in its circumstances, with what \<open>arrives\<close> says was
  sampled since the last one.\<close>

fun take_reports ::
    "('e \<Rightarrow> 'b \<Rightarrow> report list presult \<times> 'b) \<Rightarrow> ('e \<Rightarrow> 'b \<Rightarrow> stack_trace \<Rightarrow> usize) \<Rightarrow> 'e list \<Rightarrow> 'b
     \<Rightarrow> (report list \<times> (stack_trace \<Rightarrow> usize)) list presult \<times> 'b" where
  "take_reports take_report arrives [] b = (Ok [], b)"
| "take_reports take_report arrives (e # es) b =
     (case take_report e b of
        (Ok rs, b') \<Rightarrow>
          (case take_reports take_report arrives es b' of
             (Ok rss, b'') \<Rightarrow> (Ok ((rs, arrives e b) # rss), b'')
           | r \<Rightarrow> r)
      | (Err x, b') \<Rightarrow> (Err x, b')
      | (Panic, b') \<Rightarrow> (Panic, b'))"

text \<open>Nothing is lost or counted twice, from \<open>p\<close> pending to \<open>p'\<close> pending.\<close>

definition accounts :: "(report list \<times> (stack_trace \<Rightarrow> usize)) list \<Rightarrow> (stack_trace \<Rightarrow> usize) \<Rightarrow> (stack_trace \<Rightarrow> usize) \<Rightarrow> bool" where
  "accounts rss p p' \<longleftrightarrow> (\<forall>st. (\<Sum>x\<leftarrow>rss. reported (fst x) st) + p' st = p st + (\<Sum>x\<leftarrow>rss. snd x st))"

text \<open>
  A backend whose state satisfies \<open>inv\<close> holds some counts (\<open>pending\<close>). A report, taken in the
  circumstances \<open>e\<close>, gives exactly the counts held and arrived, and leaves none.
\<close>

locale report_source =
  fixes ok :: "'e \<Rightarrow> bool"
    and inv :: "'b \<Rightarrow> bool"
    and pending :: "'b \<Rightarrow> stack_trace \<Rightarrow> usize"
    and arrives :: "'e \<Rightarrow> 'b \<Rightarrow> stack_trace \<Rightarrow> usize"
    and take_report :: "'e \<Rightarrow> 'b \<Rightarrow> report list presult \<times> 'b"
  assumes report_ok: "ok e \<Longrightarrow> inv b \<Longrightarrow> take_report e b = (Ok rs, b') \<Longrightarrow>
      inv b' \<and> pending b' = (\<lambda>_. 0) \<and> (\<forall>st. reported rs st = pending b st + arrives e b st)"
begin

lemma take_reports_account:
  "list_all ok es \<Longrightarrow> inv b \<Longrightarrow> take_reports take_report arrives es b = (Ok rss, b') \<Longrightarrow>
    inv b' \<and> length rss = length es \<and> accounts rss (pending b) (pending b')"
proof (induction es arbitrary: b rss)
  case Nil
  then show ?case by (simp add: accounts_def)
next
  case (Cons e es)
  from Cons.prems(3) obtain rs b1 rss1 where s: "take_report e b = (Ok rs, b1)"
    "take_reports take_report arrives es b1 = (Ok rss1, b')" "rss = (rs, arrives e b) # rss1"
    by (auto split: prod.splits res.splits)
  from Cons.prems(1) have ok: "ok e" "list_all ok es" by simp_all
  from report_ok [OF ok(1) Cons.prems(2) s(1)] have r: "inv b1" "pending b1 = (\<lambda>_. 0)"
    "reported rs st = pending b st + arrives e b st" for st by auto
  from Cons.IH [OF ok(2) r(1) s(2)] r(2,3) s(3) show ?case by (simp add: accounts_def algebra_simps)
qed

end

section \<open>Reports of a buffer\<close>

lemma entry_count_mset: "entry_count xs st = (\<Sum>p\<in>#mset xs. if fst p = st then snd p else 0)"
  by (simp add: entry_count_def flip: sum_mset_sum_list)

lemma entry_count_simps [simp]:
  "entry_count [] st = 0" "entry_count (p # xs) st = (if fst p = st then snd p else 0) + entry_count xs st"
  "entry_count (xs @ ys) st = entry_count xs st + entry_count ys st"
  by (simp_all add: entry_count_def)

lemma entry_count_wf: "hm_wf m \<Longrightarrow> entry_count m st = opt_or 0 (hm_get m st)"
proof (induction m)
  case Nil
  then show ?case by simp
next
  case (Cons p m)
  then have IH: "entry_count m st = opt_or 0 (hm_get m st)" and fresh: "fst p \<notin> fst ` set m"
    by (simp_all add: hm_wf_def)
  show ?case
  proof (cases "fst p = st")
    case True
    with fresh have "hm_get m st = None" by (simp add: hm_get_None_iff)
    with True IH show ?thesis by (cases p) (simp add: hm_get_def)
  next
    case False
    with IH show ?thesis by (cases p) (simp add: hm_get_def)
  qed
qed

lemma entry_count_fair: "fair_order ord \<Longrightarrow> entry_count (ord m) st = entry_count m st"
  by (simp add: entry_count_mset fair_order_def)

lemma reported_buffer:
  assumes "sb_wf b" and "fair_order ord" and "fair_order ord_r"
  shows "reported (reports_of_buffer hash ord ord_r b) = sb_count b"
proof
  fix st
  have "sb_count b st = entry_count (sb_data b) st"
    using assms(1) by (simp add: sb_count_def sb_wf_def entry_count_wf)
  then show "reported (reports_of_buffer hash ord ord_r b) st = sb_count b st"
    using reports_of_buffer_entries [OF assms, of hash] by (simp add: reported_def entry_count_mset)
qed

end
