(* ===== verification/Config.thy ===== *)
theory Config
  imports BackendImpl
begin

text \<open>
  The configuration of the agent, its builder and the two JSON parsers of \<open>src/pyroscope.rs\<close>.
\<close>

section \<open>Configuration\<close>

record basic_auth =
  ba_username :: string
  ba_password :: string

record pyroscope_config =
  cf_url :: string
  cf_application_name :: string
  cf_tags :: "(string, string) hmap"
  cf_sample_rate :: u32
  cf_spy_name :: string
  cf_spy_version :: string
  cf_basic_auth :: "basic_auth option"
  cf_func :: "(report \<Rightarrow> report presult) option"
  cf_tenant_id :: "string option"
  cf_http_headers :: "(string, string) hmap"

text \<open>The function may panic. \<open>generated\<close> is what the name generator of the crate \<open>names\<close> gives; \<open>version\<close> is the version of the
  crate, known when it is built.\<close>

definition cf_default :: "string option \<Rightarrow> string \<Rightarrow> pyroscope_config" where
  "cf_default generated version =
     \<lparr>cf_url = ''http://localhost:4040'',
      cf_application_name = map (\<lambda>c. if c = CHR ''-'' then CHR ''.'' else c) (opt_or ''unassigned.app'' generated),
      cf_tags = [], cf_sample_rate = 100, cf_spy_name = ''pyroscope-rs'', cf_spy_version = version,
      cf_basic_auth = None, cf_func = None, cf_tenant_id = None, cf_http_headers = []\<rparr>"

definition cf_new :: "string \<Rightarrow> string \<Rightarrow> u32 \<Rightarrow> string \<Rightarrow> string \<Rightarrow> pyroscope_config" where
  "cf_new url app rate spy version =
     \<lparr>cf_url = url, cf_application_name = app, cf_tags = [], cf_sample_rate = rate, cf_spy_name = spy,
      cf_spy_version = version, cf_basic_auth = None, cf_func = None, cf_tenant_id = None, cf_http_headers = []\<rparr>"

definition cf_set_url :: "string \<Rightarrow> pyroscope_config \<Rightarrow> pyroscope_config" where
  "cf_set_url url c = c\<lparr>cf_url := url\<rparr>"

definition cf_set_basic_auth :: "string \<Rightarrow> string \<Rightarrow> pyroscope_config \<Rightarrow> pyroscope_config" where
  "cf_set_basic_auth user password c = c\<lparr>cf_basic_auth := Some \<lparr>ba_username = user, ba_password = password\<rparr>\<rparr>"

definition cf_set_func :: "(report \<Rightarrow> report presult) \<Rightarrow> pyroscope_config \<Rightarrow> pyroscope_config" where
  "cf_set_func f c = c\<lparr>cf_func := Some f\<rparr>"

definition cf_set_tags :: "(string \<times> string) list \<Rightarrow> pyroscope_config \<Rightarrow> pyroscope_config" where
  "cf_set_tags tags c = c\<lparr>cf_tags := hm_collect tags\<rparr>"

definition cf_set_tenant_id :: "string \<Rightarrow> pyroscope_config \<Rightarrow> pyroscope_config" where
  "cf_set_tenant_id tenant c = c\<lparr>cf_tenant_id := Some tenant\<rparr>"

definition cf_set_http_headers :: "(string, string) hmap \<Rightarrow> pyroscope_config \<Rightarrow> pyroscope_config" where
  "cf_set_http_headers headers c = c\<lparr>cf_http_headers := headers\<rparr>"

section \<open>Builder\<close>

record 'b agent_builder =
  ab_backend :: "'b backend_impl"
  ab_config :: pyroscope_config

definition ab_new :: "string \<Rightarrow> string \<Rightarrow> u32 \<Rightarrow> string \<Rightarrow> string \<Rightarrow> 'b backend_impl \<Rightarrow> 'b agent_builder" where
  "ab_new url app rate spy version backend = \<lparr>ab_backend = backend, ab_config = cf_new url app rate spy version\<rparr>"

definition ab_url :: "string \<Rightarrow> 'b agent_builder \<Rightarrow> 'b agent_builder" where
  "ab_url url b = b\<lparr>ab_config := cf_set_url url (ab_config b)\<rparr>"

definition ab_basic_auth :: "string \<Rightarrow> string \<Rightarrow> 'b agent_builder \<Rightarrow> 'b agent_builder" where
  "ab_basic_auth user password b = b\<lparr>ab_config := cf_set_basic_auth user password (ab_config b)\<rparr>"

definition ab_func :: "(report \<Rightarrow> report presult) \<Rightarrow> 'b agent_builder \<Rightarrow> 'b agent_builder" where
  "ab_func f b = b\<lparr>ab_config := cf_set_func f (ab_config b)\<rparr>"

definition ab_tags :: "(string \<times> string) list \<Rightarrow> 'b agent_builder \<Rightarrow> 'b agent_builder" where
  "ab_tags tags b = b\<lparr>ab_config := cf_set_tags tags (ab_config b)\<rparr>"

definition ab_tenant_id :: "string \<Rightarrow> 'b agent_builder \<Rightarrow> 'b agent_builder" where
  "ab_tenant_id tenant b = b\<lparr>ab_config := cf_set_tenant_id tenant (ab_config b)\<rparr>"

definition ab_http_headers :: "(string, string) hmap \<Rightarrow> 'b agent_builder \<Rightarrow> 'b agent_builder" where
  "ab_http_headers headers b = b\<lparr>ab_config := cf_set_http_headers headers (ab_config b)\<rparr>"

section \<open>JSON\<close>

text \<open>The values of serde_json, whose parser and printer are parameters. An object is given in the
  order in which its map is iterated; numbers and booleans are told apart by their text only.\<close>

datatype json = JNull | JScalar string | JString string | JArray "json list" | JObject "(string \<times> json) list"

record json_lib =
  jl_parse :: "string \<Rightarrow> (json, string) res"
  jl_show :: "json \<Rightarrow> string"

fun collect_headers :: "(json \<Rightarrow> string) \<Rightarrow> (string, string) hmap \<Rightarrow> (string \<times> json) list \<Rightarrow> (string, string) hmap presult" where
  "collect_headers sh m [] = Ok m"
| "collect_headers sh m ((k, v) # kvs) =
     (case v of
        JString s \<Rightarrow> collect_headers sh (hm_insert m k s) kvs
      | _ \<Rightarrow> Err (AdHoc (''invalid http header value, not a string: '' @ sh v)))"

definition parse_http_headers_json :: "json_lib \<Rightarrow> string \<Rightarrow> (string, string) hmap presult" where
  "parse_http_headers_json lib text' =
     bind_res (map_err JsonError (jl_parse lib text')) (\<lambda>parsed.
     case parsed of
       JObject kvs \<Rightarrow> collect_headers (jl_show lib) [] kvs
     | _ \<Rightarrow> Err (AdHoc (''expected object, got '' @ jl_show lib parsed)))"

fun collect_strings :: "(json \<Rightarrow> string) \<Rightarrow> string list \<Rightarrow> json list \<Rightarrow> string list presult" where
  "collect_strings sh acc [] = Ok acc"
| "collect_strings sh acc (v # vs) =
     (case v of
        JString s \<Rightarrow> collect_strings sh (acc @ [s]) vs
      | _ \<Rightarrow> Err (AdHoc (''invalid element value, not a string: '' @ sh v)))"

definition parse_vec_string_json :: "json_lib \<Rightarrow> string \<Rightarrow> string list presult" where
  "parse_vec_string_json lib s =
     bind_res (map_err JsonError (jl_parse lib s)) (\<lambda>parsed.
     case parsed of
       JArray vs \<Rightarrow> collect_strings (jl_show lib) [] vs
     | _ \<Rightarrow> Err (AdHoc (''expected array, got '' @ jl_show lib parsed)))"

lemma collect_headers_ok:
  "collect_headers sh m (map (\<lambda>(k, s). (k, JString s)) kvs) = Ok (foldl (\<lambda>m (k, v). hm_insert m k v) m kvs)"
  by (induction kvs arbitrary: m) auto

lemma collect_headers_panic: "collect_headers sh m kvs \<noteq> Panic"
  by (induction sh m kvs rule: collect_headers.induct) (auto split: json.split)

lemma collect_strings_ok: "collect_strings sh acc (map JString ss) = Ok (acc @ ss)"
  by (induction ss arbitrary: acc) auto

lemma collect_strings_Ok_iff: "collect_strings sh acc vs = Ok r \<longleftrightarrow> (\<exists>ss. vs = map JString ss \<and> r = acc @ ss)"
proof
  show "collect_strings sh acc vs = Ok r \<Longrightarrow> \<exists>ss. vs = map JString ss \<and> r = acc @ ss"
  proof (induction sh acc vs rule: collect_strings.induct)
    case (1 sh acc)
    then show ?case by simp
  next
    case (2 sh acc v vs)
    from 2(2) obtain s where s: "v = JString s" by (cases v) auto
    with 2 obtain ss where "vs = map JString ss" "r = (acc @ [s]) @ ss" by auto
    with s show ?case by (intro exI [of _ "s # ss"]) simp
  qed
qed (auto simp: collect_strings_ok)

end
