(* ===== verification/TimeRange.thy ===== *)
theory TimeRange
  imports PyroError
begin

text \<open>
  \<open>src/utils.rs\<close>: the check of a libc return value, and the ten-second ranges into which
  the agent cuts time.
\<close>

definition check_err :: "pyroscope_error \<Rightarrow> int \<Rightarrow> int presult" where
  "check_err last_os_error num = (if num < 0 then Err last_os_error else Ok num)"

record time_range =
  tr_from :: u64
  tr_until :: u64
  tr_current :: u64
  tr_rem :: u64

text \<open>
  A zero timestamp stands for the current time, and the function calls itself on what the
  clock says, which may be zero again. The clock is the sequence of its readings (from some
  point on); not returning is \<open>None\<close>.
\<close>

type_synonym clock = "nat \<Rightarrow> u64 presult"

partial_function (option) get_time_range :: "clock \<Rightarrow> nat \<Rightarrow> u64 \<Rightarrow> (time_range presult) option" where
  "get_time_range clock k ts =
     (if ts = 0 then
        (case clock k of
           Ok now \<Rightarrow> get_time_range clock (k + 1) now
         | Err e \<Rightarrow> Some (Err e)
         | Panic \<Rightarrow> Some Panic)
      else Some (Ok \<lparr>tr_from = ts div 10 * 10, tr_until = ts div 10 * 10 + 10, tr_current = ts,
                     tr_rem = 10 - (ts mod 10)\<rparr>))"

declare get_time_range.simps [code]

lemma get_time_range_nonzero [simp]:
  "ts \<noteq> 0 \<Longrightarrow> get_time_range clock k ts = Some (Ok \<lparr>tr_from = ts div 10 * 10,
     tr_until = ts div 10 * 10 + 10, tr_current = ts, tr_rem = 10 - (ts mod 10)\<rparr>)"
  by (simp add: get_time_range.simps)

lemma get_time_range_zero:
  "get_time_range clock k 0 =
     (case clock k of
        Ok now \<Rightarrow> get_time_range clock (k + 1) now
      | Err e \<Rightarrow> Some (Err e)
      | Panic \<Rightarrow> Some Panic)"
  by (subst get_time_range.simps) simp

text \<open>Asked for the current time of a clock that is stuck at zero, \<open>get_time_range\<close> never
  returns.\<close>
theorem get_time_range_stuck:
  assumes "\<And>n. clock n = Ok 0"
  shows "get_time_range clock k 0 = None"
proof -
  have "c = clock \<longrightarrow> ts \<noteq> 0" if "get_time_range c k ts = Some y" for c k ts y
    using _ that
  proof (rule get_time_range.raw_induct [of "\<lambda>c k ts y. c = clock \<longrightarrow> ts \<noteq> 0"])
    fix f c k ts y
    assume "\<And>c k ts y. f c k ts = Some y \<Longrightarrow> c = clock \<longrightarrow> ts \<noteq> 0"
      and "(if ts = 0 then (case c k of Ok now \<Rightarrow> f c (k + 1) now | Err e \<Rightarrow> Some (Err e) | Panic \<Rightarrow> Some Panic)
        else Some (Ok \<lparr>tr_from = ts div 10 * 10, tr_until = ts div 10 * 10 + 10, tr_current = ts,
                     tr_rem = 10 - (ts mod 10)\<rparr>)) = Some y"
    then show "c = clock \<longrightarrow> ts \<noteq> 0" using assms by (fastforce split: if_splits)
  qed
  then show ?thesis by (cases "get_time_range clock k 0") auto
qed

text \<open>The word arithmetic is the arithmetic of naturals as long as the range's end fits.\<close>

lemma unat_ten_div: "unat (ts div 10 * 10 :: u64) = unat ts div 10 * 10"
proof -
  have "unat ts div 10 * 10 < 18446744073709551616"
    using unat_u64_less [of ts] div_times_less_eq_dividend [of "unat ts" 10] by linarith
  then show ?thesis by (simp add: unat_word_ariths unat_div)
qed

lemma get_time_range_bounds:
  assumes "ts \<noteq> 0" and "unat ts < 2 ^ 64 - 10"
  obtains r where "get_time_range clock k ts = Some (Ok r)" "tr_current r = ts"
    "unat (tr_from r) = unat ts div 10 * 10" "unat (tr_until r) = unat (tr_from r) + 10"
    "tr_from r \<le> ts" "ts < tr_until r" "unat (tr_rem r) + unat ts = unat (tr_until r)"
proof -
  let ?r = "\<lparr>tr_from = ts div 10 * 10, tr_until = ts div 10 * 10 + 10, tr_current = ts, tr_rem = 10 - (ts mod 10)\<rparr>"
  have fro: "unat (tr_from ?r) = unat ts div 10 * 10" using unat_ten_div by simp
  have le: "unat ts div 10 * 10 \<le> unat ts" by (rule div_times_less_eq_dividend)
  have unt: "unat (ts div 10 * 10 + 10) = unat ts div 10 * 10 + 10"
  proof -
    have "unat (ts div 10 * 10 :: u64) + unat (10 :: u64) < 2 ^ LENGTH(64)"
      using le assms(2) unat_ten_div [of ts] by simp
    from unat_add_lem [THEN iffD1, OF this] show ?thesis using unat_ten_div [of ts] by simp
  qed
  have rem: "unat (10 - ts mod 10 :: u64) = 10 - unat ts mod 10"
  proof -
    have "ts mod 10 \<le> (10 :: u64)"
      by (simp add: word_le_nat_alt unat_mod)
    then show ?thesis by (simp add: unat_sub unat_mod)
  qed
  have "get_time_range clock k ts = Some (Ok ?r)" using assms(1) by simp
  moreover have "tr_from ?r \<le> ts" using fro le by (simp add: word_le_nat_alt)
  moreover have "ts < tr_until ?r"
    using unt div_mult_mod_eq [of "unat ts" 10] mod_less_divisor [of 10 "unat ts"]
    by (simp add: word_less_nat_alt)
  moreover have "unat (tr_rem ?r) + unat ts = unat (tr_until ?r)"
  proof -
    have "10 - n mod 10 + n = n div 10 * 10 + 10" for n :: nat by presburger
    from this [of "unat ts"] show ?thesis by (simp only: time_range.simps unt rem)
  qed
  ultimately show thesis using that [of ?r] fro unt by simp
qed

lemma get_time_range_stuck_witness: "get_time_range (\<lambda>_. Ok 0) 5 0 = None"
  by (rule get_time_range_stuck) simp

text \<open>The range of a timestamp is the ten-second cell that contains it: it starts at a multiple
  of ten, ends ten seconds later, and what remains of it is counted from the timestamp.\<close>
theorem time_range_cell:
  assumes "ts \<noteq> 0" and "unat ts < 2 ^ 64 - 10"
  shows "\<exists>r. get_time_range clock k ts = Some (Ok r) \<and> tr_current r = ts
    \<and> unat (tr_from r) = unat ts div 10 * 10 \<and> unat (tr_until r) = unat (tr_from r) + 10
    \<and> tr_from r \<le> ts \<and> ts < tr_until r \<and> unat (tr_rem r) + unat ts = unat (tr_until r)"
  using get_time_range_bounds [OF assms, of clock k] by metis

lemma time_range_cell_witness:
  "\<exists>r. get_time_range (\<lambda>_. Panic) 0 1234 = Some (Ok r) \<and> unat (tr_from r) = 1230 \<and> unat (tr_rem r) = 6"
  using time_range_cell [of 1234 "\<lambda>_. Panic" 0] by force

end
