(* ===== verification/Interning.thy ===== *)
theory Interning
  imports Prelude "HOL-Library.Sublist"
begin

text \<open>
  Interning: a table of distinct entries in insertion order with a hash map from an entry
  to its identifier. Both profile encoders keep such tables for strings, functions and
  locations; the locale states what such a table promises to the code that builds a
  profile, and the association list \<open>indexed\<close> is the shape the hash maps have.
\<close>

section \<open>The hash map of a table\<close>

definition indexed :: "(nat \<Rightarrow> 'i) \<Rightarrow> 'k list \<Rightarrow> ('k, 'i) hmap" where
  "indexed ident ks = zip ks (map ident [0..<length ks])"

lemma indexed_Nil [simp]: "indexed ident [] = []"
  by (simp add: indexed_def)

lemma indexed_length [simp]: "length (indexed ident ks) = length ks"
  by (simp add: indexed_def)

lemma hm_get_indexed_hit:
  "distinct ks \<Longrightarrow> n < length ks \<Longrightarrow> hm_get (indexed ident ks) (ks ! n) = Some (ident n)"
  by (simp add: hm_get_def indexed_def map_of_zip_nth)

lemma hm_get_indexed_miss: "k \<notin> set ks \<Longrightarrow> hm_get (indexed ident ks) k = None"
  by (simp add: hm_get_def indexed_def map_of_zip_is_None)

lemma hm_insert_indexed:
  "k \<notin> set ks \<Longrightarrow> hm_insert (indexed ident ks) k (ident (length ks)) = indexed ident (ks @ [k])"
  by (simp add: hm_insert_fresh hm_get_indexed_miss) (simp add: indexed_def)

section \<open>The interface\<close>

locale interner =
  fixes intern :: "'s \<Rightarrow> 'k \<Rightarrow> ('i \<times> 's, 'e) res"
    and entries :: "'s \<Rightarrow> 'k list"
    and ident :: "nat \<Rightarrow> 'i"
    and inv :: "'s \<Rightarrow> bool"
  assumes entries_distinct: "inv s \<Longrightarrow> distinct (entries s)"
    and intern_hit: "inv s \<Longrightarrow> n < length (entries s) \<Longrightarrow> intern s (entries s ! n) = Ok (ident n, s)"
    and intern_miss: "inv s \<Longrightarrow> k \<notin> set (entries s) \<Longrightarrow>
      \<exists>s'. intern s k = Ok (ident (length (entries s)), s') \<and> entries s' = entries s @ [k] \<and> inv s'"
begin

text \<open>Interning always returns, and returns the identifier of its key.\<close>

lemma intern_total:
  assumes "inv s"
  shows "\<exists>n s'. intern s k = Ok (ident n, s') \<and> inv s' \<and> n < length (entries s') \<and>
    entries s' ! n = k \<and> prefix (entries s) (entries s')"
proof (cases "k \<in> set (entries s)")
  case True
  then obtain n where "n < length (entries s)" "entries s ! n = k"
    by (auto simp: in_set_conv_nth)
  then show ?thesis using intern_hit [OF assms] assms by fastforce
next
  case False
  from intern_miss [OF assms this] obtain s' where
    "intern s k = Ok (ident (length (entries s)), s')" "entries s' = entries s @ [k]" "inv s'"
    by blast
  then show ?thesis
    by (intro exI [of _ "length (entries s)"] exI [of _ s']) simp
qed

lemma intern_OkD:
  assumes "inv s" and "intern s k = Ok (i, s')"
  obtains n where "i = ident n" "inv s'" "n < length (entries s')" "entries s' ! n = k"
    "prefix (entries s) (entries s')"
  using intern_total [OF assms(1), of k] assms(2) by auto

lemma intern_resolves:
  assumes "inv s" and "intern s k = Ok (i, s')" and "prefix (entries s') ks"
  obtains n where "i = ident n" "n < length ks" "ks ! n = k"
proof -
  obtain n where "i = ident n" "n < length (entries s')" "entries s' ! n = k"
    using intern_OkD [OF assms(1,2)] by blast
  with assms(3) that [of n] show thesis
    by (auto simp: prefix_def nth_append)
qed

text \<open>Once interned, a key keeps its identifier, and asking for it again changes nothing.\<close>

lemma intern_stable:
  assumes "inv s" and "intern s k = Ok (i, s1)" and "inv s2" and "prefix (entries s1) (entries s2)"
  shows "intern s2 k = Ok (i, s2)"
proof -
  from intern_resolves [OF assms(1,2,4)] obtain n
    where "i = ident n" "n < length (entries s2)" "entries s2 ! n = k" .
  with intern_hit [OF assms(3)] show ?thesis by blast
qed

text \<open>Different keys have different identifiers as long as the identifiers do not wrap.\<close>

lemma intern_injective:
  assumes "inv s" and "intern s k = Ok (i, s1)" and "inv s1" and "intern s1 k' = Ok (i, s2)"
    and "inj_on ident {..<length (entries s2)}"
  shows "k = k'"
proof -
  obtain m where m: "i = ident m" "m < length (entries s2)" "entries s2 ! m = k'"
    and pre: "prefix (entries s1) (entries s2)"
    using intern_OkD [OF assms(3,4)] by blast
  from intern_resolves [OF assms(1,2) pre] obtain n
    where n: "i = ident n" "n < length (entries s2)" "entries s2 ! n = k" .
  from m n assms(5) have "m = n" by (auto dest: inj_onD)
  with m n show ?thesis by simp
qed

end

text \<open>The identifiers the code uses: positions as machine words, from 0 or from 1.\<close>

lemma unat_of_nat_small: "n < 2 ^ 64 \<Longrightarrow> unat (word_of_nat n :: u64) = n"
  by (simp add: unat_of_nat take_bit_eq_mod)

lemma word_of_nat_64_inject:
  "m < 2 ^ 64 \<Longrightarrow> n < 2 ^ 64 \<Longrightarrow> (word_of_nat m :: u64) = word_of_nat n \<longleftrightarrow> m = n"
  using unat_of_nat_small by metis

lemma inj_on_position: "n \<le> 2 ^ 64 \<Longrightarrow> inj_on (word_of_nat :: nat \<Rightarrow> u64) {..<n}"
  by (auto intro!: inj_onI simp: word_of_nat_64_inject)

end
