(* ===== verification/PprofEncode.thy ===== *)
theory PprofEncode
  imports Interning StackTypes
begin

text \<open>
  The agent's pprof encoder: the messages of \<open>src/encode/gen/google.rs\<close> and
  \<open>PProfBuilder\<close> with \<open>encode\<close> of \<open>src/encode/pprof.rs\<close>, every loop and every
  assertion included.
\<close>

section \<open>Messages\<close>

record value_type =
  vt_type :: i64
  vt_unit :: i64

record label =
  lb_key :: i64
  lb_str :: i64
  lb_num :: i64
  lb_num_unit :: i64

record sample =
  sm_location_id :: "u64 list"
  sm_value :: "i64 list"
  sm_label :: "label list"

record mapping =
  mp_id :: u64
  mp_memory_start :: u64
  mp_memory_limit :: u64
  mp_file_offset :: u64
  mp_filename :: i64
  mp_build_id :: i64
  mp_has_functions :: bool
  mp_has_filenames :: bool
  mp_has_line_numbers :: bool
  mp_has_inline_frames :: bool

record line =
  ln_function_id :: u64
  ln_line :: i64

record location =
  lc_id :: u64
  lc_mapping_id :: u64
  lc_address :: u64
  lc_line :: "line list"
  lc_is_folded :: bool

record func =
  fn_id :: u64
  fn_name :: i64
  fn_system_name :: i64
  fn_filename :: i64
  fn_start_line :: i64

record profile =
  pf_sample_type :: "value_type list"
  pf_sample :: "sample list"
  pf_mapping :: "mapping list"
  pf_location :: "location list"
  pf_function :: "func list"
  pf_string_table :: "string list"
  pf_drop_frames :: i64
  pf_keep_frames :: i64
  pf_time_nanos :: i64
  pf_duration_nanos :: i64
  pf_period_type :: "value_type option"
  pf_period :: i64
  pf_comment :: "i64 list"
  pf_default_sample_type :: i64

section \<open>The builder\<close>

record location_mirror =
  lm_function_id :: u64
  lm_line :: i64

record function_mirror =
  fm_name :: i64
  fm_filename :: i64

record pprof_builder =
  pb_profile :: profile
  pb_strings :: "(string, i64) hmap"
  pb_functions :: "(function_mirror, u64) hmap"
  pb_locations :: "(location_mirror, u64) hmap"

definition add_string :: "pprof_builder \<Rightarrow> string \<Rightarrow> (i64 \<times> pprof_builder) presult" where
  "add_string b s =
     (case hm_get (pb_strings b) s of
        Some v \<Rightarrow> Ok (v, b)
      | None \<Rightarrow>
          if length (pb_strings b) = length (pf_string_table (pb_profile b)) + 1 then Panic
          else
            let sid = word_of_nat (length (pb_strings b)) in
            Ok (sid, b\<lparr>pb_strings := hm_insert (pb_strings b) s sid,
                       pb_profile := (pb_profile b)\<lparr>pf_string_table :=
                         pf_string_table (pb_profile b) @ [s]\<rparr>\<rparr>))"

definition add_function :: "pprof_builder \<Rightarrow> function_mirror \<Rightarrow> (u64 \<times> pprof_builder) presult" where
  "add_function b fm =
     (case hm_get (pb_functions b) fm of
        Some v \<Rightarrow> Ok (v, b)
      | None \<Rightarrow>
          if length (pb_functions b) = length (pf_function (pb_profile b)) + 1 then Panic
          else
            let fid = word_of_nat (length (pb_functions b)) + 1;
                f = \<lparr>fn_id = fid, fn_name = fm_name fm, fn_system_name = 0,
                     fn_filename = fm_filename fm, fn_start_line = 0\<rparr> in
            Ok (fid, b\<lparr>pb_functions := hm_insert (pb_functions b) fm fid,
                       pb_profile := (pb_profile b)\<lparr>pf_function :=
                         pf_function (pb_profile b) @ [f]\<rparr>\<rparr>))"

definition add_location :: "pprof_builder \<Rightarrow> location_mirror \<Rightarrow> (u64 \<times> pprof_builder) presult" where
  "add_location b lm =
     (case hm_get (pb_locations b) lm of
        Some v \<Rightarrow> Ok (v, b)
      | None \<Rightarrow>
          if length (pb_locations b) = length (pf_location (pb_profile b)) + 1 then Panic
          else
            let lid = word_of_nat (length (pb_locations b)) + 1;
                l = \<lparr>lc_id = lid, lc_mapping_id = 0, lc_address = 0,
                     lc_line = [\<lparr>ln_function_id = lm_function_id lm, ln_line = lm_line lm\<rparr>],
                     lc_is_folded = False\<rparr> in
            Ok (lid, b\<lparr>pb_locations := hm_insert (pb_locations b) lm lid,
                       pb_profile := (pb_profile b)\<lparr>pf_location :=
                         pf_location (pb_profile b) @ [l]\<rparr>\<rparr>))"

section \<open>Encoding\<close>

text \<open>\<open>for sf in &stacktrace.frames\<close>: the location ids, in order.\<close>

fun enc_frames :: "pprof_builder \<Rightarrow> stack_frame list \<Rightarrow> (u64 list \<times> pprof_builder) presult" where
  "enc_frames b [] = Ok ([], b)"
| "enc_frames b (sf # sfs) =
     bind_res (add_string b (opt_or [] (sf_name sf))) (\<lambda>(name, b1).
     bind_res (add_string b1 (opt_or [] (sf_filename sf))) (\<lambda>(filename, b2).
     let line = ucast (opt_or 0 (sf_line sf)) in
     bind_res (add_function b2 \<lparr>fm_name = name, fm_filename = filename\<rparr>) (\<lambda>(function_id, b3).
     bind_res (add_location b3 \<lparr>lm_function_id = function_id, lm_line = line\<rparr>) (\<lambda>(location_id, b4).
     bind_res (enc_frames b4 sfs) (\<lambda>(ids, b5). Ok (location_id # ids, b5))))))"

text \<open>\<open>for l in &metadata.tags\<close>: the tags go into the map of labels, the last of a key wins.\<close>

fun enc_tags ::
    "pprof_builder \<Rightarrow> (i64, i64) hmap \<Rightarrow> tag list \<Rightarrow> ((i64, i64) hmap \<times> pprof_builder) presult" where
  "enc_tags b labels [] = Ok (labels, b)"
| "enc_tags b labels (l # ls) =
     bind_res (add_string b (tag_key l)) (\<lambda>(k, b1).
     bind_res (add_string b1 (tag_value l)) (\<lambda>(v, b2).
     enc_tags b2 (hm_insert labels k v) ls))"

definition label_of :: "i64 \<times> i64 \<Rightarrow> label" where
  "label_of = (\<lambda>(k, v). \<lparr>lb_key = k, lb_str = v, lb_num = 0, lb_num_unit = 0\<rparr>)"

text \<open>The body of the inner loop: one sample.\<close>

definition enc_stack ::
    "(i64, i64) iter_order \<Rightarrow> metadata \<Rightarrow> pprof_builder \<Rightarrow> stack_trace \<times> usize
     \<Rightarrow> pprof_builder presult" where
  "enc_stack ord_labels report_md b = (\<lambda>(st, value).
     let v = value * pf_period (pb_profile b) in
     bind_res (enc_frames b (st_frames st)) (\<lambda>(ids, b1).
     bind_res (enc_tags b1 [] (md_tags (st_metadata st))) (\<lambda>(labels1, b2).
     bind_res (enc_tags b2 labels1 (md_tags report_md)) (\<lambda>(labels, b3).
     Ok (b3\<lparr>pb_profile := (pb_profile b3)\<lparr>pf_sample := pf_sample (pb_profile b3) @
        [\<lparr>sm_location_id = ids, sm_value = [v],
          sm_label = map label_of (ord_labels labels)\<rparr>]\<rparr>\<rparr>)))))"

fun enc_stacks ::
    "(i64, i64) iter_order \<Rightarrow> metadata \<Rightarrow> pprof_builder \<Rightarrow> (stack_trace \<times> usize) list
     \<Rightarrow> pprof_builder presult" where
  "enc_stacks ord_labels md b [] = Ok b"
| "enc_stacks ord_labels md b (p # ps) =
     bind_res (enc_stack ord_labels md b p) (\<lambda>b'. enc_stacks ord_labels md b' ps)"

fun enc_reports ::
    "(stack_trace, usize) iter_order \<Rightarrow> (i64, i64) iter_order \<Rightarrow> pprof_builder \<Rightarrow> report list
     \<Rightarrow> pprof_builder presult" where
  "enc_reports ord ord_labels b [] = Ok b"
| "enc_reports ord ord_labels b (r # rs) =
     bind_res (enc_stacks ord_labels (rp_metadata r) b (ord (rp_data r))) (\<lambda>b'.
     enc_reports ord ord_labels b' rs)"

definition empty_profile :: "u64 \<Rightarrow> u64 \<Rightarrow> profile" where
  "empty_profile start_time_nanos duration_nanos =
     \<lparr>pf_sample_type = [], pf_sample = [], pf_mapping = [], pf_location = [], pf_function = [],
      pf_string_table = [], pf_drop_frames = 0, pf_keep_frames = 0,
      pf_time_nanos = start_time_nanos, pf_duration_nanos = duration_nanos,
      pf_period_type = None, pf_period = 0, pf_comment = [], pf_default_sample_type = 0\<rparr>"

definition pb_init :: "u64 \<Rightarrow> u64 \<Rightarrow> pprof_builder" where
  "pb_init start_time_nanos duration_nanos =
     \<lparr>pb_profile = empty_profile start_time_nanos duration_nanos,
      pb_strings = [], pb_functions = [], pb_locations = []\<rparr>"

text \<open>The prologue of \<open>encode\<close>: the empty string, the value type and the period, which is a
  division by the sample rate.\<close>

definition enc_header :: "pprof_builder \<Rightarrow> u32 \<Rightarrow> pprof_builder presult" where
  "enc_header b sample_rate =
     bind_res (add_string b []) (\<lambda>(_, b0).
     bind_res (add_string b0 ''cpu'') (\<lambda>(cpu, b1).
     bind_res (add_string b1 ''nanoseconds'') (\<lambda>(nanoseconds, b2).
     if sample_rate = 0 then Panic
     else
       let vt = \<lparr>vt_type = cpu, vt_unit = nanoseconds\<rparr> in
       Ok (b2\<lparr>pb_profile := (pb_profile b2)\<lparr>pf_sample_type := pf_sample_type (pb_profile b2) @ [vt],
            pf_period := 1000000000 div ucast sample_rate,
            pf_period_type := Some vt\<rparr>\<rparr>))))"

definition encode ::
    "(stack_trace, usize) iter_order \<Rightarrow> (i64, i64) iter_order \<Rightarrow> report list \<Rightarrow> u32 \<Rightarrow> u64 \<Rightarrow> u64
     \<Rightarrow> profile presult" where
  "encode ord ord_labels reports sample_rate start_time_nanos duration_nanos =
     bind_res (enc_header (pb_init start_time_nanos duration_nanos) sample_rate) (\<lambda>b.
     bind_res (enc_reports ord ord_labels b reports) (\<lambda>b'. Ok (pb_profile b')))"

end
