(* ===== verification/PprofEncodeCorrect.thy ===== *)
theory PprofEncodeCorrect
  imports PprofEncode
begin

text \<open>
  Correctness of the agent's encoder. The tables of the builder are interning tables (three
  interpretations of \<open>interner\<close>), no assertion ever fires, and a reader of the finished
  profile who follows its ids gets back the frames, the values and the labels of every stack
  trace of the reports, in order.
\<close>

section \<open>The invariant of the builder\<close>

definition func_mirror :: "func \<Rightarrow> function_mirror" where
  "func_mirror f = \<lparr>fm_name = fn_name f, fm_filename = fn_filename f\<rparr>"

definition loc_mirror :: "location \<Rightarrow> location_mirror" where
  "loc_mirror l = \<lparr>lm_function_id = ln_function_id (hd (lc_line l)), lm_line = ln_line (hd (lc_line l))\<rparr>"

lemma func_mirror_new [simp]:
  "func_mirror \<lparr>fn_id = i, fn_name = fm_name k, fn_system_name = s, fn_filename = fm_filename k,
     fn_start_line = l\<rparr> = k"
  by (cases k) (simp add: func_mirror_def)

lemma loc_mirror_new [simp]:
  "loc_mirror \<lparr>lc_id = i, lc_mapping_id = m, lc_address = a,
     lc_line = [\<lparr>ln_function_id = lm_function_id k, ln_line = lm_line k\<rparr>], lc_is_folded = d\<rparr> = k"
  by (cases k) (simp add: loc_mirror_def)

abbreviation (input) pb_table :: "pprof_builder \<Rightarrow> string list" where
  "pb_table b \<equiv> pf_string_table (pb_profile b)"

abbreviation (input) pos_id :: "nat \<Rightarrow> u64" where
  "pos_id n \<equiv> word_of_nat n + 1"

definition pf_ids :: "profile \<Rightarrow> bool" where
  "pf_ids p \<longleftrightarrow> map fn_id (pf_function p) = map pos_id [0..<length (pf_function p)]
     \<and> map lc_id (pf_location p) = map pos_id [0..<length (pf_location p)]
     \<and> (\<forall>l \<in> set (pf_location p). length (lc_line l) = 1)
     \<and> distinct (pf_string_table p)"

definition pb_inv :: "pprof_builder \<Rightarrow> bool" where
  "pb_inv b \<longleftrightarrow> pf_ids (pb_profile b)
     \<and> pb_strings b = indexed word_of_nat (pf_string_table (pb_profile b))
     \<and> pb_functions b = indexed pos_id (map func_mirror (pf_function (pb_profile b)))
     \<and> pb_locations b = indexed pos_id (map loc_mirror (pf_location (pb_profile b)))
     \<and> distinct (map func_mirror (pf_function (pb_profile b)))
     \<and> distinct (map loc_mirror (pf_location (pb_profile b)))"

text \<open>The tables only grow, and interning touches nothing else of the profile.\<close>

definition pf_ext :: "profile \<Rightarrow> profile \<Rightarrow> bool" where
  "pf_ext p q \<longleftrightarrow> prefix (pf_string_table p) (pf_string_table q)
     \<and> prefix (pf_function p) (pf_function q) \<and> prefix (pf_location p) (pf_location q)"

definition pf_frame :: "profile \<Rightarrow> profile \<Rightarrow> bool" where
  "pf_frame p q \<longleftrightarrow> p\<lparr>pf_string_table := [], pf_function := [], pf_location := []\<rparr>
     = q\<lparr>pf_string_table := [], pf_function := [], pf_location := []\<rparr>"

definition pb_grows :: "pprof_builder \<Rightarrow> pprof_builder \<Rightarrow> bool" where
  "pb_grows b b' \<longleftrightarrow> pb_inv b' \<and> pf_ext (pb_profile b) (pb_profile b')
     \<and> pf_frame (pb_profile b) (pb_profile b')"

lemma pf_ext_refl [simp]: "pf_ext p p"
  by (simp add: pf_ext_def)

lemma pf_ext_trans: "pf_ext p q \<Longrightarrow> pf_ext q r \<Longrightarrow> pf_ext p r"
  by (simp add: pf_ext_def) (metis prefix_order.trans)

lemma pf_frame_refl [simp]: "pf_frame p p"
  by (simp add: pf_frame_def)

lemma pf_frame_trans: "pf_frame p q \<Longrightarrow> pf_frame q r \<Longrightarrow> pf_frame p r"
  by (simp add: pf_frame_def)

lemma pb_grows_refl: "pb_inv b \<Longrightarrow> pb_grows b b"
  by (simp add: pb_grows_def)

lemma pb_grows_trans: "pb_grows a b \<Longrightarrow> pb_grows b c \<Longrightarrow> pb_grows a c"
  using pf_ext_trans [of "pb_profile a" "pb_profile b" "pb_profile c"]
    pf_frame_trans [of "pb_profile a" "pb_profile b" "pb_profile c"]
  by (simp add: pb_grows_def)

lemma pb_growsD:
  "pb_grows b b' \<Longrightarrow> pb_inv b'" "pb_grows b b' \<Longrightarrow> pf_ext (pb_profile b) (pb_profile b')"
  by (simp_all add: pb_grows_def)

lemma pf_frame_fields:
  assumes "pf_frame p q"
  shows "pf_sample q = pf_sample p" "pf_period q = pf_period p" "pf_sample_type q = pf_sample_type p"
    "pf_period_type q = pf_period_type p" "pf_time_nanos q = pf_time_nanos p"
    "pf_duration_nanos q = pf_duration_nanos p"
  using arg_cong [OF assms [unfolded pf_frame_def], of pf_sample]
    arg_cong [OF assms [unfolded pf_frame_def], of pf_period]
    arg_cong [OF assms [unfolded pf_frame_def], of pf_sample_type]
    arg_cong [OF assms [unfolded pf_frame_def], of pf_period_type]
    arg_cong [OF assms [unfolded pf_frame_def], of pf_time_nanos]
    arg_cong [OF assms [unfolded pf_frame_def], of pf_duration_nanos]
  by simp_all

section \<open>The three interning tables\<close>

interpretation str_tab: interner add_string pb_table word_of_nat pb_inv
proof (standard, goal_cases)
  case (1 s)
  then show ?case by (simp add: pb_inv_def pf_ids_def)
next
  case (2 s n)
  then show ?case
    by (simp add: pb_inv_def pf_ids_def add_string_def hm_get_indexed_hit)
next
  case (3 s k)
  then show ?case
    by (simp add: pb_inv_def pf_ids_def add_string_def Let_def hm_get_indexed_miss hm_insert_indexed)
qed

interpretation fun_tab: interner add_function "\<lambda>b. map func_mirror (pf_function (pb_profile b))" pos_id pb_inv
proof (standard, goal_cases)
  case (1 s)
  then show ?case by (simp add: pb_inv_def)
next
  case (2 s n)
  then have "hm_get (pb_functions s) (map func_mirror (pf_function (pb_profile s)) ! n) = Some (pos_id n)"
    by (simp only: pb_inv_def hm_get_indexed_hit)
  then show ?case by (simp add: add_function_def)
next
  case (3 s k)
  then show ?case
    using hm_insert_indexed [of k "map func_mirror (pf_function (pb_profile s))" pos_id]
    by (simp add: pb_inv_def pf_ids_def add_function_def Let_def hm_get_indexed_miss)
qed

interpretation loc_tab: interner add_location "\<lambda>b. map loc_mirror (pf_location (pb_profile b))" pos_id pb_inv
proof (standard, goal_cases)
  case (1 s)
  then show ?case by (simp add: pb_inv_def)
next
  case (2 s n)
  then have "hm_get (pb_locations s) (map loc_mirror (pf_location (pb_profile s)) ! n) = Some (pos_id n)"
    by (simp only: pb_inv_def hm_get_indexed_hit)
  then show ?case by (simp add: add_location_def)
next
  case (3 s k)
  then show ?case
    using hm_insert_indexed [of k "map loc_mirror (pf_location (pb_profile s))" pos_id]
    by (simp add: pb_inv_def pf_ids_def add_location_def Let_def hm_get_indexed_miss)
qed

lemma add_string_grows:
  assumes "pb_inv b" and "add_string b s = Ok (i, b')"
  shows "pb_grows b b'"
proof -
  have "pb_inv b'" using str_tab.intern_OkD [OF assms] by blast
  moreover have "pf_ext (pb_profile b) (pb_profile b') \<and> pf_frame (pb_profile b) (pb_profile b')"
    using assms(2) by (auto simp: add_string_def Let_def pf_ext_def pf_frame_def split: option.splits if_splits)
  ultimately show ?thesis by (simp add: pb_grows_def)
qed

lemma add_function_grows:
  assumes "pb_inv b" and "add_function b fm = Ok (i, b')"
  shows "pb_grows b b'"
proof -
  have "pb_inv b'" using fun_tab.intern_OkD [OF assms] by blast
  moreover have "pf_ext (pb_profile b) (pb_profile b') \<and> pf_frame (pb_profile b) (pb_profile b')"
    using assms(2) by (auto simp: add_function_def Let_def pf_ext_def pf_frame_def split: option.splits if_splits)
  ultimately show ?thesis by (simp add: pb_grows_def)
qed

lemma add_location_grows:
  assumes "pb_inv b" and "add_location b lm = Ok (i, b')"
  shows "pb_grows b b'"
proof -
  have "pb_inv b'" using loc_tab.intern_OkD [OF assms] by blast
  moreover have "pf_ext (pb_profile b) (pb_profile b') \<and> pf_frame (pb_profile b) (pb_profile b')"
    using assms(2) by (auto simp: add_location_def Let_def pf_ext_def pf_frame_def split: option.splits if_splits)
  ultimately show ?thesis by (simp add: pb_grows_def)
qed

section \<open>Reading a profile\<close>

text \<open>A reader looks a string up by its index, a function and a location by their id.\<close>

definition resolve_string :: "profile \<Rightarrow> i64 \<Rightarrow> string option" where
  "resolve_string p i =
     (if unat i < length (pf_string_table p) then Some (pf_string_table p ! unat i) else None)"

definition resolve_function :: "profile \<Rightarrow> u64 \<Rightarrow> (string \<times> string) option" where
  "resolve_function p fid =
     (case find (\<lambda>f. fn_id f = fid) (pf_function p) of
        None \<Rightarrow> None
      | Some f \<Rightarrow> (case (resolve_string p (fn_name f), resolve_string p (fn_filename f)) of
            (Some name, Some file) \<Rightarrow> Some (name, file)
          | _ \<Rightarrow> None))"

definition resolve_location :: "profile \<Rightarrow> u64 \<Rightarrow> (string \<times> string \<times> i64) option" where
  "resolve_location p lid =
     (case find (\<lambda>l. lc_id l = lid) (pf_location p) of
        None \<Rightarrow> None
      | Some l \<Rightarrow> (case lc_line l of
            [ln] \<Rightarrow> map_option (\<lambda>(name, file). (name, file, ln_line ln))
                      (resolve_function p (ln_function_id ln))
          | _ \<Rightarrow> None))"

definition resolve_labels :: "profile \<Rightarrow> label list \<Rightarrow> (string option \<times> string option) multiset" where
  "resolve_labels p ls = mset (map (\<lambda>l. (resolve_string p (lb_key l), resolve_string p (lb_str l))) ls)"

type_synonym sample_view =
  "(string \<times> string \<times> i64) option list \<times> i64 list \<times> (string option \<times> string option) multiset"

definition resolve_sample :: "profile \<Rightarrow> sample \<Rightarrow> sample_view" where
  "resolve_sample p s =
     (map (resolve_location p) (sm_location_id s), sm_value s, resolve_labels p (sm_label s))"

text \<open>What the reader ought to see of a trace in a report.\<close>

definition frame_view :: "stack_frame \<Rightarrow> string \<times> string \<times> i64" where
  "frame_view sf = (opt_or [] (sf_name sf), opt_or [] (sf_filename sf), ucast (opt_or 0 (sf_line sf)))"

definition tag_labels :: "tag list \<Rightarrow> (string, string) hmap" where
  "tag_labels ts = hm_collect (map (\<lambda>t. (tag_key t, tag_value t)) ts)"

definition stack_view :: "i64 \<Rightarrow> metadata \<Rightarrow> stack_trace \<times> usize \<Rightarrow> sample_view" where
  "stack_view period md = (\<lambda>(st, value).
     (map (Some \<circ> frame_view) (st_frames st), [value * period],
      mset (map (\<lambda>(k, v). (Some k, Some v)) (tag_labels (md_tags (st_metadata st) @ md_tags md)))))"

text \<open>Profiles whose ids do not wrap around.\<close>

definition pf_small :: "profile \<Rightarrow> bool" where
  "pf_small p \<longleftrightarrow> length (pf_string_table p) < 2 ^ 64 \<and> length (pf_function p) < 2 ^ 64
     \<and> length (pf_location p) < 2 ^ 64"

definition pf_good :: "profile \<Rightarrow> bool" where
  "pf_good p \<longleftrightarrow> pf_small p \<and> pf_ids p"

lemma find_by_position:
  assumes "map key xs = map pos_id [0..<length xs]" and "n < length xs" and "length xs < 2 ^ 64"
  shows "find (\<lambda>x. key x = pos_id n) xs = Some (xs ! n)"
proof -
  have key: "key (xs ! i) = pos_id i" if "i < length xs" for i
    using arg_cong [OF assms(1), of "\<lambda>l. l ! i"] that by simp
  have "key (xs ! i) \<noteq> pos_id n" if "i < n" for i
    using that assms(2,3) by (simp add: key word_of_nat_64_inject)
  with assms(2) key show ?thesis
    by (auto simp: find_Some_iff intro!: exI [of _ n])
qed

lemma resolve_added_string:
  assumes "pb_inv b" and "add_string b s = Ok (i, b')" and "pf_ext (pb_profile b') q" and "pf_good q"
  shows "resolve_string q i = Some s"
proof -
  from assms(3) have "prefix (pb_table b') (pf_string_table q)" by (simp add: pf_ext_def)
  from str_tab.intern_resolves [OF assms(1,2) this] obtain n
    where "i = word_of_nat n" "n < length (pf_string_table q)" "pf_string_table q ! n = s" .
  with assms(4) show ?thesis
    by (simp add: resolve_string_def pf_good_def pf_small_def unat_of_nat_small)
qed

lemma prefix_map: "prefix xs ys \<Longrightarrow> prefix (map f xs) (map f ys)"
  by (auto simp: prefix_def)

lemma resolve_added_function:
  assumes "pb_inv b" and "add_function b fm = Ok (i, b')" and "pf_ext (pb_profile b') q" and "pf_good q"
    and "resolve_string q (fm_name fm) = Some name" and "resolve_string q (fm_filename fm) = Some file"
  shows "resolve_function q i = Some (name, file)"
proof -
  from assms(3) have "prefix (map func_mirror (pf_function (pb_profile b'))) (map func_mirror (pf_function q))"
    by (simp add: pf_ext_def prefix_map)
  from fun_tab.intern_resolves [OF assms(1,2) this] obtain n
    where n: "i = pos_id n" "n < length (pf_function q)" "func_mirror (pf_function q ! n) = fm"
    by auto
  then have "find (\<lambda>f. fn_id f = i) (pf_function q) = Some (pf_function q ! n)"
    using assms(4) by (simp add: find_by_position pf_good_def pf_ids_def pf_small_def)
  with n assms(5,6) show ?thesis
    by (auto simp: resolve_function_def func_mirror_def)
qed

lemma resolve_added_location:
  assumes "pb_inv b" and "add_location b lm = Ok (i, b')" and "pf_ext (pb_profile b') q" and "pf_good q"
    and "resolve_function q (lm_function_id lm) = Some (name, file)"
  shows "resolve_location q i = Some (name, file, lm_line lm)"
proof -
  from assms(3) have "prefix (map loc_mirror (pf_location (pb_profile b'))) (map loc_mirror (pf_location q))"
    by (simp add: pf_ext_def prefix_map)
  from loc_tab.intern_resolves [OF assms(1,2) this] obtain n
    where n: "i = pos_id n" "n < length (pf_location q)" "loc_mirror (pf_location q ! n) = lm"
    by auto
  then have find: "find (\<lambda>l. lc_id l = i) (pf_location q) = Some (pf_location q ! n)"
    using assms(4) by (simp add: find_by_position pf_good_def pf_ids_def pf_small_def)
  from assms(4) n(2) have "length (lc_line (pf_location q ! n)) = 1"
    by (simp add: pf_good_def pf_ids_def)
  then obtain ln where "lc_line (pf_location q ! n) = [ln]"
    by (auto simp: length_Suc_conv)
  with n(3) find assms(5) show ?thesis
    by (auto simp: resolve_location_def loc_mirror_def)
qed

section \<open>The loops\<close>

lemma add_string_ok:
  assumes "pb_inv b"
  obtains i b' where "add_string b s = Ok (i, b')" "pb_grows b b'" "pb_inv b'"
    "\<And>q. pf_ext (pb_profile b') q \<Longrightarrow> pf_good q \<Longrightarrow> resolve_string q i = Some s"
proof -
  from str_tab.intern_total [OF assms, of s] obtain n b' where
    "add_string b s = Ok (word_of_nat n, b')" by blast
  with that assms show thesis
    using add_string_grows resolve_added_string pb_growsD by blast
qed

lemma add_function_ok:
  assumes "pb_inv b"
  obtains i b' where "add_function b fm = Ok (i, b')" "pb_grows b b'" "pb_inv b'"
    "\<And>q name file. pf_ext (pb_profile b') q \<Longrightarrow> pf_good q \<Longrightarrow> resolve_string q (fm_name fm) = Some name \<Longrightarrow>
       resolve_string q (fm_filename fm) = Some file \<Longrightarrow> resolve_function q i = Some (name, file)"
proof -
  from fun_tab.intern_total [OF assms, of fm] obtain n b' where
    "add_function b fm = Ok (pos_id n, b')" by blast
  with that assms show thesis
    using add_function_grows resolve_added_function pb_growsD by blast
qed

lemma add_location_ok:
  assumes "pb_inv b"
  obtains i b' where "add_location b lm = Ok (i, b')" "pb_grows b b'" "pb_inv b'"
    "\<And>q name file. pf_ext (pb_profile b') q \<Longrightarrow> pf_good q \<Longrightarrow>
       resolve_function q (lm_function_id lm) = Some (name, file) \<Longrightarrow>
       resolve_location q i = Some (name, file, lm_line lm)"
proof -
  from loc_tab.intern_total [OF assms, of lm] obtain n b' where
    "add_location b lm = Ok (pos_id n, b')" by blast
  with that assms show thesis
    using add_location_grows resolve_added_location pb_growsD by blast
qed

lemma enc_frames_correct:
  assumes "pb_inv b"
  shows "\<exists>ids b'. enc_frames b sfs = Ok (ids, b') \<and> pb_grows b b' \<and>
    (\<forall>q. pf_ext (pb_profile b') q \<and> pf_good q \<longrightarrow>
       map (resolve_location q) ids = map (Some \<circ> frame_view) sfs)"
  using assms
proof (induction sfs arbitrary: b)
  case Nil
  then show ?case by (simp add: pb_grows_refl)
next
  case (Cons sf sfs)
  obtain name b1 where s1: "add_string b (opt_or [] (sf_name sf)) = Ok (name, b1)" "pb_grows b b1" "pb_inv b1"
    "\<And>q. pf_ext (pb_profile b1) q \<Longrightarrow> pf_good q \<Longrightarrow> resolve_string q name = Some (opt_or [] (sf_name sf))"
    using add_string_ok [OF Cons.prems, where s = "opt_or [] (sf_name sf)"] by metis
  obtain fname b2 where s2: "add_string b1 (opt_or [] (sf_filename sf)) = Ok (fname, b2)" "pb_grows b1 b2" "pb_inv b2"
    "\<And>q. pf_ext (pb_profile b2) q \<Longrightarrow> pf_good q \<Longrightarrow> resolve_string q fname = Some (opt_or [] (sf_filename sf))"
    using add_string_ok [OF s1(3), where s = "opt_or [] (sf_filename sf)"] by metis
  let ?fm = "\<lparr>fm_name = name, fm_filename = fname\<rparr>"
  obtain fid b3 where s3: "add_function b2 ?fm = Ok (fid, b3)" "pb_grows b2 b3" "pb_inv b3"
    "\<And>q n f. pf_ext (pb_profile b3) q \<Longrightarrow> pf_good q \<Longrightarrow> resolve_string q (fm_name ?fm) = Some n \<Longrightarrow>
       resolve_string q (fm_filename ?fm) = Some f \<Longrightarrow> resolve_function q fid = Some (n, f)"
    using add_function_ok [OF s2(3), where fm = ?fm] by metis
  let ?lm = "\<lparr>lm_function_id = fid, lm_line = ucast (opt_or 0 (sf_line sf))\<rparr>"
  obtain lid b4 where s4: "add_location b3 ?lm = Ok (lid, b4)" "pb_grows b3 b4" "pb_inv b4"
    "\<And>q n f. pf_ext (pb_profile b4) q \<Longrightarrow> pf_good q \<Longrightarrow>
       resolve_function q (lm_function_id ?lm) = Some (n, f) \<Longrightarrow> resolve_location q lid = Some (n, f, lm_line ?lm)"
    using add_location_ok [OF s3(3), where lm = ?lm] by metis
  obtain ids b5 where s5: "enc_frames b4 sfs = Ok (ids, b5)" "pb_grows b4 b5"
    "\<And>q. pf_ext (pb_profile b5) q \<Longrightarrow> pf_good q \<Longrightarrow> map (resolve_location q) ids = map (Some \<circ> frame_view) sfs"
    using Cons.IH [OF s4(3)] by blast
  note e5 = pb_growsD(2) [OF s5(2)] and e4 = pb_growsD(2) [OF s4(2)] and e3 = pb_growsD(2) [OF s3(2)]
    and e2 = pb_growsD(2) [OF s2(2)]
  have "resolve_location q lid = Some (frame_view sf)" if ext: "pf_ext (pb_profile b5) q" and "pf_good q" for q
  proof -
    have x4: "pf_ext (pb_profile b4) q" using e5 ext pf_ext_trans by blast
    have x3: "pf_ext (pb_profile b3) q" using e4 x4 pf_ext_trans by blast
    have x2: "pf_ext (pb_profile b2) q" using e3 x3 pf_ext_trans by blast
    have x1: "pf_ext (pb_profile b1) q" using e2 x2 pf_ext_trans by blast
    show ?thesis
      using s1(4) [OF x1 that(2)] s2(4) [OF x2 that(2)] s3(4) [OF x3 that(2)] s4(4) [OF x4 that(2)]
      by (simp add: frame_view_def)
  qed
  moreover have "pb_grows b b5"
    using s1(2) s2(2) s3(2) s4(2) s5(2) pb_grows_trans by meson
  ultimately show ?case
    using s5 by (simp add: s1(1) s2(1) s3(1) s4(1) Let_def)
qed

subsection \<open>Labels\<close>

definition label_strings :: "profile \<Rightarrow> (i64, i64) hmap \<Rightarrow> (string option, string option) hmap" where
  "label_strings q m = map (\<lambda>(k, v). (resolve_string q k, resolve_string q v)) m"

definition labels_ok :: "profile \<Rightarrow> (i64, i64) hmap \<Rightarrow> bool" where
  "labels_ok q m \<longleftrightarrow> (\<forall>k \<in> fst ` set m. resolve_string q k \<noteq> None)"

abbreviation (input) put_tag :: "(string option, string option) hmap \<Rightarrow> tag \<Rightarrow> (string option, string option) hmap" where
  "put_tag m t \<equiv> hm_insert m (Some (tag_key t)) (Some (tag_value t))"

lemma resolve_string_inj:
  assumes "pf_good q" and "resolve_string q i = Some s" and "resolve_string q j = Some s"
  shows "i = j"
proof -
  have "distinct (pf_string_table q)" using assms(1) by (simp add: pf_good_def pf_ids_def)
  with assms(2,3) have "unat i = unat j"
    by (auto simp: resolve_string_def nth_eq_iff_index_eq split: if_splits)
  then show ?thesis by (simp add: word_unat_eq_iff)
qed

lemma label_strings_insert:
  assumes "pf_good q" and "labels_ok q m" and "resolve_string q k = Some a" and "resolve_string q v = Some b"
  shows "label_strings q (hm_insert m k v) = hm_insert (label_strings q m) (Some a) (Some b)"
    and "labels_ok q (hm_insert m k v)"
proof -
  have "k' = k" if "k' \<in> fst ` set m" "resolve_string q k' = resolve_string q k" for k'
    using that assms(1,3) resolve_string_inj by metis
  from hm_insert_map [of m "resolve_string q" k "resolve_string q" v, OF this] assms(3,4)
  show "label_strings q (hm_insert m k v) = hm_insert (label_strings q m) (Some a) (Some b)"
    by (simp add: label_strings_def)
  show "labels_ok q (hm_insert m k v)"
    using assms(2,3) hm_insert_keys [of m k v] by (auto simp: labels_ok_def)
qed

lemma enc_tags_correct:
  assumes "pb_inv b"
  shows "\<exists>labels' b'. enc_tags b labels ts = Ok (labels', b') \<and> pb_grows b b' \<and>
    (\<forall>q. pf_ext (pb_profile b') q \<and> pf_good q \<and> labels_ok q labels \<longrightarrow>
       labels_ok q labels' \<and> label_strings q labels' = foldl put_tag (label_strings q labels) ts)"
  using assms
proof (induction ts arbitrary: b labels)
  case Nil
  then show ?case by (simp add: pb_grows_refl)
next
  case (Cons t ts)
  obtain k b1 where s1: "add_string b (tag_key t) = Ok (k, b1)" "pb_grows b b1" "pb_inv b1"
    "\<And>q. pf_ext (pb_profile b1) q \<Longrightarrow> pf_good q \<Longrightarrow> resolve_string q k = Some (tag_key t)"
    using add_string_ok [OF Cons.prems, where s = "tag_key t"] by metis
  obtain v b2 where s2: "add_string b1 (tag_value t) = Ok (v, b2)" "pb_grows b1 b2" "pb_inv b2"
    "\<And>q. pf_ext (pb_profile b2) q \<Longrightarrow> pf_good q \<Longrightarrow> resolve_string q v = Some (tag_value t)"
    using add_string_ok [OF s1(3), where s = "tag_value t"] by metis
  obtain labels' b3 where s3: "enc_tags b2 (hm_insert labels k v) ts = Ok (labels', b3)" "pb_grows b2 b3"
    "\<And>q. pf_ext (pb_profile b3) q \<Longrightarrow> pf_good q \<Longrightarrow> labels_ok q (hm_insert labels k v) \<Longrightarrow>
       labels_ok q labels' \<and> label_strings q labels' = foldl put_tag (label_strings q (hm_insert labels k v)) ts"
    using Cons.IH [OF s2(3), of "hm_insert labels k v"] by blast
  have "labels_ok q labels' \<and> label_strings q labels' = foldl put_tag (label_strings q labels) (t # ts)"
    if ext: "pf_ext (pb_profile b3) q" and good: "pf_good q" and ok: "labels_ok q labels" for q
  proof -
    have x2: "pf_ext (pb_profile b2) q" using pb_growsD(2) [OF s3(2)] ext pf_ext_trans by blast
    have x1: "pf_ext (pb_profile b1) q" using pb_growsD(2) [OF s2(2)] x2 pf_ext_trans by blast
    note ins = label_strings_insert [OF good ok s1(4) [OF x1 good] s2(4) [OF x2 good]]
    from s3(3) [OF ext good ins(2)] ins(1) show ?thesis by simp
  qed
  moreover have "pb_grows b b3" using s1(2) s2(2) s3(2) pb_grows_trans by meson
  ultimately show ?case using s3 by (simp add: s1(1) s2(1))
qed

lemma put_tags: "foldl put_tag [] ts = map (\<lambda>(k, v). (Some k, Some v)) (tag_labels ts)"
proof (induction ts rule: rev_induct)
  case Nil
  then show ?case by (simp add: tag_labels_def hm_collect_def)
next
  case (snoc t ts)
  then show ?case
    using hm_insert_map [of "tag_labels ts" Some "tag_key t" Some "tag_value t"]
    by (simp add: tag_labels_def hm_collect_snoc)
qed

subsection \<open>Samples\<close>

text \<open>What a stretch of the loop does to the builder: the tables grow, samples are appended,
  and in any later profile the appended samples read as \<open>views\<close>.\<close>

definition enc_rel :: "pprof_builder \<Rightarrow> pprof_builder \<Rightarrow> sample_view list \<Rightarrow> bool" where
  "enc_rel b b' views \<longleftrightarrow> pb_inv b' \<and> pf_ext (pb_profile b) (pb_profile b')
     \<and> pf_frame ((pb_profile b)\<lparr>pf_sample := []\<rparr>) ((pb_profile b')\<lparr>pf_sample := []\<rparr>)
     \<and> (\<exists>ss. pf_sample (pb_profile b') = pf_sample (pb_profile b) @ ss \<and>
          (\<forall>q. pf_ext (pb_profile b') q \<and> pf_good q \<longrightarrow> map (resolve_sample q) ss = views))"

lemma enc_rel_refl: "pb_inv b \<Longrightarrow> enc_rel b b []"
  by (simp add: enc_rel_def)

lemma enc_rel_trans: "enc_rel a b vs \<Longrightarrow> enc_rel b c ws \<Longrightarrow> enc_rel a c (vs @ ws)"
  unfolding enc_rel_def
  using pf_ext_trans [of "pb_profile a" "pb_profile b" "pb_profile c"]
    pf_ext_trans [of "pb_profile b" "pb_profile c"]
    pf_frame_trans [of "(pb_profile a)\<lparr>pf_sample := []\<rparr>" "(pb_profile b)\<lparr>pf_sample := []\<rparr>"
      "(pb_profile c)\<lparr>pf_sample := []\<rparr>"]
  by fastforce

lemma enc_relD:
  assumes "enc_rel b b' vs"
  shows "pb_inv b'" "pf_period (pb_profile b') = pf_period (pb_profile b)"
    "pf_sample_type (pb_profile b') = pf_sample_type (pb_profile b)"
    "pf_period_type (pb_profile b') = pf_period_type (pb_profile b)"
    "pf_time_nanos (pb_profile b') = pf_time_nanos (pb_profile b)"
    "pf_duration_nanos (pb_profile b') = pf_duration_nanos (pb_profile b)"
proof -
  from assms have "pb_inv b'" and
    "pf_frame ((pb_profile b)\<lparr>pf_sample := []\<rparr>) ((pb_profile b')\<lparr>pf_sample := []\<rparr>)"
    by (simp_all add: enc_rel_def)
  from this(1) pf_frame_fields [OF this(2)] show "pb_inv b'"
    "pf_period (pb_profile b') = pf_period (pb_profile b)"
    "pf_sample_type (pb_profile b') = pf_sample_type (pb_profile b)"
    "pf_period_type (pb_profile b') = pf_period_type (pb_profile b)"
    "pf_time_nanos (pb_profile b') = pf_time_nanos (pb_profile b)"
    "pf_duration_nanos (pb_profile b') = pf_duration_nanos (pb_profile b)"
    by simp_all
qed

lemma pb_inv_sample [simp]: "pb_inv (b\<lparr>pb_profile := (pb_profile b)\<lparr>pf_sample := s\<rparr>\<rparr>) = pb_inv b"
  by (simp add: pb_inv_def pf_ids_def)

lemma pf_ext_sample [simp]: "pf_ext (p\<lparr>pf_sample := s\<rparr>) q = pf_ext p q" "pf_ext p (q\<lparr>pf_sample := s\<rparr>) = pf_ext p q"
  by (simp_all add: pf_ext_def)

lemma pf_frame_sample: "pf_frame p q \<Longrightarrow> pf_frame (p\<lparr>pf_sample := s\<rparr>) (q\<lparr>pf_sample := s\<rparr>)"
  by (cases p, cases q) (simp add: pf_frame_def)

lemma resolve_labels_map:
  "resolve_labels q (map label_of m) = mset (label_strings q m)"
  unfolding resolve_labels_def label_strings_def map_map
  by (rule arg_cong [of _ _ mset], rule map_cong) (auto simp: label_of_def)

lemma enc_stack_correct:
  assumes inv: "pb_inv b" and fair: "fair_order ord_labels"
  shows "\<exists>b'. enc_stack ord_labels md b (st, value) = Ok b' \<and>
    enc_rel b b' [stack_view (pf_period (pb_profile b)) md (st, value)]"
proof -
  obtain ids b1 where f: "enc_frames b (st_frames st) = Ok (ids, b1)" "pb_grows b b1"
    "\<And>q. pf_ext (pb_profile b1) q \<Longrightarrow> pf_good q \<Longrightarrow>
       map (resolve_location q) ids = map (Some \<circ> frame_view) (st_frames st)"
    using enc_frames_correct [OF inv, of "st_frames st"] by blast
  obtain l1 b2 where t1: "enc_tags b1 [] (md_tags (st_metadata st)) = Ok (l1, b2)" "pb_grows b1 b2"
    "\<And>q. pf_ext (pb_profile b2) q \<Longrightarrow> pf_good q \<Longrightarrow>
       labels_ok q l1 \<and> label_strings q l1 = foldl put_tag [] (md_tags (st_metadata st))"
    using enc_tags_correct [OF pb_growsD(1) [OF f(2)], of "[]" "md_tags (st_metadata st)"]
    by (auto simp: labels_ok_def label_strings_def)
  obtain l2 b3 where t2: "enc_tags b2 l1 (md_tags md) = Ok (l2, b3)" "pb_grows b2 b3"
    "\<And>q. pf_ext (pb_profile b3) q \<Longrightarrow> pf_good q \<Longrightarrow> labels_ok q l1 \<Longrightarrow>
       label_strings q l2 = foldl put_tag (label_strings q l1) (md_tags md)"
    using enc_tags_correct [OF pb_growsD(1) [OF t1(2)], of l1 "md_tags md"] by blast
  have grows: "pb_grows b b3" using f(2) t1(2) t2(2) pb_grows_trans by blast
  let ?s = "\<lparr>sm_location_id = ids, sm_value = [value * pf_period (pb_profile b)],
    sm_label = map label_of (ord_labels l2)\<rparr>"
  let ?b' = "b3\<lparr>pb_profile := (pb_profile b3)\<lparr>pf_sample := pf_sample (pb_profile b3) @ [?s]\<rparr>\<rparr>"
  have view: "resolve_sample q ?s = stack_view (pf_period (pb_profile b)) md (st, value)"
    if ext: "pf_ext (pb_profile b3) q" and good: "pf_good q" for q
  proof -
    have x2: "pf_ext (pb_profile b2) q" using pb_growsD(2) [OF t2(2)] ext pf_ext_trans by blast
    have x1: "pf_ext (pb_profile b1) q" using pb_growsD(2) [OF t1(2)] x2 pf_ext_trans by blast
    have "label_strings q l2 = foldl put_tag [] (md_tags (st_metadata st) @ md_tags md)"
      using t1(3) [OF x2 good] t2(3) [OF ext good] by simp
    moreover have "mset (label_strings q (ord_labels l2)) = mset (label_strings q l2)"
      using fair by (simp add: fair_order_def label_strings_def)
    ultimately have "mset (label_strings q (ord_labels l2)) =
      mset (map (\<lambda>(k, v). (Some k, Some v)) (tag_labels (md_tags (st_metadata st) @ md_tags md)))"
      by (simp only: put_tags)
    with f(3) [OF x1 good] show ?thesis
      by (simp add: resolve_sample_def stack_view_def resolve_labels_map)
  qed
  have "pf_sample (pb_profile b3) = pf_sample (pb_profile b)"
    using grows by (simp add: pb_grows_def pf_frame_fields)
  then have "enc_rel b ?b' [stack_view (pf_period (pb_profile b)) md (st, value)]"
    using grows view by (simp add: enc_rel_def pb_grows_def pf_frame_sample)
  then show ?thesis by (simp add: enc_stack_def Let_def f(1) t1(1) t2(1))
qed

lemma enc_stacks_correct:
  assumes "pb_inv b" and "fair_order ord_labels"
  shows "\<exists>b'. enc_stacks ord_labels md b ps = Ok b' \<and>
    enc_rel b b' (map (stack_view (pf_period (pb_profile b)) md) ps)"
  using assms(1)
proof (induction ps arbitrary: b)
  case Nil
  then show ?case by (simp add: enc_rel_refl)
next
  case (Cons p ps)
  obtain b1 where b1: "enc_stack ord_labels md b p = Ok b1"
    "enc_rel b b1 [stack_view (pf_period (pb_profile b)) md p]"
    using enc_stack_correct [OF Cons.prems assms(2)] by (cases p) blast
  obtain b2 where "enc_stacks ord_labels md b1 ps = Ok b2"
    "enc_rel b1 b2 (map (stack_view (pf_period (pb_profile b1)) md) ps)"
    using Cons.IH [OF enc_relD(1) [OF b1(2)]] by blast
  with b1 enc_rel_trans [OF b1(2)] show ?case by (fastforce simp: enc_relD(2) [OF b1(2)])
qed

text \<open>The samples expected of a list of reports.\<close>

definition report_views :: "(stack_trace, usize) iter_order \<Rightarrow> i64 \<Rightarrow> report list \<Rightarrow> sample_view list" where
  "report_views ord period rs =
     concat (map (\<lambda>r. map (stack_view period (rp_metadata r)) (ord (rp_data r))) rs)"

lemma enc_reports_correct:
  assumes "pb_inv b" and "fair_order ord_labels"
  shows "\<exists>b'. enc_reports ord ord_labels b rs = Ok b' \<and>
    enc_rel b b' (report_views ord (pf_period (pb_profile b)) rs)"
  using assms(1)
proof (induction rs arbitrary: b)
  case Nil
  then show ?case by (simp add: enc_rel_refl report_views_def)
next
  case (Cons r rs)
  obtain b1 where b1: "enc_stacks ord_labels (rp_metadata r) b (ord (rp_data r)) = Ok b1"
    "enc_rel b b1 (map (stack_view (pf_period (pb_profile b)) (rp_metadata r)) (ord (rp_data r)))"
    using enc_stacks_correct [OF Cons.prems assms(2)] by blast
  obtain b2 where "enc_reports ord ord_labels b1 rs = Ok b2"
    "enc_rel b1 b2 (report_views ord (pf_period (pb_profile b1)) rs)"
    using Cons.IH [OF enc_relD(1) [OF b1(2)]] by blast
  with b1 enc_rel_trans [OF b1(2)] show ?case
    by (fastforce simp: enc_relD(2) [OF b1(2)] report_views_def)
qed

section \<open>The encoder\<close>

lemma pb_init_inv: "pb_inv (pb_init start dur)"
  by (simp add: pb_inv_def pf_ids_def pb_init_def empty_profile_def)

lemma pb_inv_header [simp]:
  "pb_inv (b\<lparr>pb_profile := (pb_profile b)\<lparr>pf_sample_type := ts, pf_period := d, pf_period_type := v\<rparr>\<rparr>) = pb_inv b"
  by (simp add: pb_inv_def pf_ids_def)

lemma enc_header_eval:
  assumes "rate \<noteq> 0"
  shows "enc_header (pb_init start dur) rate = Ok
    \<lparr>pb_profile = (empty_profile start dur)\<lparr>pf_sample_type := [\<lparr>vt_type = 1, vt_unit = 2\<rparr>],
       pf_period := 1000000000 div ucast rate, pf_period_type := Some \<lparr>vt_type = 1, vt_unit = 2\<rparr>,
       pf_string_table := [[], ''cpu'', ''nanoseconds'']\<rparr>,
     pb_strings = [([], 0), (''cpu'', 1), (''nanoseconds'', 2)], pb_functions = [], pb_locations = []\<rparr>"
  using assms by (simp add: enc_header_def pb_init_def empty_profile_def add_string_def hm_get_def
      hm_insert_def Let_def)

lemma enc_header_inv:
  assumes "rate \<noteq> 0"
  obtains b where "enc_header (pb_init start dur) rate = Ok b" "pb_inv b"
    "pf_period (pb_profile b) = 1000000000 div ucast rate"
    "pf_sample_type (pb_profile b) = [\<lparr>vt_type = 1, vt_unit = 2\<rparr>]"
    "pf_period_type (pb_profile b) = Some \<lparr>vt_type = 1, vt_unit = 2\<rparr>"
    "pf_time_nanos (pb_profile b) = start" "pf_duration_nanos (pb_profile b) = dur"
    "pf_sample (pb_profile b) = []" "pf_string_table (pb_profile b) = [[], ''cpu'', ''nanoseconds'']"
proof -
  note ev = enc_header_eval [OF assms, of start dur]
  have "pb_inv \<lparr>pb_profile = (empty_profile start dur)\<lparr>pf_sample_type := [\<lparr>vt_type = 1, vt_unit = 2\<rparr>],
       pf_period := 1000000000 div ucast rate, pf_period_type := Some \<lparr>vt_type = 1, vt_unit = 2\<rparr>,
       pf_string_table := [[], ''cpu'', ''nanoseconds'']\<rparr>,
     pb_strings = [([], 0), (''cpu'', 1), (''nanoseconds'', 2)], pb_functions = [], pb_locations = []\<rparr>"
    by (simp add: pb_inv_def pf_ids_def empty_profile_def indexed_def upt_rec)
  from that [OF ev this] show thesis by (simp add: empty_profile_def)
qed

lemma encode_ok:
  assumes "rate \<noteq> 0" and "fair_order ord_labels"
  obtains p where "encode ord ord_labels reports rate start dur = Ok p" "pf_ids p"
    "pf_sample_type p = [\<lparr>vt_type = 1, vt_unit = 2\<rparr>]" "pf_period_type p = Some \<lparr>vt_type = 1, vt_unit = 2\<rparr>"
    "pf_period p = 1000000000 div ucast rate" "pf_time_nanos p = start" "pf_duration_nanos p = dur"
    "prefix [[], ''cpu'', ''nanoseconds''] (pf_string_table p)"
    "pf_small p \<Longrightarrow> map (resolve_sample p) (pf_sample p) = report_views ord (1000000000 div ucast rate) reports"
proof -
  obtain b where b: "enc_header (pb_init start dur) rate = Ok b" "pb_inv b"
    "pf_period (pb_profile b) = 1000000000 div ucast rate"
    "pf_sample_type (pb_profile b) = [\<lparr>vt_type = 1, vt_unit = 2\<rparr>]"
    "pf_period_type (pb_profile b) = Some \<lparr>vt_type = 1, vt_unit = 2\<rparr>"
    "pf_time_nanos (pb_profile b) = start" "pf_duration_nanos (pb_profile b) = dur"
    "pf_sample (pb_profile b) = []" "pf_string_table (pb_profile b) = [[], ''cpu'', ''nanoseconds'']"
    using enc_header_inv [OF assms(1)] by blast
  obtain b' where b': "enc_reports ord ord_labels b reports = Ok b'"
    "enc_rel b b' (report_views ord (pf_period (pb_profile b)) reports)"
    using enc_reports_correct [OF b(2) assms(2)] by blast
  note d = enc_relD [OF b'(2)]
  have ids: "pf_ids (pb_profile b')" using d(1) by (simp add: pb_inv_def)
  have tab: "prefix [[], ''cpu'', ''nanoseconds''] (pf_string_table (pb_profile b'))"
    using b'(2) b(9) by (simp add: enc_rel_def pf_ext_def)
  have smp: "map (resolve_sample (pb_profile b')) (pf_sample (pb_profile b')) =
      report_views ord (1000000000 div ucast rate) reports" if "pf_small (pb_profile b')"
    using b'(2) that ids b(3,8) by (auto simp: enc_rel_def pf_good_def)
  show thesis
    using that [of "pb_profile b'"] ids tab smp d b b'(1) by (simp add: encode_def)
qed

end
