(* ===== verification/Session.thy ===== *)
theory Session
  imports Config TimeRange PprofEncodeCorrect
begin

text \<open>
  Sessions and the thread that sends them (\<open>src/session.rs\<close>), and the client of the signal
  profiler (\<open>kit/pyroscope_ingest/src/lib.rs\<close>). Serialisation by prost, compression, random ids,
  URLs and the HTTP client are parameters: the model says which request is made.
\<close>

section \<open>Push messages\<close>

record label_pair =
  lp_name :: string
  lp_value :: string

record raw_sample =
  rw_raw_profile :: "u8 list"
  rw_id :: string

record raw_profile_series =
  rs_labels :: "label_pair list"
  rs_samples :: "raw_sample list"

record push_request =
  pq_series :: "raw_profile_series list"

section \<open>Requests\<close>

record http_request =
  hr_url :: string
  hr_headers :: "(string \<times> string) list"
  hr_basic_auth :: "(string \<times> string option) option"
  hr_body :: "u8 list"
  hr_timeout_secs :: nat

text \<open>The answer: the status and whether the body can be read.\<close>

record http_response =
  hp_status :: nat
  hp_text :: "string option"

text \<open>The libraries. A parsed URL may refuse path segments.\<close>

record 'u libs =
  lb_profile_bytes :: "profile \<Rightarrow> u8 list"
  lb_push_bytes :: "push_request \<Rightarrow> u8 list"
  lb_gzip :: "u8 list \<Rightarrow> (u8 list, string) res"
  lb_uuid :: string
  lb_url_parse :: "string \<Rightarrow> ('u, string) res"
  lb_url_push :: "'u \<Rightarrow> string \<Rightarrow> 'u option"
  lb_url_str :: "'u \<Rightarrow> string"

definition series_request :: "label_pair list \<Rightarrow> u8 list \<Rightarrow> string \<Rightarrow> push_request" where
  "series_request labels pprof uuid =
     \<lparr>pq_series = [\<lparr>rs_labels = labels, rs_samples = [\<lparr>rw_raw_profile = pprof, rw_id = uuid\<rparr>]\<rparr>]\<rparr>"

text \<open>The labels: the application, the type of the profile, and the tags in the order given.\<close>

definition push_labels :: "string \<Rightarrow> (string \<times> string) list \<Rightarrow> label_pair list" where
  "push_labels app tags =
     \<lparr>lp_name = ''service_name'', lp_value = app\<rparr> # \<lparr>lp_name = ''__name__'', lp_value = ''process_cpu''\<rparr> #
     map (\<lambda>(k, v). \<lparr>lp_name = k, lp_value = v\<rparr>) tags"

section \<open>Session\<close>

record session =
  ss_config :: pyroscope_config
  ss_reports :: "report list"
  ss_from :: u64
  ss_until :: u64

definition session_new :: "clock \<Rightarrow> u64 \<Rightarrow> pyroscope_config \<Rightarrow> report list \<Rightarrow> session presult option" where
  "session_new clock until config reports =
     map_option (\<lambda>r. bind_res r (\<lambda>range.
       Ok \<lparr>ss_config = config, ss_reports = reports, ss_from = tr_from range - 10, ss_until = tr_until range - 10\<rparr>))
     (get_time_range clock 0 until)"

record session_orders =
  so_stacks :: "(stack_trace, usize) iter_order"
  so_labels :: "(i64, i64) iter_order"
  so_tags :: "(string, string) iter_order"
  so_headers :: "(string, string) iter_order"

definition encode_reports :: "session_orders \<Rightarrow> session \<Rightarrow> report list \<Rightarrow> profile presult" where
  "encode_reports o' s reports =
     encode (so_stacks o') (so_labels o') reports (cf_sample_rate (ss_config s))
       (ss_from s * 1000000000) ((ss_until s - ss_from s) * 1000000000)"

fun map_res :: "('a \<Rightarrow> ('b, 'e) res) \<Rightarrow> 'a list \<Rightarrow> ('b list, 'e) res" where
  "map_res f [] = Ok []"
| "map_res f (x # xs) = bind_res (f x) (\<lambda>y. bind_res (map_res f xs) (\<lambda>ys. Ok (y # ys)))"

definition session_profile :: "session_orders \<Rightarrow> session \<Rightarrow> profile presult" where
  "session_profile o' s =
     (case cf_func (ss_config s) of
        None \<Rightarrow> encode_reports o' s (ss_reports s)
      | Some f \<Rightarrow> bind_res (map_res f (ss_reports s)) (encode_reports o' s))"

definition push_url :: "'u libs \<Rightarrow> string \<Rightarrow> string presult" where
  "push_url lib base =
     bind_res (map_err ParseError (lb_url_parse lib base)) (\<lambda>url.
     case Option.bind (lb_url_push lib url ''push.v1.PusherService'') (\<lambda>u. lb_url_push lib u ''Push'') of
       None \<Rightarrow> Panic
     | Some u \<Rightarrow> Ok (lb_url_str lib u))"

text \<open>\<open>push\<close> up to the sending.\<close>

definition session_headers :: "session_orders \<Rightarrow> pyroscope_config \<Rightarrow> (string \<times> string) list" where
  "session_headers o' c =
     [(''User-Agent'', ''pyroscope-rs/'' @ cf_spy_name c @ ''/'' @ cf_spy_version c @ '' reqwest''),
      (''Content-Type'', ''application/proto''), (''Content-Encoding'', ''gzip'')]
     @ (case cf_tenant_id c of None \<Rightarrow> [] | Some t \<Rightarrow> [(''X-Scope-OrgID'', t)])
     @ so_headers o' (cf_http_headers c)"

definition session_request :: "'u libs \<Rightarrow> session_orders \<Rightarrow> session \<Rightarrow> http_request presult" where
  "session_request lib o' s =
     (let c = ss_config s in
      bind_res (session_profile o' s) (\<lambda>profile.
      let req = series_request (push_labels (cf_application_name c) (so_tags o' (cf_tags c)))
                  (lb_profile_bytes lib profile) (lb_uuid lib)
      in bind_res (map_err IoError (lb_gzip lib (lb_push_bytes lib req))) (\<lambda>body.
         bind_res (push_url lib (cf_url c)) (\<lambda>url.
         Ok \<lparr>hr_url = url, hr_headers = session_headers o' c,
             hr_basic_auth = map_option (\<lambda>a. (ba_username a, Some (ba_password a))) (cf_basic_auth c),
             hr_body = body, hr_timeout_secs = 10\<rparr>))))"

text \<open>The request made, if any, and the result: a bad status is only logged.\<close>

definition session_push ::
    "'u libs \<Rightarrow> session_orders \<Rightarrow> (http_request \<Rightarrow> (http_response, string) res) \<Rightarrow> session
     \<Rightarrow> http_request option \<times> unit presult" where
  "session_push lib o' client s =
     (case session_request lib o' s of
        Ok req \<Rightarrow> (Some req, bind_res (map_err Reqwest (client req)) (\<lambda>response. Ok ()))
      | Err e \<Rightarrow> (None, Err e)
      | Panic \<Rightarrow> (None, Panic))"

section \<open>Session manager\<close>

datatype session_signal = SendSession session | KillManager

text \<open>How the manager's thread is left: waiting for more, ended by the kill signal, or by a panic.\<close>

datatype manager_end = ManagerWaiting | ManagerKilled | ManagerPanicked

fun manager_loop :: "(session \<Rightarrow> unit presult) \<Rightarrow> session_signal list \<Rightarrow> session list \<times> manager_end" where
  "manager_loop push [] = ([], ManagerWaiting)"
| "manager_loop push (SendSession s # q) =
     (case push s of
        Panic \<Rightarrow> ([s], ManagerPanicked)
      | _ \<Rightarrow> (case manager_loop push q of (ss, e) \<Rightarrow> (s # ss, e)))"
| "manager_loop push (KillManager # q) = ([], ManagerKilled)"

section \<open>The signal profiler's client\<close>

fun trim_end :: "'a \<Rightarrow> 'a list \<Rightarrow> 'a list" where
  "trim_end c xs = rev (dropWhile (\<lambda>x. x = c) (rev xs))"

text \<open>The profile is already serialised here. The error is \<open>anyhow\<close>'s, of which the message counts.\<close>

definition ingest_request_of ::
    "'u libs \<Rightarrow> string \<Rightarrow> string \<Rightarrow> (string \<times> string) list \<Rightarrow> u8 list \<Rightarrow> (http_request, string) res" where
  "ingest_request_of lib base_url app tags pprof =
     bind_res (lb_gzip lib (lb_push_bytes lib (series_request (push_labels app tags) pprof (lb_uuid lib)))) (\<lambda>body.
     Ok \<lparr>hr_url = trim_end CHR ''/'' base_url @ ''/push.v1.PusherService/Push'',
         hr_headers = [(''Content-Type'', ''application/proto''), (''Content-Encoding'', ''gzip'')],
         hr_basic_auth = None, hr_body = body, hr_timeout_secs = 10\<rparr>)"

text \<open>The client of this crate reports a status of 400 and above as an error.\<close>

definition ingest_send ::
    "'u libs \<Rightarrow> (http_request \<Rightarrow> (unit, string) res) \<Rightarrow> string \<Rightarrow> string \<Rightarrow> (string \<times> string) list \<Rightarrow> u8 list
     \<Rightarrow> u64 \<Rightarrow> u64 \<Rightarrow> (unit, string) res" where
  "ingest_send lib client base_url app tags pprof from' until =
     bind_res (ingest_request_of lib base_url app tags pprof) client"

section \<open>Properties\<close>

lemma manager_loop_no_panic:
  assumes "\<And>s. SendSession s \<in> set q \<Longrightarrow> push s \<noteq> Panic"
  shows "manager_loop push q =
    (map (\<lambda>g. case g of SendSession s \<Rightarrow> s) (takeWhile (\<lambda>g. g \<noteq> KillManager) q),
     if KillManager \<in> set q then ManagerKilled else ManagerWaiting)"
  using assms
  by (induction push q rule: manager_loop.induct) (auto split: res.split prod.split)

text \<open>A session that fails to be sent does not stop the manager: as long as no session panics,
  it attempts exactly the sessions queued before the kill signal, in their order, and ends at the
  signal.\<close>
theorem manager_attempts_all:
  assumes "\<And>s. SendSession s \<in> set q \<Longrightarrow> snd (session_push lib o' client s) \<noteq> Panic"
  shows "manager_loop (\<lambda>s. snd (session_push lib o' client s)) q =
    (map (\<lambda>g. case g of SendSession s \<Rightarrow> s) (takeWhile (\<lambda>g. g \<noteq> KillManager) q),
     if KillManager \<in> set q then ManagerKilled else ManagerWaiting)"
  by (rule manager_loop_no_panic [OF assms])

text \<open>A library that cannot compress.\<close>

definition ex_libs :: "unit libs" where
  "ex_libs = \<lparr>lb_profile_bytes = (\<lambda>_. []), lb_push_bytes = (\<lambda>_. []), lb_gzip = (\<lambda>_. Err ''full''), lb_uuid = ''id'',
     lb_url_parse = (\<lambda>_. Ok ()), lb_url_push = (\<lambda>u _. Some u), lb_url_str = (\<lambda>_. ''http://localhost'')\<rparr>"

definition ex_session_orders :: session_orders where
  "ex_session_orders = \<lparr>so_stacks = (\<lambda>m. m), so_labels = (\<lambda>m. m), so_tags = (\<lambda>m. m), so_headers = (\<lambda>m. m)\<rparr>"

definition ex_session :: session where
  "ex_session = \<lparr>ss_config = cf_new ''http://localhost'' ''app'' 100 ''spy'' ''1'', ss_reports = [], ss_from = 10, ss_until = 20\<rparr>"

lemma ex_session_push: "snd (session_push ex_libs ex_session_orders client ex_session) \<noteq> Panic"
proof -
  have o': "fair_order (so_labels ex_session_orders)" by (simp add: ex_session_orders_def)
  obtain p where "encode (so_stacks ex_session_orders) (so_labels ex_session_orders) [] 100 10000000000 10000000000 = Ok p"
    using encode_ok [of 100, OF _ o', of "so_stacks ex_session_orders" "[]" 10000000000 10000000000] by auto
  then show ?thesis
    by (simp add: session_push_def session_request_def session_profile_def encode_reports_def ex_session_def cf_new_def
        ex_libs_def Let_def)
qed

lemma manager_attempts_all_witness:
  "manager_loop (\<lambda>s. snd (session_push ex_libs ex_session_orders (\<lambda>_. Err ''down'') s))
     [SendSession ex_session, SendSession ex_session, KillManager, SendSession ex_session]
   = ([ex_session, ex_session], ManagerKilled)"
proof -
  let ?q = "[SendSession ex_session, SendSession ex_session, KillManager, SendSession ex_session]"
  have "manager_loop (\<lambda>s. snd (session_push ex_libs ex_session_orders (\<lambda>_. Err ''down'') s)) ?q =
    (map (\<lambda>g. case g of SendSession s \<Rightarrow> s) (takeWhile (\<lambda>g. g \<noteq> KillManager) ?q),
     if KillManager \<in> set ?q then ManagerKilled else ManagerWaiting)"
    by (rule manager_attempts_all) (use ex_session_push in auto)
  also have "\<dots> = ([ex_session, ex_session], ManagerKilled)" by simp
  finally show ?thesis .
qed

lemma session_new_cell:
  assumes "10 \<le> unat ts" and "unat ts < 2 ^ 64 - 10"
  shows "\<exists>s. session_new clock ts c reports = Some (Ok s) \<and> ss_config s = c \<and> ss_reports s = reports
    \<and> unat (ss_from s) = unat ts div 10 * 10 - 10 \<and> unat (ss_until s) = unat ts div 10 * 10
    \<and> ss_until s - ss_from s = 10"
proof -
  have nz: "ts \<noteq> 0" using assms(1) by auto
  from get_time_range_bounds [OF nz assms(2), of clock 0] obtain r where r: "get_time_range clock 0 ts = Some (Ok r)"
    "unat (tr_from r) = unat ts div 10 * 10" "unat (tr_until r) = unat (tr_from r) + 10" by metis
  have ge: "10 \<le> unat ts div 10 * 10" using assms(1) by simp
  have "(10 :: u64) \<le> tr_from r" "(10 :: u64) \<le> tr_until r" using ge r by (simp_all add: word_le_nat_alt)
  then have sub: "unat (tr_from r - 10) = unat ts div 10 * 10 - 10" "unat (tr_until r - 10) = unat ts div 10 * 10"
    using r by (simp_all add: unat_sub)
  have "tr_until r = tr_from r + 10"
    using r(3) unat_u64_less [of "tr_until r"] by (simp add: word_unat_eq_iff unat_word_ariths)
  with r(1) sub show ?thesis by (auto simp: session_new_def)
qed

text \<open>The sessions of two consecutive ticks.\<close>

lemma session_ticks:
  assumes "10 \<le> unat ts" and "unat ts < 18446744000"
  obtains s s' where "session_new clock ts c reports = Some (Ok s)" "ss_config s = c" "ss_reports s = reports"
    "ss_until s - ss_from s = 10" "unat (ss_from s * 1000000000) = (unat ts div 10 * 10 - 10) * 1000000000"
    "session_new clock' (ts + 10) c reports' = Some (Ok s')" "ss_from s' = ss_until s"
proof -
  have small: "unat ts < 2 ^ 64 - 10" using assms(2) by simp
  have sum: "unat (ts + 10) = unat ts + 10" using assms(2) by (simp add: unat_word_ariths)
  from session_new_cell [OF assms(1) small, of clock c reports] obtain s where
    s: "session_new clock ts c reports = Some (Ok s)" "ss_config s = c" "ss_reports s = reports"
    "unat (ss_from s) = unat ts div 10 * 10 - 10" "unat (ss_until s) = unat ts div 10 * 10" "ss_until s - ss_from s = 10"
    by blast
  from session_new_cell [of "ts + 10" clock' c reports'] sum assms(2) obtain s' where
    s': "session_new clock' (ts + 10) c reports' = Some (Ok s')" "unat (ss_from s') = (unat ts + 10) div 10 * 10 - 10"
    by auto
  have "(unat ts + 10) div 10 = unat ts div 10 + 1" by simp
  then have "unat (ss_from s') = unat (ss_until s)" unfolding s(5) s'(2) by simp
  then have meet: "ss_from s' = ss_until s" by (simp only: word_unat_eq_iff)
  have "unat (ss_from s * 1000000000) = (unat ts div 10 * 10 - 10) * 1000000000"
    using s(4) assms(2) by (simp add: unat_word_ariths)
  from that [OF s(1-3,6) this s'(1) meet] show ?thesis .
qed

text \<open>The session made for a tick covers the ten seconds before the tick's cell, the profile it
  sends says so in nanoseconds without overflow, and the sessions of consecutive ticks meet
  without gap or overlap.\<close>
theorem session_windows_tile:
  assumes "10 \<le> unat ts" and "unat ts < 18446744000" and "cf_sample_rate c \<noteq> 0" and "cf_func c = None"
    and "fair_order (so_labels o')"
  shows "\<exists>s s' p. session_new clock ts c reports = Some (Ok s) \<and> session_new clock' (ts + 10) c reports' = Some (Ok s')
    \<and> session_profile o' s = Ok p \<and> unat (pf_time_nanos p) = (unat ts div 10 * 10 - 10) * 1000000000
    \<and> pf_duration_nanos p = 10000000000 \<and> ss_from s' = ss_until s"
proof -
  obtain s s' where s: "session_new clock ts c reports = Some (Ok s)" "ss_config s = c" "ss_reports s = reports"
    "ss_until s - ss_from s = 10" "unat (ss_from s * 1000000000) = (unat ts div 10 * 10 - 10) * 1000000000"
    "session_new clock' (ts + 10) c reports' = Some (Ok s')" "ss_from s' = ss_until s"
    using session_ticks [OF assms(1,2), of clock c reports clock' reports'] by metis
  obtain p where "encode (so_stacks o') (so_labels o') reports (cf_sample_rate c) (ss_from s * 1000000000)
      ((ss_until s - ss_from s) * 1000000000) = Ok p" "pf_time_nanos p = ss_from s * 1000000000"
    "pf_duration_nanos p = (ss_until s - ss_from s) * 1000000000"
    using encode_ok [OF assms(3,5), of "so_stacks o'" reports "ss_from s * 1000000000"
        "(ss_until s - ss_from s) * 1000000000"] by metis
  then show ?thesis
    using s assms(4) by (auto simp: session_profile_def encode_reports_def)
qed

lemma session_windows_tile_witness:
  "\<exists>s p. session_new (\<lambda>_. Panic) 1234567 (ss_config ex_session) [] = Some (Ok s)
    \<and> session_profile ex_session_orders s = Ok p \<and> unat (pf_time_nanos p) = 1234550000000000"
proof -
  have "cf_sample_rate (ss_config ex_session) \<noteq> 0" "cf_func (ss_config ex_session) = None"
    "fair_order (so_labels ex_session_orders)"
    by (simp_all add: ex_session_def cf_new_def ex_session_orders_def)
  from session_windows_tile [OF _ _ this, of 1234567 "\<lambda>_. Panic" "[]" "\<lambda>_. Panic" "[]"] show ?thesis by auto
qed

end
