(* ===== verification/Timer.thy ===== *)
theory Timer
  imports TimeRange
begin

text \<open>
  The timers of \<open>src/timer/\<close>: the signal, the list of listeners, and the three threads that send
  a signal every ten seconds, with epoll (\<open>epoll.rs\<close>), kqueue (\<open>kqueue.rs\<close>) and by sleeping
  (\<open>sleep.rs\<close>). A thread is a function of one step, from one access to shared data to the next;
  the locale \<open>ticker\<close> states what the agent relies on, and holds for all three.
\<close>

section \<open>Signals and channels\<close>

datatype timer_signal = TerminateSignal | NextSnapshot u64

definition timer_signal_display :: "timer_signal \<Rightarrow> string" where
  "timer_signal_display s =
     (case s of
        TerminateSignal \<Rightarrow> ''Terminate''
      | NextSnapshot when \<Rightarrow> ''NextSnapshot('' @ show_nat (unat when) @ '')'')"

text \<open>An unbounded channel of \<open>std::sync::mpsc\<close>: sending fails once the receiver is gone. A sender
  is the number of its channel.\<close>

record channel =
  ch_queue :: "timer_signal list"
  ch_connected :: bool

type_synonym channels = "nat \<Rightarrow> channel"

definition ch_send :: "timer_signal \<Rightarrow> nat \<Rightarrow> channels \<Rightarrow> bool \<times> channels" where
  "ch_send s tx ch =
     (if ch_connected (ch tx) then (True, ch(tx := (ch tx)\<lparr>ch_queue := ch_queue (ch tx) @ [s]\<rparr>))
      else (False, ch))"

section \<open>The listeners\<close>

record timer =
  tm_txs :: "nat list mutex"
  tm_handle :: bool

definition attach_listener :: "nat \<Rightarrow> timer \<Rightarrow> unit presult \<times> timer" where
  "attach_listener tx t =
     (case mx_lock (tm_txs t) of
        Ok txs \<Rightarrow> (Ok (), t\<lparr>tm_txs := mx_store (tm_txs t) (txs @ [tx])\<rparr>)
      | Err e \<Rightarrow> (Err e, t)
      | Panic \<Rightarrow> (Panic, t))"

definition drop_listeners :: "timer \<Rightarrow> unit presult \<times> timer" where
  "drop_listeners t =
     (case mx_lock (tm_txs t) of
        Ok txs \<Rightarrow> (Ok (), t\<lparr>tm_txs := mx_store (tm_txs t) []\<rparr>)
      | Err e \<Rightarrow> (Err e, t)
      | Panic \<Rightarrow> (Panic, t))"

text \<open>Sending a signal to all listeners; failures are ignored.\<close>

fun send_all :: "timer_signal \<Rightarrow> nat list \<Rightarrow> channels \<Rightarrow> channels" where
  "send_all s [] ch = ch"
| "send_all s (tx # txs) ch = send_all s txs (snd (ch_send s tx ch))"

lemma send_all_channel:
  "send_all s txs ch c =
     (if ch_connected (ch c) then (ch c)\<lparr>ch_queue := ch_queue (ch c) @ replicate (count_list txs c) s\<rparr> else ch c)"
proof (induction txs arbitrary: ch)
  case Nil
  then show ?case by simp
next
  case (Cons tx txs)
  then show ?case by (simp add: ch_send_def)
qed

section \<open>The operating system\<close>

text \<open>Constants of libc, by name.\<close>

datatype libc_const = CLOCK_REALTIME | TFD_NONBLOCK | TFD_TIMER_ABSTIME | EPOLL_CTL_ADD | EPOLLIN
  | EVFILT_TIMER | EV_ADD | EV_ENABLE | EV_ONESHOT | NOTE_ABSOLUTE | NOTE_SECONDS

record timespec =
  tv_sec :: i64
  tv_nsec :: i64

record itimerspec =
  it_interval :: timespec
  it_value :: timespec

record epoll_interest =
  ei_events :: libc_const
  ei_data :: u64

record kevent_rec =
  kv_ident :: nat
  kv_filter :: libc_const
  kv_flags :: "libc_const list"
  kv_fflags :: "libc_const list"
  kv_data :: i64

datatype timer_call =
    TimerfdCreate libc_const libc_const
  | TimerfdSettime int libc_const itimerspec itimerspec
  | EpollCreate1 int
  | EpollCtl int libc_const int epoll_interest
  | EpollWait int int int
  | ReadFd int nat
  | CloseFd int
  | Kqueue
  | Kevent int "kevent_rec list" "kevent_rec list"

text \<open>
  What the system answers to a call, the message of its last error, whether that is an interruption,
  and its clock. The state \<open>'k\<close> is the system's own.
\<close>

record 'k timer_env =
  te_call :: "timer_call \<Rightarrow> 'k \<Rightarrow> int \<times> 'k"
  te_errno :: "'k \<Rightarrow> string"
  te_interrupted :: "string \<Rightarrow> bool"
  te_clock :: "'k \<Rightarrow> clock"

text \<open>Actions: a result, unless the action never returns, and the state afterwards.\<close>

type_synonym ('a, 'k) act = "'k \<Rightarrow> ('a presult \<times> 'k) option"

definition act_bind :: "('a, 'k) act \<Rightarrow> ('a \<Rightarrow> ('b, 'k) act) \<Rightarrow> ('b, 'k) act" where
  "act_bind m f k =
     (case m k of
        None \<Rightarrow> None
      | Some (Ok x, k') \<Rightarrow> f x k'
      | Some (Err e, k') \<Rightarrow> Some (Err e, k')
      | Some (Panic, k') \<Rightarrow> Some (Panic, k'))"

definition act_ok :: "'a \<Rightarrow> ('a, 'k) act" where
  "act_ok x k = Some (Ok x, k)"

text \<open>A call whose return value is checked.\<close>

definition checked :: "'k timer_env \<Rightarrow> timer_call \<Rightarrow> (int, 'k) act" where
  "checked env c k = (case te_call env c k of (r, k') \<Rightarrow> Some (check_err (IoError (te_errno env k')) r, k'))"

text \<open>The time range of now.\<close>

definition time_range_now :: "'k timer_env \<Rightarrow> (time_range, 'k) act" where
  "time_range_now env k = map_option (\<lambda>r. (r, k)) (get_time_range (te_clock env k) 0 0)"

section \<open>epoll\<close>

definition timerfd_create :: "'k timer_env \<Rightarrow> libc_const \<Rightarrow> libc_const \<Rightarrow> (int, 'k) act" where
  "timerfd_create env clockid clock_flags = checked env (TimerfdCreate clockid clock_flags)"

definition timerfd_settime :: "'k timer_env \<Rightarrow> int \<Rightarrow> libc_const \<Rightarrow> itimerspec \<Rightarrow> itimerspec \<Rightarrow> (unit, 'k) act" where
  "timerfd_settime env timer_fd set_flags new old =
     act_bind (checked env (TimerfdSettime timer_fd set_flags new old)) (\<lambda>_. act_ok ())"

definition epoll_create1 :: "'k timer_env \<Rightarrow> int \<Rightarrow> (int, 'k) act" where
  "epoll_create1 env epoll_flags = checked env (EpollCreate1 epoll_flags)"

definition epoll_ctl :: "'k timer_env \<Rightarrow> int \<Rightarrow> libc_const \<Rightarrow> int \<Rightarrow> epoll_interest \<Rightarrow> (unit, 'k) act" where
  "epoll_ctl env epoll_fd epoll_flags timer_fd event =
     act_bind (checked env (EpollCtl epoll_fd epoll_flags timer_fd event)) (\<lambda>_. act_ok ())"

definition epoll_wait :: "'k timer_env \<Rightarrow> int \<Rightarrow> int \<Rightarrow> int \<Rightarrow> (unit, 'k) act" where
  "epoll_wait env epoll_fd maxevents timeout =
     act_bind (checked env (EpollWait epoll_fd maxevents timeout)) (\<lambda>_. act_ok ())"

definition read_fd :: "'k timer_env \<Rightarrow> int \<Rightarrow> nat \<Rightarrow> (unit, 'k) act" where
  "read_fd env timer_fd count' = act_bind (checked env (ReadFd timer_fd count')) (\<lambda>_. act_ok ())"

record duration =
  du_secs :: u64
  du_nanos :: u32

definition set_timerfd :: "'k timer_env \<Rightarrow> duration \<Rightarrow> (int, 'k) act" where
  "set_timerfd env cycle =
     act_bind (timerfd_create env CLOCK_REALTIME TFD_NONBLOCK) (\<lambda>tfd.
     act_bind (time_range_now env) (\<lambda>range.
     act_bind (timerfd_settime env tfd TFD_TIMER_ABSTIME
         \<lparr>it_interval = \<lparr>tv_sec = ucast (du_secs cycle), tv_nsec = ucast (du_nanos cycle)\<rparr>,
          it_value = \<lparr>tv_sec = ucast (tr_until range), tv_nsec = 0\<rparr>\<rparr>
         \<lparr>it_interval = \<lparr>tv_sec = 0, tv_nsec = 0\<rparr>, it_value = \<lparr>tv_sec = 0, tv_nsec = 0\<rparr>\<rparr>) (\<lambda>_.
     act_ok tfd)))"

definition create_epollfd :: "'k timer_env \<Rightarrow> int \<Rightarrow> (int, 'k) act" where
  "create_epollfd env timer_fd =
     act_bind (epoll_create1 env 0) (\<lambda>epoll_fd.
     act_bind (epoll_ctl env epoll_fd EPOLL_CTL_ADD timer_fd \<lparr>ei_events = EPOLLIN, ei_data = 1\<rparr>) (\<lambda>_.
     act_ok epoll_fd))"

text \<open>\<open>Timer::epoll_wait\<close>: the wait, and the read that makes the timer fire again.\<close>

definition timer_epoll_wait :: "'k timer_env \<Rightarrow> int \<Rightarrow> int \<Rightarrow> (unit, 'k) act" where
  "timer_epoll_wait env timer_fd epoll_fd =
     act_bind (epoll_wait env epoll_fd 1 (- 1)) (\<lambda>_. read_fd env timer_fd 8)"

text \<open>The thread: before the check for listeners, before the wait, before the sending, and ended.\<close>

datatype timer_phase = TimerChecks | TimerWaits | TimerSends u64 | TimerEnded "unit presult"

text \<open>\<open>Timer::initialize\<close>. The first listener is a sender whose receiver is dropped when the
  function returns; \<open>dummy\<close> is its channel.\<close>

definition epoll_initialize ::
    "'k timer_env \<Rightarrow> duration \<Rightarrow> nat \<Rightarrow> (timer \<times> timer_phase \<times> int \<times> int, 'k) act" where
  "epoll_initialize env cycle dummy =
     act_bind (set_timerfd env cycle) (\<lambda>timer_fd.
     act_bind (create_epollfd env timer_fd) (\<lambda>epoll_fd.
     act_ok (\<lparr>tm_txs = mx_store (mx_new []) [dummy], tm_handle = True\<rparr>, TimerChecks, timer_fd, epoll_fd)))"

type_synonym ('p, 'k) timer_step =
  "'p \<Rightarrow> nat list mutex \<Rightarrow> channels \<Rightarrow> 'k \<Rightarrow> ('p \<times> channels \<times> 'k) option"

definition epoll_check :: "'k timer_env \<Rightarrow> int \<Rightarrow> int \<Rightarrow> nat list mutex \<Rightarrow> 'k \<Rightarrow> timer_phase \<times> 'k" where
  "epoll_check env timer_fd epoll_fd txs k =
     (case mx_lock txs of
        Ok [] \<Rightarrow> (TimerEnded (Ok ()), snd (te_call env (CloseFd epoll_fd) (snd (te_call env (CloseFd timer_fd) k))))
      | Ok _ \<Rightarrow> (TimerWaits, k)
      | Err e \<Rightarrow> (TimerEnded (Err e), k)
      | Panic \<Rightarrow> (TimerEnded Panic, k))"

text \<open>An interrupted wait goes back to the check; otherwise the time is asked for.\<close>

definition epoll_wakes :: "'k timer_env \<Rightarrow> int \<Rightarrow> int \<Rightarrow> 'k \<Rightarrow> (timer_phase \<times> 'k) option" where
  "epoll_wakes env timer_fd epoll_fd k =
     (case timer_epoll_wait env timer_fd epoll_fd k of
        None \<Rightarrow> None
      | Some (Err (IoError e), k') \<Rightarrow>
          Some (if te_interrupted env e then TimerChecks else TimerEnded (Err (IoError e)), k')
      | Some (Err e, k') \<Rightarrow> Some (TimerEnded (Err e), k')
      | Some (Panic, k') \<Rightarrow> Some (TimerEnded Panic, k')
      | Some (Ok _, k') \<Rightarrow>
          (case time_range_now env k' of
             None \<Rightarrow> None
           | Some (Ok now, k'') \<Rightarrow> Some (TimerSends (tr_from now), k'')
           | Some (Err e, k'') \<Rightarrow> Some (TimerEnded (Err e), k'')
           | Some (Panic, k'') \<Rightarrow> Some (TimerEnded Panic, k'')))"

text \<open>The sending, which all three threads have.\<close>

definition timer_sends :: "'p \<Rightarrow> (unit presult \<Rightarrow> 'p) \<Rightarrow> u64 \<Rightarrow> nat list mutex \<Rightarrow> channels \<Rightarrow> 'p \<times> channels" where
  "timer_sends next_phase ended from' txs ch =
     (case mx_lock txs of
        Ok l \<Rightarrow> (next_phase, send_all (NextSnapshot from') l ch)
      | Err e \<Rightarrow> (ended (Err e), ch)
      | Panic \<Rightarrow> (ended Panic, ch))"

fun epoll_step :: "'k timer_env \<Rightarrow> int \<Rightarrow> int \<Rightarrow> (timer_phase, 'k) timer_step" where
  "epoll_step env timer_fd epoll_fd TimerChecks txs ch k =
     (case epoll_check env timer_fd epoll_fd txs k of (p, k') \<Rightarrow> Some (p, ch, k'))"
| "epoll_step env timer_fd epoll_fd TimerWaits txs ch k =
     (case epoll_wakes env timer_fd epoll_fd k of None \<Rightarrow> None | Some (p, k') \<Rightarrow> Some (p, ch, k'))"
| "epoll_step env timer_fd epoll_fd (TimerSends u) txs ch k =
     (case timer_sends TimerChecks TimerEnded u txs ch of (p, ch') \<Rightarrow> Some (p, ch', k))"
| "epoll_step env timer_fd epoll_fd (TimerEnded r) txs ch k = Some (TimerEnded r, ch, k)"

section \<open>kqueue\<close>

definition kqueue :: "'k timer_env \<Rightarrow> (int, 'k) act" where
  "kqueue env = checked env Kqueue"

definition kevent :: "'k timer_env \<Rightarrow> int \<Rightarrow> kevent_rec list \<Rightarrow> kevent_rec list \<Rightarrow> (unit, 'k) act" where
  "kevent env kq change events = act_bind (checked env (Kevent kq change events)) (\<lambda>_. act_ok ())"

definition wait_event :: "'k timer_env \<Rightarrow> int \<Rightarrow> kevent_rec list \<Rightarrow> (unit, 'k) act" where
  "wait_event env kq events = kevent env kq [] events"

definition register_initial_expiration :: "'k timer_env \<Rightarrow> int \<Rightarrow> (kevent_rec, 'k) act" where
  "register_initial_expiration env kq =
     act_bind (time_range_now env) (\<lambda>now.
     let initial_event = \<lparr>kv_ident = 1, kv_filter = EVFILT_TIMER, kv_flags = [EV_ADD, EV_ENABLE, EV_ONESHOT],
           kv_fflags = [NOTE_ABSOLUTE, NOTE_SECONDS], kv_data = ucast (tr_until now)\<rparr>
     in act_bind (kevent env kq [initial_event] []) (\<lambda>_. act_ok initial_event))"

text \<open>\<open>Duration::as_millis\<close> is a \<open>u128\<close>, cut to the width of \<open>isize\<close>.\<close>

definition as_millis :: "duration \<Rightarrow> int" where
  "as_millis d = uint (du_secs d) * 1000 + uint (du_nanos d) div 1000000"

definition register_loop_expiration :: "'k timer_env \<Rightarrow> int \<Rightarrow> duration \<Rightarrow> (kevent_rec, 'k) act" where
  "register_loop_expiration env kq d =
     (let loop_event = \<lparr>kv_ident = 1, kv_filter = EVFILT_TIMER, kv_flags = [EV_ADD, EV_ENABLE],
           kv_fflags = [], kv_data = word_of_int (as_millis d)\<rparr>
      in act_bind (kevent env kq [loop_event] []) (\<lambda>_. act_ok loop_event))"

text \<open>The thread's phases: before the first wait, before the check, before the sending, before the
  wait of the loop, and ended.\<close>

datatype kqueue_phase = KqStarts | KqChecks kevent_rec | KqFires kevent_rec | KqSends kevent_rec u64
  | KqWaits kevent_rec | KqEnded "unit presult"

definition kqueue_initialize :: "'k timer_env \<Rightarrow> nat \<Rightarrow> (timer \<times> kqueue_phase \<times> int, 'k) act" where
  "kqueue_initialize env dummy =
     act_bind (kqueue env) (\<lambda>kq.
     act_ok (\<lparr>tm_txs = mx_store (mx_new []) [dummy], tm_handle = True\<rparr>, KqStarts, kq))"

text \<open>An action of a thread whose error ends it.\<close>

definition or_end :: "(unit presult \<Rightarrow> 'p) \<Rightarrow> ('a \<Rightarrow> 'p) \<Rightarrow> ('a presult \<times> 'k) option \<Rightarrow> ('p \<times> 'k) option" where
  "or_end ended next_phase r =
     (case r of
        None \<Rightarrow> None
      | Some (Ok x, k) \<Rightarrow> Some (next_phase x, k)
      | Some (Err e, k) \<Rightarrow> Some (ended (Err e), k)
      | Some (Panic, k) \<Rightarrow> Some (ended Panic, k))"

definition quiet :: "channels \<Rightarrow> ('p \<times> 'k) option \<Rightarrow> ('p \<times> channels \<times> 'k) option" where
  "quiet ch r = (case r of None \<Rightarrow> None | Some (p, k) \<Rightarrow> Some (p, ch, k))"

definition timer_checks :: "(unit presult \<Rightarrow> 'p) \<Rightarrow> 'p \<Rightarrow> nat list mutex \<Rightarrow> 'p" where
  "timer_checks ended next_phase txs =
     (case mx_lock txs of
        Ok [] \<Rightarrow> ended (Ok ())
      | Ok _ \<Rightarrow> next_phase
      | Err e \<Rightarrow> ended (Err e)
      | Panic \<Rightarrow> ended Panic)"

fun kqueue_step :: "'k timer_env \<Rightarrow> int \<Rightarrow> duration \<Rightarrow> (kqueue_phase, 'k) timer_step" where
  "kqueue_step env kq cycle KqStarts txs ch k =
     quiet ch (or_end KqEnded KqChecks
       (act_bind (register_initial_expiration env kq) (\<lambda>initial.
        act_bind (wait_event env kq [initial]) (\<lambda>_. register_loop_expiration env kq cycle)) k))"
| "kqueue_step env kq cycle (KqChecks ev) txs ch k = Some (timer_checks KqEnded (KqFires ev) txs, ch, k)"
| "kqueue_step env kq cycle (KqFires ev) txs ch k =
     quiet ch (or_end KqEnded (\<lambda>now. KqSends ev (tr_from now)) (time_range_now env k))"
| "kqueue_step env kq cycle (KqSends ev u) txs ch k =
     (case timer_sends (KqWaits ev) KqEnded u txs ch of (p, ch') \<Rightarrow> Some (p, ch', k))"
| "kqueue_step env kq cycle (KqWaits ev) txs ch k =
     quiet ch (or_end KqEnded (\<lambda>_. KqChecks ev) (wait_event env kq [ev] k))"
| "kqueue_step env kq cycle (KqEnded r) txs ch k = Some (KqEnded r, ch, k)"

section \<open>Sleeping\<close>

text \<open>Before the first sleep, before the check, before the sending, before the sleep of the loop.\<close>

datatype sleep_phase = SlStarts | SlChecks | SlFires | SlSends u64 | SlSleeps | SlEnded "unit presult"

definition sleep_initialize :: "nat \<Rightarrow> timer \<times> sleep_phase" where
  "sleep_initialize dummy = (\<lparr>tm_txs = mx_store (mx_new []) [dummy], tm_handle = True\<rparr>, SlStarts)"

text \<open>\<open>asleep\<close> is what becomes of the system while the thread sleeps.\<close>

fun sleep_step :: "'k timer_env \<Rightarrow> (duration \<Rightarrow> 'k \<Rightarrow> 'k) \<Rightarrow> duration \<Rightarrow> (sleep_phase, 'k) timer_step" where
  "sleep_step env asleep cycle SlStarts txs ch k =
     quiet ch (or_end SlEnded (\<lambda>_. SlChecks)
       (act_bind (time_range_now env) (\<lambda>now k'. act_ok () (asleep \<lparr>du_secs = tr_rem now, du_nanos = 0\<rparr> k')) k))"
| "sleep_step env asleep cycle SlChecks txs ch k = Some (timer_checks SlEnded SlFires txs, ch, k)"
| "sleep_step env asleep cycle SlFires txs ch k =
     quiet ch (or_end SlEnded (\<lambda>now. SlSends (tr_from now)) (time_range_now env k))"
| "sleep_step env asleep cycle (SlSends u) txs ch k =
     (case timer_sends SlSleeps SlEnded u txs ch of (p, ch') \<Rightarrow> Some (p, ch', k))"
| "sleep_step env asleep cycle SlSleeps txs ch k = Some (SlChecks, ch, asleep cycle k)"
| "sleep_step env asleep cycle (SlEnded r) txs ch k = Some (SlEnded r, ch, k)"

section \<open>A timer with its thread\<close>

record ('p, 'k) timer_sys =
  ts_timer :: timer
  ts_phase :: 'p
  ts_chans :: channels
  ts_kernel :: 'k

datatype timer_event = TimerRuns | Attach nat | DropAll

fun timer_event_step :: "('p, 'k) timer_step \<Rightarrow> timer_event \<Rightarrow> ('p, 'k) timer_sys \<Rightarrow> ('p, 'k) timer_sys option" where
  "timer_event_step step TimerRuns s =
     (case step (ts_phase s) (tm_txs (ts_timer s)) (ts_chans s) (ts_kernel s) of
        None \<Rightarrow> None
      | Some (p, ch, k) \<Rightarrow> Some (s\<lparr>ts_phase := p, ts_chans := ch, ts_kernel := k\<rparr>))"
| "timer_event_step step (Attach tx) s = Some (s\<lparr>ts_timer := snd (attach_listener tx (ts_timer s))\<rparr>)"
| "timer_event_step step DropAll s = Some (s\<lparr>ts_timer := snd (drop_listeners (ts_timer s))\<rparr>)"

fun timer_run :: "('p, 'k) timer_step \<Rightarrow> timer_event list \<Rightarrow> ('p, 'k) timer_sys \<Rightarrow> ('p, 'k) timer_sys option" where
  "timer_run step [] s = Some s"
| "timer_run step (e # es) s =
     (case timer_event_step step e s of None \<Rightarrow> None | Some s' \<Rightarrow> timer_run step es s')"

section \<open>What a timer promises\<close>

text \<open>
  \<open>rank\<close> bounds the steps that the thread still takes once it has no listeners; it is 0 when the
  thread has ended. A step sends nothing, or one snapshot signal to all listeners.
\<close>

locale ticker =
  fixes step :: "('p, 'k) timer_step"
    and rank :: "'p \<Rightarrow> nat"
  assumes step_quits: "\<not> mx_poisoned txs \<Longrightarrow> mx_value txs = [] \<Longrightarrow> step p txs ch k = Some (p', ch', k') \<Longrightarrow>
      ch' = ch \<and> rank p' \<le> rank p - 1"
    and step_sends: "step p txs ch k = Some (p', ch', k') \<Longrightarrow>
      ch' = ch \<or> (\<exists>u. ch' = send_all (NextSnapshot u) (mx_value txs) ch)"
begin

lemma run_quits:
  assumes "timer_run step es s = Some s'" and "\<forall>tx. Attach tx \<notin> set es"
    and "\<not> mx_poisoned (tm_txs (ts_timer s))" and "mx_value (tm_txs (ts_timer s)) = []"
  shows "ts_chans s' = ts_chans s \<and> rank (ts_phase s') \<le> rank (ts_phase s) - count_list es TimerRuns"
  using assms
proof (induction es arbitrary: s)
  case Nil
  then show ?case by simp
next
  case (Cons e es)
  from Cons.prems(1) obtain s1 where s1: "timer_event_step step e s = Some s1" "timer_run step es s1 = Some s'"
    by (auto split: option.splits)
  have "\<not> mx_poisoned (tm_txs (ts_timer s1)) \<and> mx_value (tm_txs (ts_timer s1)) = [] \<and> ts_chans s1 = ts_chans s
    \<and> rank (ts_phase s1) \<le> rank (ts_phase s) - (if e = TimerRuns then 1 else 0)"
    using s1(1) Cons.prems(2-4) step_quits [OF Cons.prems(3,4)]
    by (cases e) (auto simp: drop_listeners_def split: option.splits)
  with Cons.IH [OF s1(2)] Cons.prems(2) show ?case by auto
qed

lemma run_delivers:
  assumes "timer_run step es s = Some s'"
  shows "\<exists>us. ts_chans s' c = (if ch_connected (ts_chans s c)
     then (ts_chans s c)\<lparr>ch_queue := ch_queue (ts_chans s c) @ map NextSnapshot us\<rparr> else ts_chans s c)"
  using assms
proof (induction es arbitrary: s)
  case Nil
  then show ?case by (auto intro: exI [of _ "[]"])
next
  case (Cons e es)
  from Cons.prems(1) obtain s1 where s1: "timer_event_step step e s = Some s1" "timer_run step es s1 = Some s'"
    by (auto split: option.splits)
  have "\<exists>us. ts_chans s1 c = (if ch_connected (ts_chans s c)
     then (ts_chans s c)\<lparr>ch_queue := ch_queue (ts_chans s c) @ map NextSnapshot us\<rparr> else ts_chans s c)"
  proof (cases "ts_chans s1 = ts_chans s")
    case True
    then show ?thesis by (auto intro: exI [of _ "[]"])
  next
    case False
    have "ts_chans s1 = ts_chans s \<or> (\<exists>u txs. ts_chans s1 = send_all (NextSnapshot u) txs (ts_chans s))"
      using s1(1) by (cases e) (auto split: option.splits dest!: step_sends, blast)
    with False obtain u txs where "ts_chans s1 = send_all (NextSnapshot u) txs (ts_chans s)" by blast
    then show ?thesis
      by (auto simp: send_all_channel map_replicate_const intro!: exI [of _ "replicate (count_list txs c) u"])
  qed
  with Cons.IH [OF s1(2)] show ?case by (auto split: if_splits) (metis append_assoc map_append)
qed

end

fun timer_rank :: "timer_phase \<Rightarrow> nat" where
  "timer_rank TimerChecks = 1" | "timer_rank TimerWaits = 3" | "timer_rank (TimerSends u) = 2"
| "timer_rank (TimerEnded r) = 0"

fun kqueue_rank :: "kqueue_phase \<Rightarrow> nat" where
  "kqueue_rank KqStarts = 2" | "kqueue_rank (KqChecks ev) = 1" | "kqueue_rank (KqFires ev) = 4"
| "kqueue_rank (KqSends ev u) = 3" | "kqueue_rank (KqWaits ev) = 2" | "kqueue_rank (KqEnded r) = 0"

fun sleep_rank :: "sleep_phase \<Rightarrow> nat" where
  "sleep_rank SlStarts = 2" | "sleep_rank SlChecks = 1" | "sleep_rank SlFires = 4"
| "sleep_rank (SlSends u) = 3" | "sleep_rank SlSleeps = 2" | "sleep_rank (SlEnded r) = 0"

lemma timer_sends_cases:
  assumes "timer_sends p ended u txs ch = (p', ch')"
  shows "p' = p \<and> ch' = send_all (NextSnapshot u) (mx_value txs) ch \<and> \<not> mx_poisoned txs
    \<or> (\<exists>r. p' = ended r) \<and> ch' = ch \<and> mx_poisoned txs"
  using assms by (auto simp: timer_sends_def mx_lock_def split: if_splits)

lemma timer_checks_empty [simp]: "mx_value txs = [] \<Longrightarrow> \<not> mx_poisoned txs \<Longrightarrow> timer_checks ended p txs = ended (Ok ())"
  by (simp add: timer_checks_def)

lemma or_end_cases: "or_end ended f r = Some (p, k) \<Longrightarrow> (\<exists>x. p = f x) \<or> (\<exists>e. p = ended e)"
  by (auto simp: or_end_def split: option.splits res.splits)

lemma quiet_iff: "quiet ch r = Some (p, ch', k) \<longleftrightarrow> r = Some (p, k) \<and> ch' = ch"
  by (auto simp: quiet_def split: option.splits)

interpretation epoll: ticker "epoll_step env timer_fd epoll_fd" timer_rank
proof
  fix txs p ch k p' ch' k'
  assume "\<not> mx_poisoned txs" "mx_value txs = []" "epoll_step env timer_fd epoll_fd p txs ch k = Some (p', ch', k')"
  then show "ch' = ch \<and> timer_rank p' \<le> timer_rank p - 1"
    by (cases p) (auto simp: epoll_check_def timer_sends_def epoll_wakes_def
        split: option.splits res.splits prod.splits pyroscope_error.splits if_splits)
next
  fix txs p ch k p' ch' k'
  assume "epoll_step env timer_fd epoll_fd p txs ch k = Some (p', ch', k')"
  then show "ch' = ch \<or> (\<exists>u. ch' = send_all (NextSnapshot u) (mx_value txs) ch)"
    by (cases p) (auto split: prod.splits option.splits dest: timer_sends_cases)
qed

interpretation kqueue: ticker "kqueue_step env kq cycle" kqueue_rank
proof
  fix txs p ch k p' ch' k'
  assume "\<not> mx_poisoned txs" "mx_value txs = []" "kqueue_step env kq cycle p txs ch k = Some (p', ch', k')"
  then show "ch' = ch \<and> kqueue_rank p' \<le> kqueue_rank p - 1"
    by (cases p) (auto simp: quiet_iff timer_sends_def dest!: or_end_cases split: prod.splits)
next
  fix txs p ch k p' ch' k'
  assume "kqueue_step env kq cycle p txs ch k = Some (p', ch', k')"
  then show "ch' = ch \<or> (\<exists>u. ch' = send_all (NextSnapshot u) (mx_value txs) ch)"
    by (cases p) (auto simp: quiet_iff split: prod.splits dest: timer_sends_cases)
qed

interpretation sleeping: ticker "sleep_step env asleep cycle" sleep_rank
proof
  fix txs p ch k p' ch' k'
  assume "\<not> mx_poisoned txs" "mx_value txs = []" "sleep_step env asleep cycle p txs ch k = Some (p', ch', k')"
  then show "ch' = ch \<and> sleep_rank p' \<le> sleep_rank p - 1"
    by (cases p) (auto simp: quiet_iff timer_sends_def dest!: or_end_cases split: prod.splits)
next
  fix txs p ch k p' ch' k'
  assume "sleep_step env asleep cycle p txs ch k = Some (p', ch', k')"
  then show "ch' = ch \<or> (\<exists>u. ch' = send_all (NextSnapshot u) (mx_value txs) ch)"
    by (cases p) (auto simp: quiet_iff split: prod.splits dest: timer_sends_cases)
qed

lemma rank_ended:
  "timer_rank p = 0 \<longleftrightarrow> (\<exists>r. p = TimerEnded r)" "kqueue_rank q = 0 \<longleftrightarrow> (\<exists>r. q = KqEnded r)"
  "sleep_rank o' = 0 \<longleftrightarrow> (\<exists>r. o' = SlEnded r)"
  by ((cases p, simp_all)[], (cases q, simp_all)[], (cases o', simp_all)[])

lemma rank_le:
  "timer_rank p \<le> 4" "kqueue_rank q \<le> 4" "sleep_rank o' \<le> 4"
  by ((cases p, simp_all)[], (cases q, simp_all)[], (cases o', simp_all)[])

lemma drop_listeners_empties [simp]:
  assumes "\<not> mx_poisoned (tm_txs t)"
  shows "mx_value (tm_txs (snd (drop_listeners t))) = []" and "\<not> mx_poisoned (tm_txs (snd (drop_listeners t)))"
  using assms by (simp_all add: drop_listeners_def)

section \<open>Steps return\<close>

text \<open>A clock that works gives a time other than zero when it is first asked.\<close>

definition clock_works :: "clock \<Rightarrow> bool" where
  "clock_works clock \<longleftrightarrow> (case clock 0 of Ok now \<Rightarrow> now \<noteq> 0 | _ \<Rightarrow> False)"

lemma clock_works_iff: "clock_works clock \<longleftrightarrow> (\<exists>now. clock 0 = Ok now \<and> now \<noteq> 0)"
  by (auto simp: clock_works_def split: res.splits)

lemma time_range_returns: "clock_works clock \<Longrightarrow> \<exists>r. get_time_range clock 0 t = Some r"
  by (cases "t = 0") (auto simp: clock_works_iff get_time_range_zero)

named_theorems returns

definition act_returns :: "('a, 'k) act \<Rightarrow> bool" where
  "act_returns m \<longleftrightarrow> (\<forall>k. m k \<noteq> None)"

lemma act_returns_bind [returns]: "act_returns m \<Longrightarrow> (\<And>x. act_returns (f x)) \<Longrightarrow> act_returns (act_bind m f)"
  by (auto simp: act_returns_def act_bind_def split: option.split res.split)

lemma act_returns_basic [returns]: "act_returns (act_ok x)" "act_returns (checked env c)"
  by (simp_all add: act_returns_def act_ok_def checked_def split: prod.split)

lemma time_range_now_returns [returns]: "(\<And>k. clock_works (te_clock env k)) \<Longrightarrow> act_returns (time_range_now env)"
  using time_range_returns by (fastforce simp: act_returns_def time_range_now_def)

lemma wait_returns [returns]:
  "act_returns (timer_epoll_wait env timer_fd epoll_fd)" "act_returns (wait_event env kq evs)"
  unfolding timer_epoll_wait_def epoll_wait_def read_fd_def wait_event_def kevent_def by (intro returns)+

lemma registers_return [returns]:
  assumes "\<And>k. clock_works (te_clock env k)"
  shows "act_returns (register_initial_expiration env kq)" "act_returns (register_loop_expiration env kq cycle)"
  unfolding register_initial_expiration_def register_loop_expiration_def kevent_def Let_def
  by (intro returns assms)+

lemma quiet_or_end_returns: "act_returns m \<Longrightarrow> quiet ch (or_end ended next_phase (m k)) \<noteq> None"
  by (auto simp: act_returns_def quiet_def or_end_def split: option.split res.split)

lemma epoll_step_returns:
  assumes "\<And>k. clock_works (te_clock env k)"
  shows "epoll_step env timer_fd epoll_fd p txs ch k \<noteq> None"
proof (cases p)
  case TimerWaits
  have "timer_epoll_wait env timer_fd epoll_fd k \<noteq> None"
    using wait_returns(1) [of env timer_fd epoll_fd] unfolding act_returns_def by blast
  then obtain r k' where w: "timer_epoll_wait env timer_fd epoll_fd k = Some (r, k')" by auto
  have "time_range_now env k' \<noteq> None"
    using time_range_now_returns [OF assms] unfolding act_returns_def by blast
  then obtain now where "time_range_now env k' = Some now" by blast
  with TimerWaits w show ?thesis
    by (auto simp: epoll_wakes_def split: option.split res.split pyroscope_error.split prod.split)
qed (simp_all split: prod.split)

lemma kqueue_step_returns:
  assumes "\<And>k. clock_works (te_clock env k)"
  shows "kqueue_step env kq cycle p txs ch k \<noteq> None"
  by (cases p) (auto intro!: quiet_or_end_returns returns assms simp del: not_None_eq split: prod.split)

lemma sleep_step_returns:
  assumes "\<And>k. clock_works (te_clock env k)"
  shows "sleep_step env asleep cycle p txs ch k \<noteq> None"
proof (cases p)
  case SlStarts
  have "act_returns (act_bind (time_range_now env) (\<lambda>now k'. act_ok () (asleep \<lparr>du_secs = tr_rem now, du_nanos = 0\<rparr> k')))"
    using time_range_now_returns [OF assms] by (auto simp: act_returns_def act_bind_def act_ok_def split: option.split res.split)
  from quiet_or_end_returns [OF this] SlStarts show ?thesis by (simp del: not_None_eq)
next
  case SlFires
  from quiet_or_end_returns [OF time_range_now_returns [OF assms]] SlFires show ?thesis by (simp del: not_None_eq)
qed (simp_all split: prod.split)

lemma timer_run_returns:
  assumes "\<And>p txs ch k. step p txs ch k \<noteq> None"
  shows "\<exists>s'. timer_run step es s = Some s'"
proof (induction es arbitrary: s)
  case (Cons e es)
  have "timer_event_step step e s \<noteq> None" using assms by (cases e) (auto split: option.split)
  with Cons show ?case by auto
qed simp

section \<open>Ending\<close>

text \<open>C34: once the listeners are dropped and none is attached again, no channel receives anything
  more, and after at most four further steps the thread of each of the three timers has ended; with
  a clock that works no step of theirs is missing, whatever the other calls answer.\<close>
theorem timers_quit:
  assumes "\<And>tx. Attach tx \<notin> set es" and "4 \<le> count_list es TimerRuns" and "\<And>k. clock_works (te_clock env k)"
    and "\<not> mx_poisoned (tm_txs (ts_timer s))" and "\<not> mx_poisoned (tm_txs (ts_timer q))"
    and "\<not> mx_poisoned (tm_txs (ts_timer o'))"
  shows "\<exists>s' q' o''. timer_run (epoll_step env timer_fd epoll_fd) (DropAll # es) s = Some s'
    \<and> timer_run (kqueue_step env kq cycle) (DropAll # es) q = Some q'
    \<and> timer_run (sleep_step env asleep cycle) (DropAll # es) o' = Some o''
    \<and> ts_chans s' = ts_chans s \<and> (\<exists>r. ts_phase s' = TimerEnded r)
    \<and> ts_chans q' = ts_chans q \<and> (\<exists>r. ts_phase q' = KqEnded r)
    \<and> ts_chans o'' = ts_chans o' \<and> (\<exists>r. ts_phase o'' = SlEnded r)"
proof -
  obtain s' where s': "timer_run (epoll_step env timer_fd epoll_fd) (DropAll # es) s = Some s'"
    using timer_run_returns [where step = "epoll_step env timer_fd epoll_fd", OF epoll_step_returns [OF assms(3)]] by blast
  obtain q' where q': "timer_run (kqueue_step env kq cycle) (DropAll # es) q = Some q'"
    using timer_run_returns [where step = "kqueue_step env kq cycle", OF kqueue_step_returns [OF assms(3)]] by blast
  obtain o'' where o'': "timer_run (sleep_step env asleep cycle) (DropAll # es) o' = Some o''"
    using timer_run_returns [where step = "sleep_step env asleep cycle", OF sleep_step_returns [OF assms(3)]] by blast
  have "ts_chans s' = ts_chans s \<and> timer_rank (ts_phase s') = 0"
    using epoll.run_quits [of env timer_fd epoll_fd es "s\<lparr>ts_timer := snd (drop_listeners (ts_timer s))\<rparr>" s']
      rank_le(1) [of "ts_phase s"] assms s' by simp
  moreover have "ts_chans q' = ts_chans q \<and> kqueue_rank (ts_phase q') = 0"
    using kqueue.run_quits [of env kq cycle es "q\<lparr>ts_timer := snd (drop_listeners (ts_timer q))\<rparr>" q']
      rank_le(2) [of "ts_phase q"] assms q' by simp
  moreover have "ts_chans o'' = ts_chans o' \<and> sleep_rank (ts_phase o'') = 0"
    using sleeping.run_quits [of env asleep cycle es "o'\<lparr>ts_timer := snd (drop_listeners (ts_timer o'))\<rparr>" o'']
      rank_le(3) [of "ts_phase o'"] assms o'' by simp
  ultimately show ?thesis using s' q' o'' by (simp only: rank_ended) blast
qed

text \<open>A system on which every call succeeds and that is asked for the time at second 25.\<close>

definition ex_timer_env :: "unit timer_env" where
  "ex_timer_env = \<lparr>te_call = (\<lambda>_ k. (0, k)), te_errno = (\<lambda>_. ''''), te_interrupted = (\<lambda>_. False), te_clock = (\<lambda>_ _. Ok 25)\<rparr>"

definition ex_timer_sys :: "'p \<Rightarrow> ('p, unit) timer_sys" where
  "ex_timer_sys p = \<lparr>ts_timer = \<lparr>tm_txs = mx_new [0, 1], tm_handle = True\<rparr>, ts_phase = p,
     ts_chans = (\<lambda>_. \<lparr>ch_queue = [NextSnapshot 10], ch_connected = True\<rparr>), ts_kernel = ()\<rparr>"

lemma timers_quit_witness:
  "\<exists>s' q' o''. timer_run (epoll_step ex_timer_env 3 4) [DropAll, TimerRuns, TimerRuns, TimerRuns, TimerRuns] (ex_timer_sys TimerWaits) = Some s'
    \<and> timer_run (kqueue_step ex_timer_env 3 \<lparr>du_secs = 10, du_nanos = 0\<rparr>) [DropAll, TimerRuns, TimerRuns, TimerRuns, TimerRuns] (ex_timer_sys KqStarts) = Some q'
    \<and> timer_run (sleep_step ex_timer_env (\<lambda>_ k. k) \<lparr>du_secs = 10, du_nanos = 0\<rparr>) [DropAll, TimerRuns, TimerRuns, TimerRuns, TimerRuns] (ex_timer_sys SlFires) = Some o''
    \<and> ts_chans s' = ts_chans (ex_timer_sys TimerWaits) \<and> (\<exists>r. ts_phase o'' = SlEnded r)"
proof -
  have "\<not> mx_poisoned (tm_txs (ts_timer (ex_timer_sys p)))" for p :: 'p by (simp add: ex_timer_sys_def)
  note free = this this this
  have "clock_works (te_clock ex_timer_env k)" for k by (simp add: clock_works_def ex_timer_env_def)
  from timers_quit [of "[TimerRuns, TimerRuns, TimerRuns, TimerRuns]", OF _ _ this free] show ?thesis by fastforce
qed

end
