(* ===== verification/Bytes.thy ===== *)
theory Bytes
  imports Prelude
begin

text \<open>
  Byte buffers: fixed-width integers in memory (\<open>to_ne_bytes\<close>, \<open>from_ne_bytes\<close>; both
  supported targets, x86-64 and AArch64 Linux, are little endian), \<open>copy_from_slice\<close> and
  checked slicing.
\<close>

section \<open>Little-endian integers\<close>

fun nat_bytes :: "nat \<Rightarrow> nat \<Rightarrow> u8 list" where
  "nat_bytes 0 x = []"
| "nat_bytes (Suc n) x = word_of_nat (x mod 256) # nat_bytes n (x div 256)"

fun bytes_nat :: "u8 list \<Rightarrow> nat" where
  "bytes_nat [] = 0"
| "bytes_nat (b # bs) = unat b + 256 * bytes_nat bs"

definition u32_bytes :: "u32 \<Rightarrow> u8 list" where
  "u32_bytes w = nat_bytes 4 (unat w)"

definition u64_bytes :: "u64 \<Rightarrow> u8 list" where
  "u64_bytes w = nat_bytes 8 (unat w)"

definition bytes_u32 :: "u8 list \<Rightarrow> u32" where
  "bytes_u32 bs = word_of_nat (bytes_nat bs)"

definition bytes_u64 :: "u8 list \<Rightarrow> u64" where
  "bytes_u64 bs = word_of_nat (bytes_nat bs)"

lemma length_nat_bytes [simp]: "length (nat_bytes n x) = n"
  by (induction n x rule: nat_bytes.induct) simp_all

lemma length_u32_bytes [simp]: "length (u32_bytes w) = 4"
  by (simp add: u32_bytes_def)

lemma length_u64_bytes [simp]: "length (u64_bytes w) = 8"
  by (simp add: u64_bytes_def)

lemma unat_u8_of_nat: "unat (word_of_nat n :: u8) = n mod 256"
  by (simp add: unat_of_nat)

lemma bytes_nat_of_nat: "bytes_nat (nat_bytes n x) = x mod 256 ^ n"
proof (induction n x rule: nat_bytes.induct)
  case (1 x)
  then show ?case by simp
next
  case (2 n x)
  then show ?case by (simp add: unat_u8_of_nat mod_mult2_eq add.commute)
qed

lemma bytes_nat_less: "bytes_nat bs < 256 ^ length bs"
proof (induction bs)
  case Nil
  then show ?case by simp
next
  case (Cons b bs)
  have "unat b < 256" by (rule unat_u8_less)
  with Cons show ?case by simp
qed

lemma nat_bytes_of_bytes: "nat_bytes (length bs) (bytes_nat bs) = bs"
proof (induction bs)
  case Nil
  then show ?case by simp
next
  case (Cons b bs)
  have "unat b < 256" by (rule unat_u8_less)
  with Cons show ?case by (simp add: word_unat_eq_iff unat_u8_of_nat)
qed

lemma u32_bytes_inv [simp]: "bytes_u32 (u32_bytes w) = w"
  using unat_u32_less [of w]
  by (simp add: bytes_u32_def u32_bytes_def bytes_nat_of_nat word_unat_eq_iff unat_of_nat)

lemma u64_bytes_inv [simp]: "bytes_u64 (u64_bytes w) = w"
  using unat_u64_less [of w]
  by (simp add: bytes_u64_def u64_bytes_def bytes_nat_of_nat word_unat_eq_iff unat_of_nat)

lemma bytes_u64_inv: "length bs = 8 \<Longrightarrow> u64_bytes (bytes_u64 bs) = bs"
  using nat_bytes_of_bytes [of bs] bytes_nat_less [of bs]
  by (simp add: bytes_u64_def u64_bytes_def unat_of_nat)

lemma bytes_u32_inv: "length bs = 4 \<Longrightarrow> u32_bytes (bytes_u32 bs) = bs"
  using nat_bytes_of_bytes [of bs] bytes_nat_less [of bs]
  by (simp add: bytes_u32_def u32_bytes_def unat_of_nat)

section \<open>Slices\<close>

text \<open>\<open>&buf[from..to]\<close>: panics when the range is reversed or leaves the buffer.\<close>

definition slice_of :: "'a list \<Rightarrow> nat \<Rightarrow> nat \<Rightarrow> ('a list, 'e) res" where
  "slice_of buf lo hi = (if lo \<le> hi \<and> hi \<le> length buf then Ok (take (hi - lo) (drop lo buf)) else Panic)"

text \<open>\<open>buf[lo..hi].copy_from_slice(src)\<close> panics on a bad range and on different lengths.\<close>

definition copy_at :: "'a list \<Rightarrow> nat \<Rightarrow> nat \<Rightarrow> 'a list \<Rightarrow> ('a list, 'e) res" where
  "copy_at buf lo hi src =
     (if lo \<le> hi \<and> hi \<le> length buf \<and> length src = hi - lo
      then Ok (take lo buf @ src @ drop hi buf) else Panic)"

definition index_of :: "'a list \<Rightarrow> nat \<Rightarrow> ('a, 'e) res" where
  "index_of xs i = (if i < length xs then Ok (xs ! i) else Panic)"

lemma slice_of_Ok [res_simps]:
  "slice_of buf lo hi = Ok s \<longleftrightarrow> lo \<le> hi \<and> hi \<le> length buf \<and> s = take (hi - lo) (drop lo buf)"
  by (auto simp: slice_of_def)

lemma copy_at_Ok [res_simps]:
  "copy_at buf lo hi src = Ok b \<longleftrightarrow> lo \<le> hi \<and> hi \<le> length buf \<and> length src = hi - lo
     \<and> b = take lo buf @ src @ drop hi buf"
  by (auto simp: copy_at_def)

lemma index_of_Ok [res_simps]: "index_of xs i = Ok x \<longleftrightarrow> i < length xs \<and> x = xs ! i"
  by (auto simp: index_of_def)

end
