(* ===== verification/Utf8.thy ===== *)
theory Utf8
  imports Bytes
begin

text \<open>
  What the code uses of Rust's characters: \<open>char::from_u32\<close>, \<open>char::len_utf8\<close>,
  \<open>char::encode_utf8\<close> and \<open>core::str::from_utf8\<close>, with the round trip between them.
\<close>

section \<open>Characters\<close>

text \<open>A \<open>char\<close> is a Unicode scalar value: no surrogate, at most \<open>0x10FFFF\<close>.\<close>

definition scalar :: "nat \<Rightarrow> bool" where
  "scalar c \<longleftrightarrow> c < 0x110000 \<and> \<not> (0xD800 \<le> c \<and> c \<le> 0xDFFF)"

definition char_from_u32 :: "nat \<Rightarrow> nat option" where
  "char_from_u32 n = (if scalar n then Some n else None)"

definition byte :: "nat \<Rightarrow> u8" where
  "byte n = word_of_nat n"

lemma unat_byte [simp]: "n < 256 \<Longrightarrow> unat (byte n) = n"
  by (simp add: byte_def unat_u8_of_nat)

definition cont_byte :: "nat \<Rightarrow> u8" where
  "cont_byte n = byte (0x80 + n mod 64)"

definition utf8_encode :: "nat \<Rightarrow> u8 list" where
  "utf8_encode c =
     (if c < 0x80 then [byte c]
      else if c < 0x800 then [byte (0xC0 + c div 64), cont_byte c]
      else if c < 0x10000 then [byte (0xE0 + c div 4096), cont_byte (c div 64), cont_byte c]
      else [byte (0xF0 + c div 262144), cont_byte (c div 4096), cont_byte (c div 64), cont_byte c])"

definition len_utf8 :: "nat \<Rightarrow> nat" where
  "len_utf8 c = (if c < 0x80 then 1 else if c < 0x800 then 2 else if c < 0x10000 then 3 else 4)"

lemma length_utf8_encode [simp]: "length (utf8_encode c) = len_utf8 c"
  by (simp add: utf8_encode_def len_utf8_def)

lemma len_utf8_bounds: "0 < len_utf8 c" "len_utf8 c \<le> 4"
  by (simp_all add: len_utf8_def)

section \<open>Validation\<close>

text \<open>The first character of a byte sequence, by the table of well-formed sequences of the
  Unicode standard, which is what \<open>from_utf8\<close> accepts.\<close>

definition is_cont :: "nat \<Rightarrow> bool" where
  "is_cont b \<longleftrightarrow> 0x80 \<le> b \<and> b \<le> 0xBF"

definition utf8_seq2 :: "u8 \<Rightarrow> u8 \<Rightarrow> nat option" where
  "utf8_seq2 b0 b1 =
     (if 0xC2 \<le> unat b0 \<and> unat b0 \<le> 0xDF \<and> is_cont (unat b1)
      then Some ((unat b0 - 0xC0) * 64 + (unat b1 - 0x80)) else None)"

definition utf8_seq3 :: "u8 \<Rightarrow> u8 \<Rightarrow> u8 \<Rightarrow> nat option" where
  "utf8_seq3 b0 b1 b2 =
     (if 0xE0 \<le> unat b0 \<and> unat b0 \<le> 0xEF \<and> is_cont (unat b1) \<and> is_cont (unat b2)
         \<and> (unat b0 = 0xE0 \<longrightarrow> 0xA0 \<le> unat b1) \<and> (unat b0 = 0xED \<longrightarrow> unat b1 \<le> 0x9F)
      then Some ((unat b0 - 0xE0) * 4096 + (unat b1 - 0x80) * 64 + (unat b2 - 0x80)) else None)"

definition utf8_seq4 :: "u8 \<Rightarrow> u8 \<Rightarrow> u8 \<Rightarrow> u8 \<Rightarrow> nat option" where
  "utf8_seq4 b0 b1 b2 b3 =
     (if 0xF0 \<le> unat b0 \<and> unat b0 \<le> 0xF4 \<and> is_cont (unat b1) \<and> is_cont (unat b2) \<and> is_cont (unat b3)
         \<and> (unat b0 = 0xF0 \<longrightarrow> 0x90 \<le> unat b1) \<and> (unat b0 = 0xF4 \<longrightarrow> unat b1 \<le> 0x8F)
      then Some ((unat b0 - 0xF0) * 262144 + (unat b1 - 0x80) * 4096 + (unat b2 - 0x80) * 64 + (unat b3 - 0x80))
      else None)"

definition utf8_head :: "u8 list \<Rightarrow> (nat \<times> u8 list) option" where
  "utf8_head bs =
     (case bs of
        [] \<Rightarrow> None
      | b0 # r0 \<Rightarrow>
          if b0 < 0x80 then Some (unat b0, r0)
          else (case r0 of
              [] \<Rightarrow> None
            | b1 # r1 \<Rightarrow>
                (case utf8_seq2 b0 b1 of
                   Some c \<Rightarrow> Some (c, r1)
                 | None \<Rightarrow>
                     (case r1 of
                        [] \<Rightarrow> None
                      | b2 # r2 \<Rightarrow>
                          (case utf8_seq3 b0 b1 b2 of
                             Some c \<Rightarrow> Some (c, r2)
                           | None \<Rightarrow>
                               (case r2 of
                                  [] \<Rightarrow> None
                                | b3 # r3 \<Rightarrow> map_option (\<lambda>c. (c, r3)) (utf8_seq4 b0 b1 b2 b3)))))))"

lemmas utf8_seqs = utf8_seq2_def utf8_seq3_def utf8_seq4_def

lemma utf8_head_length: "utf8_head bs = Some (c, rest) \<Longrightarrow> length rest < length bs"
  by (auto simp: utf8_head_def split: list.splits if_splits option.splits)

function utf8_decode :: "u8 list \<Rightarrow> nat list option" where
  "utf8_decode bs =
     (if bs = [] then Some []
      else (case utf8_head bs of
          None \<Rightarrow> None
        | Some (c, rest) \<Rightarrow> map_option ((#) c) (utf8_decode rest)))"
  by pat_completeness auto
termination
  by (relation "measure length") (auto dest: utf8_head_length)

declare utf8_decode.simps [simp del]

text \<open>\<open>core::str::from_utf8(bs).is_ok()\<close>\<close>

definition utf8_valid :: "u8 list \<Rightarrow> bool" where
  "utf8_valid bs \<longleftrightarrow> utf8_decode bs \<noteq> None"

section \<open>Round trip\<close>

lemma unat_cont_byte [simp]: "unat (cont_byte n) = 0x80 + n mod 64"
  using mod_less_divisor [of 64 n] by (simp add: cont_byte_def)

lemma is_cont_mod [simp]: "is_cont (128 + n mod 64)"
  by (simp add: is_cont_def)

lemma is_cont_add [simp]: "b < 64 \<Longrightarrow> is_cont (128 + b)"
  by (simp add: is_cont_def)

lemma is_cont_less: "is_cont n \<Longrightarrow> n - 128 < 64"
  unfolding is_cont_def by linarith

lemma utf8_head_encode:
  assumes "scalar c"
  shows "utf8_head (utf8_encode c @ rest) = Some (c, rest)"
proof -
  have c: "c < 1114112" "\<not> (55296 \<le> c \<and> c \<le> 57343)" using assms by (simp_all add: scalar_def)
  consider "c < 128" | "128 \<le> c" "c < 2048" | "2048 \<le> c" "c < 65536" | "65536 \<le> c" by linarith
  then show ?thesis
  proof cases
    case 1
    then show ?thesis by (simp add: utf8_encode_def utf8_head_def word_less_nat_alt)
  next
    case 2
    then have "unat (byte (0xC0 + c div 64)) = 0xC0 + c div 64"
      by simp
    moreover have "2 \<le> c div 64" "c div 64 \<le> 31" using 2 by (simp_all add: less_eq_div_iff_mult_less_eq div_le_mono)
    ultimately show ?thesis using 2 by (simp add: utf8_encode_def utf8_head_def word_less_nat_alt utf8_seqs)
  next
    case 3
    define a b where "a = c div 4096" and "b = c div 64 mod 64"
    have "c div 64 = a * 64 + b"
      unfolding a_def b_def using div_mult_mod_eq [of "c div 64" 64] by (simp flip: div_mult2_eq)
    then have e: "c = a * 4096 + b * 64 + c mod 64"
      using div_mult_mod_eq [of c 64] by simp
    have m: "c mod 64 < 64" "b < 64" by (simp_all add: b_def)
    have a: "a \<le> 15" using 3 by (simp add: a_def)
    have "unat (byte (0xE0 + a)) = 0xE0 + a"
      using a by simp
    moreover have "a = 0 \<longrightarrow> 32 \<le> b" "a = 13 \<longrightarrow> b \<le> 31"
      using 3 c(2) e m by linarith+
    ultimately show ?thesis
      using 3 a m by (simp add: utf8_encode_def utf8_head_def word_less_nat_alt utf8_seqs e [symmetric] flip: a_def b_def)
  next
    case 4
    define a b d where "a = c div 262144" and "b = c div 4096 mod 64" and "d = c div 64 mod 64"
    have "c div 4096 = a * 64 + b"
      unfolding a_def b_def using div_mult_mod_eq [of "c div 4096" 64] by (simp flip: div_mult2_eq)
    moreover have "c div 64 = c div 4096 * 64 + d"
      unfolding d_def using div_mult_mod_eq [of "c div 64" 64] by (simp flip: div_mult2_eq)
    ultimately have e: "c = a * 262144 + b * 4096 + d * 64 + c mod 64"
      using div_mult_mod_eq [of c 64] by simp
    have m: "c mod 64 < 64" "d < 64" "b < 64" by (simp_all add: b_def d_def)
    have a: "a \<le> 4" using c(1) by (simp add: a_def)
    have "unat (byte (0xF0 + a)) = 0xF0 + a"
      using a by simp
    moreover have "a = 0 \<longrightarrow> 16 \<le> b" "a = 4 \<longrightarrow> b \<le> 15"
      using 4 c(1) e m by linarith+
    ultimately show ?thesis
      using 4 a m by (simp add: utf8_encode_def utf8_head_def word_less_nat_alt utf8_seqs e [symmetric] flip: a_def b_def d_def)
  qed
qed

lemma utf8_encode_nonempty [simp]: "utf8_encode c \<noteq> []"
  by (simp add: utf8_encode_def)

lemma utf8_decode_encode: "list_all scalar cs \<Longrightarrow> utf8_decode (concat (map utf8_encode cs)) = Some cs"
proof (induction cs)
  case Nil
  then show ?case by (simp add: utf8_decode.simps)
next
  case (Cons c cs)
  then show ?case by (subst utf8_decode.simps) (simp add: utf8_head_encode)
qed

lemma utf8_valid_encode: "list_all scalar cs \<Longrightarrow> utf8_valid (concat (map utf8_encode cs))"
  by (simp add: utf8_valid_def utf8_decode_encode)

text \<open>Conversely, whatever is accepted is the encoding of the characters it decodes to.\<close>

lemma byte_unat [simp]: "byte (unat b) = b"
  by (simp add: byte_def)

lemma cont_byte_eq: "is_cont (unat b) \<Longrightarrow> n mod 64 = unat b - 128 \<Longrightarrow> cont_byte n = b"
  by (simp add: cont_byte_def is_cont_def)

lemma byte_eqI: "n = unat b \<Longrightarrow> byte n = b"
  by simp

lemma split_64: "y < 64 \<Longrightarrow> (x * 64 + y) div 64 = (x :: nat)" "y < 64 \<Longrightarrow> (x * 64 + y) mod 64 = (y :: nat)"
  by simp_all

lemma utf8_two:
  assumes "utf8_seq2 b0 b1 = Some c"
  shows "[b0, b1] = utf8_encode c \<and> scalar c"
proof -
  have b: "0xC2 \<le> unat b0" "unat b0 \<le> 0xDF" "is_cont (unat b1)"
    and c: "c = (unat b0 - 0xC0) * 64 + (unat b1 - 0x80)"
    using assms unfolding utf8_seq2_def by (simp_all split: if_splits)
  have y: "unat b1 - 0x80 < 64" using b(3) by (rule is_cont_less)
  have "c div 64 = unat b0 - 0xC0" "c mod 64 = unat b1 - 0x80"
    using split_64 [OF y] c by simp_all
  moreover have "128 \<le> c" "c < 2048" using b c y by simp_all
  ultimately show ?thesis
    using b(1-3) by (simp add: utf8_encode_def cont_byte_eq scalar_def)
qed

lemma utf8_three:
  assumes "utf8_seq3 b0 b1 b2 = Some c"
  shows "[b0, b1, b2] = utf8_encode c \<and> scalar c"
proof -
  have b: "0xE0 \<le> unat b0" "unat b0 \<le> 0xEF" "is_cont (unat b1)" "is_cont (unat b2)"
      "unat b0 = 0xE0 \<longrightarrow> 0xA0 \<le> unat b1" "unat b0 = 0xED \<longrightarrow> unat b1 \<le> 0x9F"
    and c: "c = (unat b0 - 0xE0) * 4096 + (unat b1 - 0x80) * 64 + (unat b2 - 0x80)"
    using assms unfolding utf8_seq3_def by (simp_all split: if_splits)
  let ?x = "unat b0 - 0xE0" and ?y = "unat b1 - 0x80" and ?z = "unat b2 - 0x80"
  have y: "?y < 64" and z: "?z < 64" using b(3,4) by (simp_all add: is_cont_less)
  have c64: "c = (?x * 64 + ?y) * 64 + ?z" using c by simp
  have d: "c div 64 = ?x * 64 + ?y" "c mod 64 = ?z" using split_64 [OF z, of "?x * 64 + ?y"] c64 by simp_all
  then have "c div 4096 = ?x" "c div 64 mod 64 = ?y"
    using split_64 [OF y, of ?x] div_mult2_eq [of c 64 64] by simp_all
  moreover have "2048 \<le> c" "c < 65536"
  proof -
    have "?x = 0 \<and> 32 \<le> ?y \<or> 1 \<le> ?x" "?x \<le> 15" using b(1,2,5) by auto
    then show "2048 \<le> c" "c < 65536" using c y z by auto
  qed
  moreover have "scalar c"
  proof -
    have "c < 55296 \<or> 57343 < c"
    proof -
      have "?x \<le> 12 \<or> ?x = 13 \<and> ?y \<le> 31 \<or> 14 \<le> ?x" using b(6) by auto
      then show ?thesis using c y z by auto
    qed
    with \<open>c < 65536\<close> show ?thesis by (auto simp: scalar_def)
  qed
  ultimately show ?thesis
    using b(1-4) d by (simp add: utf8_encode_def cont_byte_eq)
qed

lemma utf8_four:
  assumes "utf8_seq4 b0 b1 b2 b3 = Some c"
  shows "[b0, b1, b2, b3] = utf8_encode c \<and> scalar c"
proof -
  have b: "0xF0 \<le> unat b0" "unat b0 \<le> 0xF4" "is_cont (unat b1)" "is_cont (unat b2)" "is_cont (unat b3)"
      "unat b0 = 0xF0 \<longrightarrow> 0x90 \<le> unat b1" "unat b0 = 0xF4 \<longrightarrow> unat b1 \<le> 0x8F"
    and c: "c = (unat b0 - 0xF0) * 262144 + (unat b1 - 0x80) * 4096 + (unat b2 - 0x80) * 64 + (unat b3 - 0x80)"
    using assms unfolding utf8_seq4_def by (simp_all split: if_splits)
  let ?x = "unat b0 - 0xF0" and ?y = "unat b1 - 0x80" and ?z = "unat b2 - 0x80" and ?w = "unat b3 - 0x80"
  have y: "?y < 64" and z: "?z < 64" and w: "?w < 64" using b(3-5) by (simp_all add: is_cont_less)
  have c64: "c = ((?x * 64 + ?y) * 64 + ?z) * 64 + ?w" using c by simp
  have d: "c div 64 = (?x * 64 + ?y) * 64 + ?z" "c mod 64 = ?w"
    using split_64 [OF w, of "(?x * 64 + ?y) * 64 + ?z"] c64 by simp_all
  then have d2: "c div 4096 = ?x * 64 + ?y" "c div 64 mod 64 = ?z"
    using split_64 [OF z, of "?x * 64 + ?y"] div_mult2_eq [of c 64 64] by simp_all
  then have "c div 262144 = ?x" "c div 4096 mod 64 = ?y"
    using split_64 [OF y, of ?x] div_mult2_eq [of c 4096 64] by simp_all
  moreover have "65536 \<le> c" "c < 1114112"
  proof -
    have "?x = 0 \<and> 16 \<le> ?y \<or> 1 \<le> ?x" "?x = 4 \<and> ?y \<le> 15 \<or> ?x \<le> 3" using b(1,2,6,7) by auto
    then show "65536 \<le> c" "c < 1114112" using c y z w by auto
  qed
  ultimately have x: "c div 262144 = ?x" and cb: "cont_byte (c div 4096) = b1" and ge: "65536 \<le> c" "c < 1114112"
    using b(3) by (simp_all only: cont_byte_eq)
  have cb': "cont_byte (c div 64) = b2" "cont_byte c = b3"
    using b(4,5) d(2) d2(2) by (simp_all only: cont_byte_eq)
  have b0: "0xF0 + ?x = unat b0" using b(1) by simp
  show ?thesis
    using ge unfolding utf8_encode_def scalar_def x cb cb' b0 by simp
qed

lemma utf8_head_sound:
  assumes "utf8_head bs = Some (c, rest)"
  shows "bs = utf8_encode c @ rest \<and> scalar c"
proof -
  have one: "[b] = utf8_encode (unat b) \<and> scalar (unat b)" if "b < 0x80" for b :: u8
    using that by (simp add: utf8_encode_def scalar_def word_less_nat_alt)
  from assms show ?thesis
    by (auto simp: utf8_head_def split: list.splits if_splits option.splits
        dest!: one utf8_two utf8_three utf8_four)
qed

lemma utf8_decode_sound:
  "utf8_decode bs = Some cs \<Longrightarrow> concat (map utf8_encode cs) = bs \<and> list_all scalar cs"
proof (induction bs arbitrary: cs rule: utf8_decode.induct)
  case (1 bs)
  show ?case
  proof (cases "bs = []")
    case True
    with 1(2) show ?thesis by (simp add: utf8_decode.simps)
  next
    case False
    with 1(2) obtain c rest cs' where h: "utf8_head bs = Some (c, rest)" "utf8_decode rest = Some cs'" "cs = c # cs'"
      by (subst (asm) utf8_decode.simps) (auto split: option.splits)
    with 1(1) [OF False h(1) refl h(2)] utf8_head_sound [OF h(1)] show ?thesis by simp
  qed
qed

lemma utf8_valid_iff: "utf8_valid bs \<longleftrightarrow> (\<exists>cs. list_all scalar cs \<and> bs = concat (map utf8_encode cs))"
  unfolding utf8_valid_def using utf8_decode_sound utf8_decode_encode by force

section \<open>ASCII\<close>

lemma utf8_encode_ascii: "b < 0x80 \<Longrightarrow> utf8_encode (unat b) = [b]"
  by (simp add: utf8_encode_def word_less_nat_alt)

lemma utf8_text_ascii: "\<forall>b \<in> set bs. b < 0x80 \<Longrightarrow> concat (map utf8_encode (map unat bs)) = bs"
  by (induction bs) (simp_all add: utf8_encode_ascii)

lemma utf8_decode_ascii: "\<forall>b \<in> set bs. b < 0x80 \<Longrightarrow> utf8_decode bs = Some (map unat bs)"
proof -
  assume a: "\<forall>b \<in> set bs. b < 0x80"
  have "list_all scalar (map unat bs)"
    using a by (auto simp: list_all_iff scalar_def word_less_nat_alt)
  from utf8_decode_encode [OF this] show ?thesis by (simp only: utf8_text_ascii [OF a])
qed

section \<open>Lossy decoding\<close>

text \<open>\<open>String::from_utf8_lossy\<close>: a maximal part of a sequence that is not well formed becomes one
  replacement character. Its length, for a byte that begins no well-formed sequence here:\<close>

definition byte_at :: "u8 list \<Rightarrow> nat \<Rightarrow> nat" where
  "byte_at bs i = (if i < length bs then unat (bs ! i) else 0)"

definition second_ok :: "nat \<Rightarrow> nat \<Rightarrow> bool" where
  "second_ok b0 b1 \<longleftrightarrow>
     (if b0 = 0xE0 then 0xA0 \<le> b1 \<and> b1 \<le> 0xBF
      else if b0 = 0xED then 0x80 \<le> b1 \<and> b1 \<le> 0x9F
      else if b0 = 0xF0 then 0x90 \<le> b1 \<and> b1 \<le> 0xBF
      else if b0 = 0xF4 then 0x80 \<le> b1 \<and> b1 \<le> 0x8F
      else is_cont b1)"

definition invalid_len :: "u8 list \<Rightarrow> nat" where
  "invalid_len bs =
     (let b0 = byte_at bs 0 in
      if 0xE0 \<le> b0 \<and> b0 \<le> 0xEF then (if second_ok b0 (byte_at bs 1) then 2 else 1)
      else if 0xF0 \<le> b0 \<and> b0 \<le> 0xF4 then
        (if \<not> second_ok b0 (byte_at bs 1) then 1 else if \<not> is_cont (byte_at bs 2) then 2 else 3)
      else 1)"

lemma invalid_len_pos [simp]: "0 < invalid_len bs"
  by (simp add: invalid_len_def Let_def)

function utf8_lossy :: "u8 list \<Rightarrow> nat list" where
  "utf8_lossy bs =
     (if bs = [] then []
      else (case utf8_head bs of
          Some (c, rest) \<Rightarrow> c # utf8_lossy rest
        | None \<Rightarrow> 0xFFFD # utf8_lossy (drop (invalid_len bs) bs)))"
  by pat_completeness auto
termination
  by (relation "measure length") (auto dest: utf8_head_length simp: diff_less)

declare utf8_lossy.simps [simp del]

text \<open>A valid text is decoded as it is; the result is always a sequence of characters.\<close>

lemma utf8_lossy_valid: "utf8_decode bs = Some cs \<Longrightarrow> utf8_lossy bs = cs"
proof (induction bs arbitrary: cs rule: utf8_decode.induct)
  case (1 bs)
  have "utf8_decode bs = (if bs = [] then Some []
      else (case utf8_head bs of None \<Rightarrow> None | Some (c, rest) \<Rightarrow> map_option ((#) c) (utf8_decode rest)))"
    by (rule utf8_decode.simps)
  with 1 show ?case
    by (subst utf8_lossy.simps) (auto split: option.splits if_splits)
qed

lemma utf8_lossy_scalar: "list_all scalar (utf8_lossy bs)"
proof (induction bs rule: utf8_lossy.induct)
  case (1 bs)
  then show ?case
    by (subst utf8_lossy.simps) (auto split: option.splits simp: scalar_def [of 65533] dest: utf8_head_sound)
qed

end
