(* ===== verification/TextParse.thy ===== *)
theory TextParse
  imports Utf8
begin

text \<open>
  Parsing of text as Rust's standard library does it, as far as the code uses it: splitting of
  byte slices, \<open>from_str_radix\<close> and \<open>parse\<close> on unsigned integers, trimming; with the printing
  of numbers that the parsers undo.
\<close>

section \<open>Splitting\<close>

text \<open>\<open>iter().position(|&b| b == sep)\<close>, as the two parts around the separator.\<close>

definition cut :: "'a \<Rightarrow> 'a list \<Rightarrow> ('a list \<times> 'a list) option" where
  "cut sep xs = (if sep \<in> set xs then Some (takeWhile (\<lambda>x. x \<noteq> sep) xs, tl (dropWhile (\<lambda>x. x \<noteq> sep) xs)) else None)"

lemma cut_append [simp]: "sep \<notin> set xs \<Longrightarrow> cut sep (xs @ sep # ys) = Some (xs, ys)"
  by (induction xs) (auto simp: cut_def)

lemma cut_None [simp]: "sep \<notin> set xs \<Longrightarrow> cut sep xs = None"
  by (simp add: cut_def)

text \<open>\<open>splitn(n, |&b| b == sep)\<close>\<close>

fun splitn :: "nat \<Rightarrow> 'a \<Rightarrow> 'a list \<Rightarrow> 'a list list" where
  "splitn 0 sep xs = []"
| "splitn (Suc 0) sep xs = [xs]"
| "splitn (Suc (Suc n)) sep xs =
     (case cut sep xs of None \<Rightarrow> [xs] | Some (l, r) \<Rightarrow> l # splitn (Suc n) sep r)"

text \<open>\<open>split(sep)\<close>\<close>

fun split_on :: "'a \<Rightarrow> 'a list \<Rightarrow> 'a list list" where
  "split_on sep [] = [[]]"
| "split_on sep (x # xs) =
     (if x = sep then [] # split_on sep xs
      else (case split_on sep xs of [] \<Rightarrow> [[x]] | l # ls \<Rightarrow> (x # l) # ls))"

lemma split_on_nonempty [simp]: "split_on sep xs \<noteq> []"
  by (cases xs) (auto split: list.split)

lemma split_on_single [simp]: "sep \<notin> set xs \<Longrightarrow> split_on sep xs = [xs]"
  by (induction xs) auto

lemma split_on_append [simp]: "sep \<notin> set xs \<Longrightarrow> split_on sep (xs @ sep # ys) = xs # split_on sep ys"
  by (induction xs) auto

text \<open>\<open>read_until(b'\n')\<close>, again and again: the lines with their terminators.\<close>

fun split_lines :: "u8 list \<Rightarrow> u8 list list" where
  "split_lines [] = []"
| "split_lines (b # bs) =
     (if b = 10 then [b] # split_lines bs
      else (case split_lines bs of [] \<Rightarrow> [[b]] | l # ls \<Rightarrow> (b # l) # ls))"

lemma split_lines_concat: "concat (split_lines bs) = bs"
  by (induction bs) (auto split: list.split)

lemma split_lines_nonempty: "l \<in> set (split_lines bs) \<Longrightarrow> l \<noteq> []"
  by (induction bs arbitrary: l) (auto split: list.splits if_splits)

lemma split_lines_line: "10 \<notin> set l \<Longrightarrow> split_lines (l @ 10 # bs) = (l @ [10]) # split_lines bs"
  by (induction l) auto

section \<open>Trimming\<close>

definition trim_by :: "('a \<Rightarrow> bool) \<Rightarrow> 'a list \<Rightarrow> 'a list" where
  "trim_by P xs = rev (dropWhile P (rev (dropWhile P xs)))"

text \<open>\<open>[u8]::trim_ascii\<close> and \<open>str::trim\<close>, which goes by the property White_Space.\<close>

definition ascii_space :: "u8 \<Rightarrow> bool" where
  "ascii_space b \<longleftrightarrow> b \<in> set [32, 9, 10, 12, 13]"

definition white_space :: "nat \<Rightarrow> bool" where
  "white_space c \<longleftrightarrow> c \<in> set [9, 10, 11, 12, 13, 32, 0x85, 0xA0, 0x1680, 0x2028, 0x2029, 0x202F, 0x205F, 0x3000]
     \<or> (0x2000 \<le> c \<and> c \<le> 0x200A)"

lemma trim_by_id:
  assumes "xs \<noteq> [] \<Longrightarrow> \<not> P (hd xs) \<and> \<not> P (last xs)"
  shows "trim_by P xs = xs"
proof (cases xs)
  case (Cons x ys)
  then have "hd (rev xs) = last xs" by (simp add: hd_rev del: rev.simps)
  with assms Cons have h: "\<not> P (hd xs)" "\<not> P (hd (rev xs))" by simp_all
  then have "dropWhile P xs = xs" "dropWhile P (rev xs) = rev xs"
    using Cons by (auto simp: dropWhile_eq_self_iff)
  then show ?thesis by (simp add: trim_by_def)
qed (simp add: trim_by_def)

lemma trim_by_pad:
  assumes "\<forall>x \<in> set as. P x" and "\<forall>x \<in> set bs. P x" and "xs \<noteq> [] \<Longrightarrow> \<not> P (hd xs) \<and> \<not> P (last xs)"
  shows "trim_by P (as @ xs @ bs) = xs"
proof -
  have "dropWhile P (as @ xs @ bs) = dropWhile P (xs @ bs)" using assms(1) by (simp add: dropWhile_append2)
  also have "\<dots> = (if xs = [] then [] else xs @ bs)"
    using assms(2,3) by (cases xs) auto
  finally have d: "dropWhile P (as @ xs @ bs) = (if xs = [] then [] else xs @ bs)" .
  show ?thesis
  proof (cases "xs = []")
    case True
    then show ?thesis unfolding trim_by_def d by simp
  next
    case False
    have "dropWhile P (rev (xs @ bs)) = dropWhile P (rev xs)" using assms(2)
      unfolding rev_append by (intro dropWhile_append2) simp
    moreover have "dropWhile P (rev xs) = rev xs"
      using False assms(3) hd_rev [of xs] by (simp add: dropWhile_eq_self_iff)
    ultimately show ?thesis using d False by (simp add: trim_by_def)
  qed
qed

section \<open>Numbers\<close>

text \<open>\<open>char::to_digit\<close>\<close>

definition digit_val :: "nat \<Rightarrow> nat \<Rightarrow> nat option" where
  "digit_val radix c =
     (let d = (if 48 \<le> c \<and> c \<le> 57 then c - 48
               else if 97 \<le> c \<and> c \<le> 122 then c - 87
               else if 65 \<le> c \<and> c \<le> 90 then c - 55
               else radix)
      in if d < radix then Some d else None)"

fun digits_val :: "nat \<Rightarrow> nat \<Rightarrow> nat \<Rightarrow> nat list \<Rightarrow> nat option" where
  "digits_val lim radix acc [] = Some acc"
| "digits_val lim radix acc (c # cs) =
     (case digit_val radix c of
        None \<Rightarrow> None
      | Some d \<Rightarrow> (let v = acc * radix + d in if v < lim then digits_val lim radix v cs else None))"

text \<open>\<open>uN::from_str_radix\<close>, with \<open>lim\<close> for \<open>2 ^ N\<close>: a plus sign is accepted, an empty number or a
  lone sign is not, and a value that does not fit is an error.\<close>

definition from_str_radix :: "nat \<Rightarrow> nat \<Rightarrow> nat list \<Rightarrow> nat option" where
  "from_str_radix lim radix cs =
     (if cs = [] \<or> cs = [43] \<or> cs = [45] then None
      else if hd cs = 43 then digits_val lim radix 0 (tl cs)
      else digits_val lim radix 0 cs)"

definition digit_char :: "nat \<Rightarrow> nat" where
  "digit_char d = (if d < 10 then 48 + d else 87 + d)"

function digit_chars :: "nat \<Rightarrow> nat \<Rightarrow> nat list" where
  "digit_chars radix n =
     (if n < radix \<or> radix < 2 then [digit_char (n mod radix)]
      else digit_chars radix (n div radix) @ [digit_char (n mod radix)])"
  by pat_completeness auto
termination
  by (relation "measure snd") (auto intro!: div_less_dividend)

declare digit_chars.simps [simp del]

text \<open>\<open>%0wx\<close> and the like\<close>

definition padded :: "nat \<Rightarrow> nat \<Rightarrow> nat \<Rightarrow> nat list" where
  "padded w radix n = replicate (w - length (digit_chars radix n)) 48 @ digit_chars radix n"

lemma digit_val_char: "d < radix \<Longrightarrow> radix \<le> 16 \<Longrightarrow> digit_val radix (digit_char d) = Some d"
  by (auto simp: digit_val_def digit_char_def Let_def)

lemma digits_val_append:
  "digits_val lim radix acc (xs @ ys) =
     (case digits_val lim radix acc xs of None \<Rightarrow> None | Some v \<Rightarrow> digits_val lim radix v ys)"
  by (induction lim radix acc xs rule: digits_val.induct) (auto simp: Let_def split: option.split)

lemma digits_val_chars:
  assumes "2 \<le> radix" and "radix \<le> 16" and "n < lim"
  shows "digits_val lim radix 0 (digit_chars radix n) = Some n"
  using assms
proof (induction radix n rule: digit_chars.induct)
  case (1 radix n)
  have d: "digit_val radix (digit_char (n mod radix)) = Some (n mod radix)"
    using 1(2,3) by (intro digit_val_char) auto
  show ?case
  proof (cases "n < radix")
    case True
    with 1 d show ?thesis by (subst digit_chars.simps) simp
  next
    case False
    have "n div radix < lim" using 1(4) div_le_dividend [of n radix] by linarith
    with False 1 have "digits_val lim radix 0 (digit_chars radix (n div radix)) = Some (n div radix)" by simp
    with False 1 d show ?thesis
      by (subst digit_chars.simps) (simp add: digits_val_append Let_def mult.commute)
  qed
qed

lemma digits_val_zeros: "0 < lim \<Longrightarrow> 2 \<le> radix \<Longrightarrow> digits_val lim radix 0 (replicate k 48 @ cs) = digits_val lim radix 0 cs"
  by (induction k) (simp_all add: digit_val_def Let_def)

lemma digit_chars_nonempty [simp]: "digit_chars radix n \<noteq> []"
  by (subst digit_chars.simps) simp

lemma digit_char_range: "d < 16 \<Longrightarrow> digit_char d \<in> {48..57} \<union> {97..102}"
  by (auto simp: digit_char_def)

lemma digit_chars_range:
  assumes "2 \<le> radix" and "radix \<le> 16"
  shows "set (digit_chars radix n) \<subseteq> {48..57} \<union> {97..102}"
  using assms
proof (induction radix n rule: digit_chars.induct)
  case (1 radix n)
  have "n mod radix < 16" using 1(2,3) mod_less_divisor [of radix n] by linarith
  then show ?case
    using 1 digit_char_range by (subst digit_chars.simps) (auto simp: subset_iff)
qed

lemma padded_range: "2 \<le> radix \<Longrightarrow> radix \<le> 16 \<Longrightarrow> set (padded w radix n) \<subseteq> {48..57} \<union> {97..102}"
  using digit_chars_range [of radix n] by (auto simp: padded_def)

lemma from_str_radix_padded:
  assumes "2 \<le> radix" and "radix \<le> 16" and "n < lim"
  shows "from_str_radix lim radix (padded w radix n) = Some n"
proof -
  have r: "set (padded w radix n) \<subseteq> {48..57} \<union> {97..102}" using padded_range [OF assms(1,2)] .
  then have "43 \<notin> set (padded w radix n)" "45 \<notin> set (padded w radix n)" by auto
  moreover have "padded w radix n \<noteq> []" by (simp add: padded_def)
  ultimately have "padded w radix n \<noteq> [] \<and> padded w radix n \<noteq> [43] \<and> padded w radix n \<noteq> [45]
      \<and> hd (padded w radix n) \<noteq> 43"
    using hd_in_set [of "padded w radix n"] by fastforce
  moreover have "digits_val lim radix 0 (padded w radix n) = Some n"
    using assms by (simp add: padded_def digits_val_zeros digits_val_chars)
  ultimately show ?thesis by (simp add: from_str_radix_def)
qed

text \<open>Numbers as bytes.\<close>

definition number_bytes :: "nat \<Rightarrow> nat \<Rightarrow> nat \<Rightarrow> u8 list" where
  "number_bytes w radix n = map byte (padded w radix n)"

lemma number_bytes_range:
  assumes "2 \<le> radix" and "radix \<le> 16" and "b \<in> set (number_bytes w radix n)"
  shows "unat b \<in> {48..57} \<union> {97..102}"
  using padded_range [OF assms(1,2), of w n] assms(3) by (auto simp: number_bytes_def subset_iff)

lemma number_bytes_decode:
  assumes "2 \<le> radix" and "radix \<le> 16"
  shows "utf8_decode (number_bytes w radix n) = Some (padded w radix n)"
proof -
  have "\<forall>b \<in> set (number_bytes w radix n). b < 0x80"
    using number_bytes_range [OF assms] by (fastforce simp: word_less_nat_alt)
  moreover have "map unat (number_bytes w radix n) = padded w radix n"
    using padded_range [OF assms, of w n] by (auto simp: number_bytes_def subset_iff intro!: map_idI)
  ultimately show ?thesis using utf8_decode_ascii by metis
qed

end
