(* ===== verification/Backends.thy ===== *)
theory Backends
  imports BackendImpl TextParse
begin

text \<open>
  The three backends: pprof-rs (\<open>src/backend/pprof.rs\<close>), py-spy
  (\<open>pyroscope_ffi/python/rust/src/backend.rs\<close>) and rbspy
  (\<open>pyroscope_ffi/ruby/ext/rbspy/src/backend.rs\<close>). The profilers themselves are other crates: what
  they sampled is a parameter, in the form of their types as far as the code reads them.
\<close>

section \<open>Iteration orders\<close>

record buffer_orders =
  bo_hash :: metadata_hash
  bo_entries :: "(stack_trace, usize) iter_order"
  bo_reports :: "(usize, report) iter_order"
  bo_rules :: rule_order

definition orders_ok :: "buffer_orders \<Rightarrow> bool" where
  "orders_ok o' \<longleftrightarrow> fair_order (bo_entries o') \<and> fair_order (bo_reports o') \<and> rule_order_ok (bo_rules o')"

definition buffer_reports :: "buffer_orders \<Rightarrow> stack_buffer \<Rightarrow> report list" where
  "buffer_reports o' b = reports_of_buffer (bo_hash o') (bo_entries o') (bo_reports o') b"

section \<open>pprof-rs: conversion\<close>

record pprof_symbol =
  py_symbol_name :: string
  py_filename :: "u8 list option"
  py_lineno :: "u32 option"

record pprof_frames =
  px_frames :: "pprof_symbol list list"
  px_thread_name :: string
  px_thread_id :: u64

text \<open>\<open>Path::file_name\<close>: the last component that is not the current directory, unless it is the
  parent directory; \<open>to_str\<close>: the path if it is UTF-8.\<close>

definition path_file_name :: "u8 list \<Rightarrow> u8 list option" where
  "path_file_name p =
     (let comps = filter (\<lambda>c. c \<noteq> [] \<and> c \<noteq> [46]) (split_on 47 p)
      in if comps = [] \<or> last comps = [46, 46] then None else Some (last comps))"

definition path_to_str :: "u8 list \<Rightarrow> string option" where
  "path_to_str p = (if utf8_valid p then Some (map (\<lambda>b. char_of (unat b)) p) else None)"

definition pprof_stack_frame :: "pprof_symbol \<Rightarrow> stack_frame" where
  "pprof_stack_frame sy =
     (let path = opt_or [] (py_filename sy) in
      sf_new None (Some (py_symbol_name sy))
        (Some (opt_or [] (path_to_str (opt_or [] (path_file_name path)))))
        (Some (opt_or [] (path_to_str path)))
        None (py_lineno sy))"

definition pprof_stack_trace :: "backend_config \<Rightarrow> pprof_frames \<Rightarrow> stack_trace" where
  "pprof_stack_trace config fr =
     st_new config None (Some (ThreadId (px_thread_id fr))) (Some (px_thread_name fr))
       (map pprof_stack_frame (concat (px_frames fr)))"

text \<open>The counts are \<open>isize\<close> and become \<open>usize\<close>. The report's map is given in the order in which
  it is iterated.\<close>

definition pprof_stack_buffer :: "backend_config \<Rightarrow> (pprof_frames \<times> i64) list \<Rightarrow> stack_buffer" where
  "pprof_stack_buffer config data = sb_new (hm_collect (map (\<lambda>(k, v). (pprof_stack_trace config k, v)) data))"

section \<open>pprof-rs: backend\<close>

record pprof_backend =
  pp_buffer :: "stack_buffer mutex"
  pp_sample_rate :: u32
  pp_config :: backend_config
  pp_inner_builder :: "i32 option mutex"
  pp_guard :: "i32 option mutex"
  pp_ruleset :: thread_tags_set

definition pprof_new :: "u32 \<Rightarrow> backend_config \<Rightarrow> pprof_backend" where
  "pprof_new rate config = \<lparr>pp_buffer = mx_new sb_default, pp_sample_rate = rate, pp_config = config,
     pp_inner_builder = mx_new None, pp_guard = mx_new None, pp_ruleset = tts_new\<rparr>"

text \<open>What pprof-rs answers: the report of the guard, and the outcome of building a guard.\<close>

record pprof_answers =
  pa_report :: "((pprof_frames \<times> i64) list, string) res"
  pa_build :: "(unit, string) res"

definition builder_error :: pyroscope_error where
  "builder_error = pe_new ''pprof-rs: ProfilerGuardBuilder error''"

text \<open>The part that \<open>initialize\<close> and \<open>reset\<close> share: build a guard from the stored builder and
  keep it.\<close>

definition pprof_build_guard :: "pprof_answers \<Rightarrow> pprof_backend \<Rightarrow> unit presult \<times> pprof_backend" where
  "pprof_build_guard an b =
     (case bind_res (mx_lock (pp_inner_builder b)) (\<lambda>builder.
           bind_res (ok_or builder_error builder) (\<lambda>freq.
           bind_res (map_err pe_new (pa_build an)) (\<lambda>_.
           bind_res (mx_lock (pp_guard b)) (\<lambda>_. Ok freq)))) of
        Ok freq \<Rightarrow> (Ok (), b\<lparr>pp_guard := mx_store (pp_guard b) (Some freq)\<rparr>)
      | Err e \<Rightarrow> (Err e, b)
      | Panic \<Rightarrow> (Panic, b))"

definition pprof_initialize :: "pprof_answers \<Rightarrow> pprof_backend \<Rightarrow> unit presult \<times> pprof_backend" where
  "pprof_initialize an b =
     (case mx_lock (pp_inner_builder b) of
        Ok _ \<Rightarrow> pprof_build_guard an (b\<lparr>pp_inner_builder := mx_store (pp_inner_builder b) (Some (pp_sample_rate b))\<rparr>)
      | Err e \<Rightarrow> (Err e, b)
      | Panic \<Rightarrow> (Panic, b))"

definition pprof_shutdown :: "pprof_backend \<Rightarrow> unit presult" where
  "pprof_shutdown b = Ok ()"

definition pprof_reset :: "pprof_answers \<Rightarrow> pprof_backend \<Rightarrow> unit presult \<times> pprof_backend" where
  "pprof_reset an b =
     (case mx_lock (pp_guard b) of
        Ok _ \<Rightarrow> pprof_build_guard an (b\<lparr>pp_guard := mx_store (pp_guard b) None\<rparr>)
      | Err e \<Rightarrow> (Err e, b)
      | Panic \<Rightarrow> (Panic, b))"

text \<open>The traces of a report with the tags of their threads.\<close>

definition pprof_tagged ::
    "buffer_orders \<Rightarrow> backend_config \<Rightarrow> thread_tags_set \<Rightarrow> (pprof_frames \<times> i64) list \<Rightarrow> (stack_trace, usize) hmap" where
  "pprof_tagged o' config rules data =
     hm_collect (map (\<lambda>(st, ss). (add_tag_rules (bo_rules o') st rules, ss))
       (bo_entries o' (sb_data (pprof_stack_buffer config data))))"

fun record_all :: "(stack_trace \<times> usize) list \<Rightarrow> stack_buffer mutex \<Rightarrow> unit presult \<times> stack_buffer mutex" where
  "record_all [] m = (Ok (), m)"
| "record_all ((st, c) # es) m =
     (case mx_lock m of
        Ok b \<Rightarrow> record_all es (mx_store m (sb_record_with_count b st c))
      | Err e \<Rightarrow> (Err e, m)
      | Panic \<Rightarrow> (Panic, m))"

definition pprof_dump_report :: "buffer_orders \<Rightarrow> pprof_answers \<Rightarrow> pprof_backend \<Rightarrow> unit presult \<times> pprof_backend" where
  "pprof_dump_report o' an b =
     (case bind_res (mx_lock (pp_guard b)) (\<lambda>guard.
           bind_res (ok_or (pe_new ''pprof-rs: ProfilerGuard report error'') guard) (\<lambda>_.
           map_err pe_new (pa_report an))) of
        Ok data \<Rightarrow>
          (case record_all (bo_entries o' (pprof_tagged o' (pp_config b) (pp_ruleset b) data)) (pp_buffer b) of
             (Ok _, m) \<Rightarrow> pprof_reset an (b\<lparr>pp_buffer := m\<rparr>)
           | (Err e, m) \<Rightarrow> (Err e, b\<lparr>pp_buffer := m\<rparr>)
           | (Panic, m) \<Rightarrow> (Panic, b\<lparr>pp_buffer := m\<rparr>))
      | Err e \<Rightarrow> (Err e, b)
      | Panic \<Rightarrow> (Panic, b))"

text \<open>The end of \<open>report\<close>, which all three backends share: a copy of the buffer becomes the
  reports, then the buffer is cleared. The lock is taken twice.\<close>

definition copy_buffer :: "buffer_orders \<Rightarrow> stack_buffer mutex \<Rightarrow> report list presult" where
  "copy_buffer o' m = bind_res (mx_lock m) (\<lambda>b. Ok (buffer_reports o' b))"

definition clear_buffer :: "stack_buffer mutex \<Rightarrow> unit presult \<times> stack_buffer mutex" where
  "clear_buffer m =
     (case mx_lock m of
        Ok b \<Rightarrow> (Ok (), mx_store m (sb_clear b))
      | Err e \<Rightarrow> (Err e, m)
      | Panic \<Rightarrow> (Panic, m))"

text \<open>\<open>between\<close> is what other threads do to the buffer between the two.\<close>

definition take_buffer ::
    "buffer_orders \<Rightarrow> (stack_buffer mutex \<Rightarrow> stack_buffer mutex) \<Rightarrow> stack_buffer mutex
     \<Rightarrow> report list presult \<times> stack_buffer mutex" where
  "take_buffer o' between m =
     (case copy_buffer o' m of
        Ok rs \<Rightarrow>
          (case clear_buffer (between m) of
             (Ok _, m') \<Rightarrow> (Ok rs, m')
           | (Err e, m') \<Rightarrow> (Err e, m')
           | (Panic, m') \<Rightarrow> (Panic, m'))
      | Err e \<Rightarrow> (Err e, m)
      | Panic \<Rightarrow> (Panic, m))"

text \<open>All that touches the buffer of the pprof-rs backend runs under the lock of the wrapper.\<close>

definition pprof_report :: "buffer_orders \<Rightarrow> pprof_answers \<Rightarrow> pprof_backend \<Rightarrow> report list presult \<times> pprof_backend" where
  "pprof_report o' an b =
     (case pprof_dump_report o' an b of
        (Ok _, b1) \<Rightarrow> (case take_buffer o' (\<lambda>m. m) (pp_buffer b1) of (r, m) \<Rightarrow> (r, b1\<lparr>pp_buffer := m\<rparr>))
      | (Err e, b1) \<Rightarrow> (Err e, b1)
      | (Panic, b1) \<Rightarrow> (Panic, b1))"

text \<open>Before the rules change, what was sampled so far is taken with the old ones.\<close>

definition pprof_change_rules ::
    "(thread_tags_set \<Rightarrow> (bool \<times> thread_tags_set) presult) \<Rightarrow> buffer_orders \<Rightarrow> pprof_answers \<Rightarrow> pprof_backend
     \<Rightarrow> unit presult \<times> pprof_backend" where
  "pprof_change_rules change o' an b =
     (case mx_lock (pp_guard b) of
        Ok guard \<Rightarrow>
          (case if guard \<noteq> None then pprof_dump_report o' an b else (Ok (), b) of
             (Ok _, b1) \<Rightarrow>
               (case change (pp_ruleset b1) of
                  Ok (_, rules) \<Rightarrow> (Ok (), b1\<lparr>pp_ruleset := rules\<rparr>)
                | Err e \<Rightarrow> (Err e, b1)
                | Panic \<Rightarrow> (Panic, b1))
           | (Err e, b1) \<Rightarrow> (Err e, b1)
           | (Panic, b1) \<Rightarrow> (Panic, b1))
      | Err e \<Rightarrow> (Err e, b)
      | Panic \<Rightarrow> (Panic, b))"

definition pprof_add_tag :: "buffer_orders \<Rightarrow> pprof_answers \<Rightarrow> thread_tag \<Rightarrow> pprof_backend \<Rightarrow> unit presult \<times> pprof_backend" where
  "pprof_add_tag o' an t b = pprof_change_rules (\<lambda>s. tts_add s t) o' an b"

definition pprof_remove_tag :: "buffer_orders \<Rightarrow> pprof_answers \<Rightarrow> thread_tag \<Rightarrow> pprof_backend \<Rightarrow> unit presult \<times> pprof_backend" where
  "pprof_remove_tag o' an t b = pprof_change_rules (\<lambda>s. tts_remove s t) o' an b"

definition pprof_ops :: "buffer_orders \<Rightarrow> pprof_answers \<Rightarrow> pprof_backend backend_ops" where
  "pprof_ops o' an = \<lparr>bk_initialize = pprof_initialize an, bk_shutdown = pprof_shutdown,
     bk_report = pprof_report o' an, bk_add_tag = pprof_add_tag o' an, bk_remove_tag = pprof_remove_tag o' an\<rparr>"

section \<open>py-spy\<close>

record pyspy_frame =
  yf_name :: string
  yf_filename :: string
  yf_module :: "string option"
  yf_line :: i32

record pyspy_trace =
  yt_pid :: i32
  yt_thread_id :: u64
  yt_thread_name :: "string option"
  yt_active :: bool
  yt_owns_gil :: bool
  yt_frames :: "pyspy_frame list"

definition pyspy_stack_frame :: "pyspy_frame \<Rightarrow> stack_frame" where
  "pyspy_stack_frame f =
     \<lparr>sf_module = yf_module f,
      sf_name = Some (case yf_module f of Some m \<Rightarrow> m @ ''.'' @ yf_name f | None \<Rightarrow> yf_name f),
      sf_filename = Some (yf_filename f), sf_relative_path = None, sf_absolute_path = Some (yf_filename f),
      sf_line = Some (yf_line f)\<rparr>"

definition pyspy_stack_trace :: "backend_config \<Rightarrow> pyspy_trace \<Rightarrow> stack_trace" where
  "pyspy_stack_trace config t =
     st_new config (Some (yt_pid t)) (Some (ThreadId (yt_thread_id t))) (yt_thread_name t)
       (map pyspy_stack_frame (yt_frames t))"

record pyspy_config =
  yc_pid :: "i32 option"
  yc_include_idle :: bool
  yc_gil_only :: bool

record pyspy_backend =
  yb_buffer :: "stack_buffer mutex"
  yb_config :: pyspy_config
  yb_backend_config :: backend_config
  yb_sampler_thread :: bool
  yb_running :: bool
  yb_ruleset :: "thread_tags_set mutex"

definition pyspy_new :: "pyspy_config \<Rightarrow> backend_config \<Rightarrow> pyspy_backend" where
  "pyspy_new config backend_config = \<lparr>yb_buffer = mx_new sb_default, yb_config = config,
     yb_backend_config = backend_config, yb_sampler_thread = False, yb_running = False, yb_ruleset = mx_new tts_new\<rparr>"

definition pyspy_change_rules ::
    "(thread_tags_set \<Rightarrow> (bool \<times> thread_tags_set) presult) \<Rightarrow> pyspy_backend \<Rightarrow> unit presult \<times> pyspy_backend" where
  "pyspy_change_rules change b =
     (case bind_res (mx_lock (yb_ruleset b)) change of
        Ok (_, rules) \<Rightarrow> (Ok (), b\<lparr>yb_ruleset := mx_store (yb_ruleset b) rules\<rparr>)
      | Err e \<Rightarrow> (Err e, b)
      | Panic \<Rightarrow> (Panic, b))"

definition pyspy_add_tag :: "thread_tag \<Rightarrow> pyspy_backend \<Rightarrow> unit presult \<times> pyspy_backend" where
  "pyspy_add_tag t b = pyspy_change_rules (\<lambda>s. tts_add s t) b"

definition pyspy_remove_tag :: "thread_tag \<Rightarrow> pyspy_backend \<Rightarrow> unit presult \<times> pyspy_backend" where
  "pyspy_remove_tag t b = pyspy_change_rules (\<lambda>s. tts_remove s t) b"

definition pyspy_initialize :: "pyspy_backend \<Rightarrow> unit presult \<times> pyspy_backend" where
  "pyspy_initialize b =
     (if yc_pid (yb_config b) = None then (Err (pe_new ''Pyspy: No Process ID Specified''), b)
      else (Ok (), b\<lparr>yb_running := True, yb_sampler_thread := True\<rparr>))"

text \<open>One sample of the sampler thread: its traces, filtered, tagged and recorded. The thread ends
  at the first sample that finds \<open>running\<close> false.\<close>

definition pyspy_keep :: "pyspy_config \<Rightarrow> pyspy_trace \<Rightarrow> bool" where
  "pyspy_keep config t \<longleftrightarrow> (yc_include_idle config \<or> yt_active t) \<and> (yc_gil_only config \<longrightarrow> yt_owns_gil t)"

fun record_traces :: "stack_trace list \<Rightarrow> stack_buffer mutex \<Rightarrow> unit presult \<times> stack_buffer mutex" where
  "record_traces [] m = (Ok (), m)"
| "record_traces (st # sts) m =
     (case mx_lock m of
        Ok b \<Rightarrow> record_traces sts (mx_store m (sb_record b st))
      | Err e \<Rightarrow> (Err e, m)
      | Panic \<Rightarrow> (Panic, m))"

definition pyspy_traces :: "rule_order \<Rightarrow> pyspy_backend \<Rightarrow> pyspy_trace list \<Rightarrow> stack_trace list presult" where
  "pyspy_traces ord b ts =
     bind_res (mx_lock (yb_ruleset b)) (\<lambda>rules.
     Ok (map (\<lambda>t. add_tag_rules ord (pyspy_stack_trace (yb_backend_config b) t) rules)
          (filter (pyspy_keep (yb_config b)) ts)))"

definition pyspy_sample :: "rule_order \<Rightarrow> pyspy_trace list \<Rightarrow> pyspy_backend \<Rightarrow> unit presult \<times> pyspy_backend" where
  "pyspy_sample ord ts b =
     (if \<not> yb_running b then (Ok (), b)
      else
        (case pyspy_traces ord b ts of
           Ok sts \<Rightarrow> (case record_traces sts (yb_buffer b) of (r, m) \<Rightarrow> (r, b\<lparr>yb_buffer := m\<rparr>))
         | Err e \<Rightarrow> (if filter (pyspy_keep (yb_config b)) ts = [] then Ok () else Err e, b)
         | Panic \<Rightarrow> (Panic, b)))"

text \<open>\<open>joined\<close> is what the join of the sampler thread gives: its result, unless it panicked.\<close>

definition pyspy_shutdown :: "unit presult option \<Rightarrow> pyspy_backend \<Rightarrow> unit presult \<times> pyspy_backend" where
  "pyspy_shutdown joined b =
     (let b1 = b\<lparr>yb_running := False\<rparr> in
      if \<not> yb_sampler_thread b then (Err (pe_new ''Pyspy: Failed to unwrap Sampler Thread''), b1)
      else (case joined of
          None \<Rightarrow> (Err (pe_new ''Pyspy: Failed to join sampler thread''), b1)
        | Some r \<Rightarrow> (r, b1)))"

text \<open>The sampler thread may record between the two locks of the report.\<close>

definition pyspy_report ::
    "buffer_orders \<Rightarrow> pyspy_trace list \<Rightarrow> pyspy_backend \<Rightarrow> report list presult \<times> pyspy_backend" where
  "pyspy_report o' between b =
     (case take_buffer o' (\<lambda>m. yb_buffer (snd (pyspy_sample (bo_rules o') between (b\<lparr>yb_buffer := m\<rparr>)))) (yb_buffer b) of
        (r, m) \<Rightarrow> (r, b\<lparr>yb_buffer := m\<rparr>))"

section \<open>rbspy\<close>

record rbspy_frame =
  rf_name :: string
  rf_relative_path :: string
  rf_absolute_path :: "string option"
  rf_lineno :: "u64 option"

record rbspy_trace =
  rt_pid :: "i32 option"
  rt_thread_id :: "u64 option"
  rt_frames :: "rbspy_frame list"

definition rbspy_stack_frame :: "rbspy_frame \<Rightarrow> stack_frame" where
  "rbspy_stack_frame f =
     \<lparr>sf_module = None, sf_name = Some (rf_name f), sf_filename = Some (rf_relative_path f),
      sf_relative_path = Some (rf_relative_path f), sf_absolute_path = rf_absolute_path f,
      sf_line = map_option ucast (rf_lineno f)\<rparr>"

definition rbspy_stack_trace :: "backend_config \<Rightarrow> rbspy_trace \<Rightarrow> stack_trace" where
  "rbspy_stack_trace config t =
     st_new config (rt_pid t) (map_option ThreadId (rt_thread_id t)) None (map rbspy_stack_frame (rt_frames t))"

record rbspy_backend =
  rb_sample_rate :: u32
  rb_backend_config :: backend_config
  rb_sampling :: bool
  rb_error_receiver :: bool
  rb_buffer :: "stack_buffer mutex"
  rb_ruleset :: thread_tags_set
  rb_queue_size :: "u64 option"

definition rbspy_new :: "u32 \<Rightarrow> backend_config \<Rightarrow> rbspy_backend" where
  "rbspy_new sample_rate config = \<lparr>rb_sample_rate = sample_rate, rb_backend_config = config, rb_sampling = False,
     rb_error_receiver = False, rb_buffer = mx_new sb_default, rb_ruleset = tts_new, rb_queue_size = None\<rparr>"

definition rbspy_change_rules ::
    "(thread_tags_set \<Rightarrow> (bool \<times> thread_tags_set) presult) \<Rightarrow> rbspy_backend \<Rightarrow> unit presult \<times> rbspy_backend" where
  "rbspy_change_rules change b =
     (case change (rb_ruleset b) of
        Ok (_, rules) \<Rightarrow> (Ok (), b\<lparr>rb_ruleset := rules\<rparr>)
      | Err e \<Rightarrow> (Err e, b)
      | Panic \<Rightarrow> (Panic, b))"

definition rbspy_add_tag :: "thread_tag \<Rightarrow> rbspy_backend \<Rightarrow> unit presult \<times> rbspy_backend" where
  "rbspy_add_tag t b = rbspy_change_rules (\<lambda>s. tts_add s t) b"

definition rbspy_remove_tag :: "thread_tag \<Rightarrow> rbspy_backend \<Rightarrow> unit presult \<times> rbspy_backend" where
  "rbspy_remove_tag t b = rbspy_change_rules (\<lambda>s. tts_remove s t) b"

text \<open>\<open>started\<close> is the outcome of the start of rbspy's sampler.\<close>

definition rbspy_initialize :: "(unit, string) res \<Rightarrow> rbspy_backend \<Rightarrow> unit presult \<times> rbspy_backend" where
  "rbspy_initialize started b =
     (let b1 = b\<lparr>rb_error_receiver := True, rb_queue_size := Some (ucast (rb_sample_rate b) * 10 * 100)\<rparr> in
      case started of
        Ok _ \<Rightarrow> (Ok (), b1\<lparr>rb_sampling := True\<rparr>)
      | Err e \<Rightarrow> (Err (pe_new (''Rbspy: Sampler Error: '' @ e)), b1)
      | Panic \<Rightarrow> (Panic, b1))"

text \<open>The thread that receives the traces; it ends when the sampler has closed the channel.\<close>

definition rbspy_receive :: "rule_order \<Rightarrow> rbspy_trace list \<Rightarrow> rbspy_backend \<Rightarrow> unit presult \<times> rbspy_backend" where
  "rbspy_receive ord ts b =
     (case record_traces (map (\<lambda>t. add_tag_rules ord (rbspy_stack_trace (rb_backend_config b) t) (rb_ruleset b)) ts) (rb_buffer b) of
        (r, m) \<Rightarrow> (r, b\<lparr>rb_buffer := m\<rparr>))"

definition rbspy_shutdown :: "rbspy_backend \<Rightarrow> unit presult \<times> rbspy_backend" where
  "rbspy_shutdown b = (Ok (), b\<lparr>rb_sampling := False\<rparr>)"

definition rbspy_report ::
    "buffer_orders \<Rightarrow> rbspy_trace list \<Rightarrow> rbspy_backend \<Rightarrow> report list presult \<times> rbspy_backend" where
  "rbspy_report o' between b =
     (case take_buffer o' (\<lambda>m. rb_buffer (snd (rbspy_receive (bo_rules o') between (b\<lparr>rb_buffer := m\<rparr>)))) (rb_buffer b) of
        (r, m) \<Rightarrow> (r, b\<lparr>rb_buffer := m\<rparr>))"

text \<open>The two as backends; as before the outcomes of the other crates are given.\<close>

definition pyspy_ops ::
    "buffer_orders \<Rightarrow> pyspy_trace list \<Rightarrow> unit presult option \<Rightarrow> pyspy_backend backend_ops" where
  "pyspy_ops o' between joined = \<lparr>bk_initialize = pyspy_initialize, bk_shutdown = (\<lambda>b. fst (pyspy_shutdown joined b)),
     bk_report = pyspy_report o' between, bk_add_tag = pyspy_add_tag, bk_remove_tag = pyspy_remove_tag\<rparr>"

definition rbspy_ops ::
    "buffer_orders \<Rightarrow> rbspy_trace list \<Rightarrow> (unit, string) res \<Rightarrow> rbspy_backend backend_ops" where
  "rbspy_ops o' between started = \<lparr>bk_initialize = rbspy_initialize started, bk_shutdown = (\<lambda>b. fst (rbspy_shutdown b)),
     bk_report = rbspy_report o' between, bk_add_tag = rbspy_add_tag, bk_remove_tag = rbspy_remove_tag\<rparr>"

end
