(* ===== verification/BackendsCorrect.thy ===== *)
theory BackendsCorrect
  imports Backends
begin

text \<open>
  What the backends promise: every report hands over exactly what was recorded, the interface
  \<open>report_source\<close> holds for all three, and what happens to traces that are recorded while a report
  is being taken.
\<close>

section \<open>Recording\<close>

definition buffer_ok :: "stack_buffer mutex \<Rightarrow> bool" where
  "buffer_ok m \<longleftrightarrow> \<not> mx_poisoned m \<and> sb_wf (mx_value m)"

definition buffer_count :: "stack_buffer mutex \<Rightarrow> stack_trace \<Rightarrow> usize" where
  "buffer_count m = sb_count (mx_value m)"

definition ones :: "stack_trace list \<Rightarrow> (stack_trace \<times> usize) list" where
  "ones sts = map (\<lambda>st. (st, 1)) sts"

lemma record_all_ok:
  "buffer_ok m \<Longrightarrow> \<exists>m'. record_all es m = (Ok (), m') \<and> buffer_ok m'
    \<and> (\<forall>st. buffer_count m' st = buffer_count m st + entry_count es st)"
proof (induction es m rule: record_all.induct)
  case (1 m)
  then show ?case by simp
next
  case (2 s c es m)
  let ?m = "mx_store m (sb_record_with_count (mx_value m) s c)"
  have ok: "buffer_ok ?m" and lock: "mx_lock m = Ok (mx_value m)"
    using 2(2) by (simp_all add: buffer_ok_def)
  from 2(1) [OF lock ok] obtain m' where "record_all es ?m = (Ok (), m')" "buffer_ok m'"
    "buffer_count m' st = buffer_count ?m st + entry_count es st" for st by auto
  with lock show ?case by (auto simp: buffer_count_def algebra_simps)
qed

lemma record_traces_all: "record_traces sts m = record_all (ones sts) m"
  by (induction sts m rule: record_traces.induct) (auto simp: ones_def sb_record_as_count split: res.split)

lemma take_buffer_ok:
  assumes "orders_ok o'" and "buffer_ok m" and "take_buffer o' between m = (Ok rs, m')"
  shows "reported rs = buffer_count m" and "buffer_ok m'" and "buffer_count m' = (\<lambda>_. 0)"
proof -
  from assms(2,3) have rs: "rs = buffer_reports o' (mx_value m)"
    and m': "clear_buffer (between m) = (Ok (), m')"
    by (auto simp: take_buffer_def copy_buffer_def buffer_ok_def split: prod.splits res.splits)
  show "reported rs = buffer_count m"
    using assms(1,2) by (simp add: rs buffer_reports_def orders_ok_def buffer_ok_def buffer_count_def reported_buffer)
  show "buffer_ok m'" "buffer_count m' = (\<lambda>_. 0)"
    using m' by (auto simp: clear_buffer_def mx_lock_def buffer_ok_def buffer_count_def split: if_splits)
qed

section \<open>pprof-rs\<close>

definition pprof_inv :: "pprof_backend \<Rightarrow> bool" where
  "pprof_inv b \<longleftrightarrow> buffer_ok (pp_buffer b)"

definition pprof_pending :: "pprof_backend \<Rightarrow> stack_trace \<Rightarrow> usize" where
  "pprof_pending b = buffer_count (pp_buffer b)"

type_synonym pprof_turn = "buffer_orders \<times> pprof_answers"

definition pprof_cycle :: "pprof_turn \<Rightarrow> pprof_backend \<Rightarrow> report list presult \<times> pprof_backend" where
  "pprof_cycle = (\<lambda>(o', an) b. pprof_report o' an b)"

text \<open>What pprof-rs counted for the traces, under the rules and the configuration of the moment.\<close>

definition pprof_arrives :: "pprof_turn \<Rightarrow> pprof_backend \<Rightarrow> stack_trace \<Rightarrow> usize" where
  "pprof_arrives = (\<lambda>(o', an) b st.
     case pa_report an of
       Ok data \<Rightarrow> entry_count (map (\<lambda>(k, v).
           (add_tag_rules (bo_rules o') (pprof_stack_trace (pp_config b) k) (pp_ruleset b), v)) data) st
     | _ \<Rightarrow> 0)"

text \<open>The conversion must keep the report's keys apart: by thread, thread name or converted frames.\<close>

definition pprof_key :: "pprof_frames \<Rightarrow> u64 \<times> string \<times> stack_frame list" where
  "pprof_key fr = (px_thread_id fr, px_thread_name fr, map pprof_stack_frame (concat (px_frames fr)))"

definition pprof_turn_ok :: "pprof_turn \<Rightarrow> bool" where
  "pprof_turn_ok = (\<lambda>(o', an). orders_ok o'
     \<and> (case pa_report an of Ok data \<Rightarrow> distinct (map (\<lambda>p. pprof_key (fst p)) data) | _ \<Rightarrow> True))"

lemma distinct_map_image:
  assumes "distinct (map f xs)" and "\<And>x. f x = g (h x)"
  shows "distinct (map h xs)"
  using assms by (auto simp: distinct_map inj_on_def)

lemma pprof_tagged_count:
  assumes "orders_ok o'" and "distinct (map (\<lambda>p. pprof_key (fst p)) data)"
  shows "entry_count (pprof_tagged o' config rules data) st = entry_count (map (\<lambda>(k, v).
    (add_tag_rules (bo_rules o') (pprof_stack_trace config k) rules, v)) data) st"
proof -
  let ?conv = "\<lambda>(k, v :: i64). (pprof_stack_trace config k, v)"
    and ?tag = "\<lambda>(s, v :: i64). (add_tag_rules (bo_rules o') s rules, v)"
  let ?key = "\<lambda>s. (case st_thread_id s of Some t \<Rightarrow> pthread t, case st_thread_name s of Some n \<Rightarrow> n, st_frames s)"
  have "distinct (map (\<lambda>p. fst (?conv p)) data)"
    using assms(2) by (rule distinct_map_image [where g = ?key])
      (auto simp: pprof_key_def pprof_stack_trace_def split: prod.split)
  then have c: "hm_collect (map ?conv data) = map ?conv data"
    by (intro hm_collect_distinct) (simp add: comp_def)
  let ?es = "bo_entries o' (map ?conv data)"
  have perm: "mset ?es = mset (map ?conv data)" using assms(1) by (simp add: orders_ok_def fair_order_def)
  have "mset (map (\<lambda>p. ?key (fst (?tag p))) ?es) = image_mset (\<lambda>p. ?key (fst (?tag p))) (mset (map ?conv data))"
    by (simp add: perm)
  also have "\<dots> = mset (map (\<lambda>p. pprof_key (fst p)) data)"
    by (simp add: image_mset.compositionality comp_def pprof_key_def pprof_stack_trace_def case_prod_unfold)
  finally have "distinct (map (\<lambda>p. ?key (fst (?tag p))) ?es)"
    using assms(2) mset_eq_imp_distinct_iff by blast
  then have "distinct (map (\<lambda>p. fst (?tag p)) ?es)"
    by (rule distinct_map_image [where g = ?key]) simp
  then have "hm_collect (map ?tag ?es) = map ?tag ?es"
    by (intro hm_collect_distinct) (simp add: comp_def)
  then have "pprof_tagged o' config rules data = map ?tag ?es"
    by (simp add: pprof_tagged_def pprof_stack_buffer_def sb_new_def c)
  moreover have "mset (map ?tag ?es) = image_mset ?tag (mset (map ?conv data))"
    by (simp only: mset_map perm)
  then have "mset (map ?tag ?es) = mset (map (\<lambda>(k, v).
      (add_tag_rules (bo_rules o') (pprof_stack_trace config k) rules, v)) data)"
    by (simp add: image_mset.compositionality comp_def case_prod_unfold)
  ultimately show ?thesis by (simp add: entry_count_mset)
qed

lemma pprof_build_guard_buffer:
  "pprof_build_guard an b = (r, b') \<Longrightarrow> pp_buffer b' = pp_buffer b \<and> pp_ruleset b' = pp_ruleset b \<and> pp_config b' = pp_config b"
  by (auto simp: pprof_build_guard_def split: res.splits)

lemma pprof_reset_buffer:
  "pprof_reset an b = (r, b') \<Longrightarrow> pp_buffer b' = pp_buffer b \<and> pp_ruleset b' = pp_ruleset b \<and> pp_config b' = pp_config b"
  by (auto simp: pprof_reset_def dest: pprof_build_guard_buffer split: res.splits)

lemma pprof_dump_report_ok:
  assumes "pprof_turn_ok (o', an)" and "pprof_inv b" and "pprof_dump_report o' an b = (Ok (), b')"
  shows "pprof_inv b'" "pprof_pending b' st = pprof_pending b st + pprof_arrives (o', an) b st"
    "pp_ruleset b' = pp_ruleset b"
proof -
  from assms(3) obtain data where g: "bind_res (mx_lock (pp_guard b)) (\<lambda>guard.
      bind_res (ok_or (pe_new ''pprof-rs: ProfilerGuard report error'') guard) (\<lambda>_. map_err pe_new (pa_report an))) = Ok data"
    by (auto simp: pprof_dump_report_def split: res.splits prod.splits)
  then have data: "pa_report an = Ok data" by (auto simp: bind_res_eq_Ok map_err_eq_Ok)
  let ?es = "bo_entries o' (pprof_tagged o' (pp_config b) (pp_ruleset b) data)"
  from record_all_ok [of "pp_buffer b" ?es] assms(2) obtain m where
    m: "record_all ?es (pp_buffer b) = (Ok (), m)" "buffer_ok m"
    "buffer_count m st = buffer_count (pp_buffer b) st + entry_count ?es st" for st
    by (auto simp: pprof_inv_def)
  have "pprof_reset an (b\<lparr>pp_buffer := m\<rparr>) = (Ok (), b')"
    using assms(3) unfolding pprof_dump_report_def g by (simp add: m(1))
  from pprof_reset_buffer [OF this] have b': "pp_buffer b' = m" "pp_ruleset b' = pp_ruleset b" by simp_all
  show "pprof_inv b'" "pp_ruleset b' = pp_ruleset b" using b' m(2) by (simp_all add: pprof_inv_def)
  show "pprof_pending b' st = pprof_pending b st + pprof_arrives (o', an) b st"
    using m(3) b' data assms(1) pprof_tagged_count
    by (simp add: pprof_pending_def pprof_arrives_def entry_count_fair orders_ok_def pprof_turn_ok_def)
qed

interpretation pp: report_source pprof_turn_ok pprof_inv pprof_pending pprof_arrives pprof_cycle
proof
  fix e :: pprof_turn and b rs b'
  obtain o' an where e: "e = (o', an)" by (cases e)
  assume turn: "pprof_turn_ok e" and inv: "pprof_inv b" and r: "pprof_cycle e b = (Ok rs, b')"
  then have ok: "orders_ok o'" by (simp add: e pprof_turn_ok_def)
  from r obtain b1 m where d: "pprof_dump_report o' an b = (Ok (), b1)"
    and t: "take_buffer o' (\<lambda>m. m) (pp_buffer b1) = (Ok rs, m)" and b': "b' = b1\<lparr>pp_buffer := m\<rparr>"
    by (auto simp: e pprof_cycle_def pprof_report_def split: res.splits prod.splits)
  note dump = pprof_dump_report_ok [OF turn [unfolded e] inv d]
  from dump(1) have "buffer_ok (pp_buffer b1)" by (simp add: pprof_inv_def)
  note take = take_buffer_ok [OF ok this t]
  show "pprof_inv b' \<and> pprof_pending b' = (\<lambda>_. 0)
      \<and> (\<forall>st. reported rs st = pprof_pending b st + pprof_arrives e b st)"
    using take dump(2) by (simp add: b' e pprof_inv_def pprof_pending_def)
qed

section \<open>py-spy\<close>

definition pyspy_inv :: "pyspy_backend \<Rightarrow> bool" where
  "pyspy_inv b \<longleftrightarrow> buffer_ok (yb_buffer b) \<and> \<not> mx_poisoned (yb_ruleset b)"

definition pyspy_pending :: "pyspy_backend \<Rightarrow> stack_trace \<Rightarrow> usize" where
  "pyspy_pending b = buffer_count (yb_buffer b)"

text \<open>Samples of the sampler thread, a report, and in the middle of it more samples.\<close>

type_synonym pyspy_turn = "buffer_orders \<times> pyspy_trace list \<times> pyspy_trace list"

definition pyspy_cycle :: "pyspy_turn \<Rightarrow> pyspy_backend \<Rightarrow> report list presult \<times> pyspy_backend" where
  "pyspy_cycle = (\<lambda>(o', before, between) b. pyspy_report o' between (snd (pyspy_sample (bo_rules o') before b)))"

definition pyspy_recorded :: "rule_order \<Rightarrow> pyspy_trace list \<Rightarrow> pyspy_backend \<Rightarrow> stack_trace list" where
  "pyspy_recorded ord ts b =
     (if yb_running b then map (\<lambda>t. add_tag_rules ord (pyspy_stack_trace (yb_backend_config b) t) (mx_value (yb_ruleset b)))
        (filter (pyspy_keep (yb_config b)) ts) else [])"

definition pyspy_arrives :: "pyspy_turn \<Rightarrow> pyspy_backend \<Rightarrow> stack_trace \<Rightarrow> usize" where
  "pyspy_arrives = (\<lambda>(o', before, _) b. entry_count (ones (pyspy_recorded (bo_rules o') before b)))"

lemma pyspy_sample_ok:
  assumes "pyspy_inv b"
  shows "\<exists>m. pyspy_sample ord ts b = (Ok (), b\<lparr>yb_buffer := m\<rparr>) \<and> buffer_ok m
    \<and> (\<forall>st. buffer_count m st = buffer_count (yb_buffer b) st + entry_count (ones (pyspy_recorded ord ts b)) st)"
proof (cases "yb_running b")
  case False
  with assms show ?thesis
    by (intro exI [of _ "yb_buffer b"]) (simp add: pyspy_sample_def pyspy_recorded_def pyspy_inv_def ones_def)
next
  case True
  then have t: "pyspy_traces ord b ts = Ok (pyspy_recorded ord ts b)"
    using assms by (simp add: pyspy_traces_def pyspy_inv_def pyspy_recorded_def)
  from record_all_ok [of "yb_buffer b" "ones (pyspy_recorded ord ts b)"] assms obtain m where
    "record_traces (pyspy_recorded ord ts b) (yb_buffer b) = (Ok (), m)" "buffer_ok m"
    "\<forall>st. buffer_count m st = buffer_count (yb_buffer b) st + entry_count (ones (pyspy_recorded ord ts b)) st"
    by (auto simp: pyspy_inv_def record_traces_all)
  with True t show ?thesis by (auto simp: pyspy_sample_def)
qed

lemma pyspy_report_ok:
  assumes "orders_ok o'" and "pyspy_inv b" and "pyspy_report o' between b = (Ok rs, b')"
  shows "reported rs = pyspy_pending b" "pyspy_pending b' = (\<lambda>_. 0)" "pyspy_inv b'"
  using assms take_buffer_ok [OF assms(1), of "yb_buffer b"]
  by (auto simp: pyspy_report_def pyspy_inv_def pyspy_pending_def split: prod.splits)

interpretation ys: report_source "\<lambda>(o', _). orders_ok o'" pyspy_inv pyspy_pending pyspy_arrives pyspy_cycle
proof
  fix e :: pyspy_turn and b rs b'
  obtain o' before between where e: "e = (o', before, between)" by (cases e)
  assume "case e of (o', _) \<Rightarrow> orders_ok o'" and inv: "pyspy_inv b" and r: "pyspy_cycle e b = (Ok rs, b')"
  then have ok: "orders_ok o'" by (simp add: e)
  from pyspy_sample_ok [OF inv, of "bo_rules o'" before] obtain m where
    s: "pyspy_sample (bo_rules o') before b = (Ok (), b\<lparr>yb_buffer := m\<rparr>)" "buffer_ok m"
    "\<forall>st. buffer_count m st = pyspy_pending b st + pyspy_arrives e b st"
    by (auto simp: e pyspy_arrives_def pyspy_pending_def)
  have "pyspy_inv (b\<lparr>yb_buffer := m\<rparr>)" using inv s(2) by (simp add: pyspy_inv_def)
  from pyspy_report_ok [OF ok this] r s show "pyspy_inv b' \<and> pyspy_pending b' = (\<lambda>_. 0)
      \<and> (\<forall>st. reported rs st = pyspy_pending b st + pyspy_arrives e b st)"
    by (simp add: e pyspy_cycle_def) (simp add: pyspy_pending_def)
qed

section \<open>rbspy\<close>

definition rbspy_inv :: "rbspy_backend \<Rightarrow> bool" where
  "rbspy_inv b \<longleftrightarrow> buffer_ok (rb_buffer b)"

definition rbspy_pending :: "rbspy_backend \<Rightarrow> stack_trace \<Rightarrow> usize" where
  "rbspy_pending b = buffer_count (rb_buffer b)"

type_synonym rbspy_turn = "buffer_orders \<times> rbspy_trace list \<times> rbspy_trace list"

definition rbspy_cycle :: "rbspy_turn \<Rightarrow> rbspy_backend \<Rightarrow> report list presult \<times> rbspy_backend" where
  "rbspy_cycle = (\<lambda>(o', before, between) b. rbspy_report o' between (snd (rbspy_receive (bo_rules o') before b)))"

definition rbspy_recorded :: "rule_order \<Rightarrow> rbspy_trace list \<Rightarrow> rbspy_backend \<Rightarrow> stack_trace list" where
  "rbspy_recorded ord ts b = map (\<lambda>t. add_tag_rules ord (rbspy_stack_trace (rb_backend_config b) t) (rb_ruleset b)) ts"

definition rbspy_arrives :: "rbspy_turn \<Rightarrow> rbspy_backend \<Rightarrow> stack_trace \<Rightarrow> usize" where
  "rbspy_arrives = (\<lambda>(o', before, _) b. entry_count (ones (rbspy_recorded (bo_rules o') before b)))"

lemma rbspy_receive_ok:
  assumes "rbspy_inv b"
  shows "\<exists>m. rbspy_receive ord ts b = (Ok (), b\<lparr>rb_buffer := m\<rparr>) \<and> buffer_ok m
    \<and> (\<forall>st. buffer_count m st = buffer_count (rb_buffer b) st + entry_count (ones (rbspy_recorded ord ts b)) st)"
proof -
  from record_all_ok [of "rb_buffer b" "ones (rbspy_recorded ord ts b)"] assms obtain m where
    "record_traces (rbspy_recorded ord ts b) (rb_buffer b) = (Ok (), m)" "buffer_ok m"
    "\<forall>st. buffer_count m st = buffer_count (rb_buffer b) st + entry_count (ones (rbspy_recorded ord ts b)) st"
    by (auto simp: rbspy_inv_def record_traces_all)
  then show ?thesis by (auto simp: rbspy_receive_def rbspy_recorded_def)
qed

lemma rbspy_report_ok:
  assumes "orders_ok o'" and "rbspy_inv b" and "rbspy_report o' between b = (Ok rs, b')"
  shows "reported rs = rbspy_pending b" "rbspy_pending b' = (\<lambda>_. 0)" "rbspy_inv b'"
  using assms take_buffer_ok [OF assms(1), of "rb_buffer b"]
  by (auto simp: rbspy_report_def rbspy_inv_def rbspy_pending_def split: prod.splits)

interpretation rs: report_source "\<lambda>(o', _). orders_ok o'" rbspy_inv rbspy_pending rbspy_arrives rbspy_cycle
proof
  fix e :: rbspy_turn and b rs b'
  obtain o' before between where e: "e = (o', before, between)" by (cases e)
  assume "case e of (o', _) \<Rightarrow> orders_ok o'" and inv: "rbspy_inv b" and r: "rbspy_cycle e b = (Ok rs, b')"
  then have ok: "orders_ok o'" by (simp add: e)
  from rbspy_receive_ok [OF inv, of "bo_rules o'" before] obtain m where
    s: "rbspy_receive (bo_rules o') before b = (Ok (), b\<lparr>rb_buffer := m\<rparr>)" "buffer_ok m"
    "\<forall>st. buffer_count m st = rbspy_pending b st + rbspy_arrives e b st"
    by (auto simp: e rbspy_arrives_def rbspy_pending_def)
  have "rbspy_inv (b\<lparr>rb_buffer := m\<rparr>)" using inv s(2) by (simp add: rbspy_inv_def)
  from rbspy_report_ok [OF ok this] r s show "rbspy_inv b' \<and> rbspy_pending b' = (\<lambda>_. 0)
      \<and> (\<forall>st. reported rs st = rbspy_pending b st + rbspy_arrives e b st)"
    by (simp add: e rbspy_cycle_def) (simp add: rbspy_pending_def)
qed

section \<open>Properties\<close>


definition ex_orders :: buffer_orders where
  "ex_orders = \<lparr>bo_hash = (\<lambda>md. word_of_nat (length (md_tags md))), bo_entries = rev, bo_reports = (\<lambda>m. m),
     bo_rules = (\<lambda>rs. rs)\<rparr>"

lemma ex_orders_ok: "orders_ok ex_orders"
  by (simp add: orders_ok_def ex_orders_def rule_order_ok_def)

definition ex_frames :: "u64 \<Rightarrow> pprof_frames" where
  "ex_frames tid = \<lparr>px_frames = [[\<lparr>py_symbol_name = ''f'', py_filename = Some (map byte [47, 97, 47, 98]), py_lineno = Some 3\<rparr>]],
     px_thread_name = ''t'', px_thread_id = tid\<rparr>"

definition ex_answers :: pprof_answers where
  "ex_answers = \<lparr>pa_report = Ok [(ex_frames 1, 3), (ex_frames 2, 4)], pa_build = Ok ()\<rparr>"

definition ex_pprof :: pprof_backend where
  "ex_pprof = snd (pprof_initialize ex_answers (pprof_new 100 bc_default))"

definition ex_pyspy_trace :: pyspy_trace where
  "ex_pyspy_trace = \<lparr>yt_pid = 1, yt_thread_id = 2, yt_thread_name = None, yt_active = True, yt_owns_gil = True,
     yt_frames = [\<lparr>yf_name = ''f'', yf_filename = ''a.py'', yf_module = Some ''m'', yf_line = 3\<rparr>]\<rparr>"

definition ex_pyspy :: pyspy_backend where
  "ex_pyspy = snd (pyspy_initialize (pyspy_new \<lparr>yc_pid = Some 1, yc_include_idle = False, yc_gil_only = True\<rparr> bc_default))"

definition ex_rbspy_trace :: rbspy_trace where
  "ex_rbspy_trace = \<lparr>rt_pid = None, rt_thread_id = Some 2,
     rt_frames = [\<lparr>rf_name = ''f'', rf_relative_path = ''a.rb'', rf_absolute_path = None, rf_lineno = Some 3\<rparr>]\<rparr>"

definition ex_rbspy :: rbspy_backend where
  "ex_rbspy = snd (rbspy_initialize (Ok ()) (rbspy_new 100 bc_default))"

lemma ex_backends:
  "pprof_turn_ok (ex_orders, ex_answers)" "pprof_inv ex_pprof" "pyspy_inv ex_pyspy" "rbspy_inv ex_rbspy"
proof -
  show "pprof_turn_ok (ex_orders, ex_answers)"
    using ex_orders_ok by (simp add: pprof_turn_ok_def ex_answers_def pprof_key_def ex_frames_def)
  show "pprof_inv ex_pprof"
    by (simp add: pprof_inv_def ex_pprof_def pprof_initialize_def pprof_new_def pprof_build_guard_def ex_answers_def
        buffer_ok_def)
  show "pyspy_inv ex_pyspy"
    by (simp add: pyspy_inv_def ex_pyspy_def pyspy_initialize_def pyspy_new_def buffer_ok_def)
  show "rbspy_inv ex_rbspy"
    by (simp add: rbspy_inv_def ex_rbspy_def rbspy_initialize_def rbspy_new_def buffer_ok_def Let_def)
qed


text \<open>C30: the reports of py-spy and rbspy lock the buffer twice, for the copy and for the clearing:
  whatever the sampler's thread records between the two is neither in the reports nor in the
  buffer afterwards.\<close>
theorem report_race_loses:
  assumes "orders_ok o'" and "pyspy_inv b" and "pyspy_report o' between b = (Ok rs, b')"
    and "rbspy_inv c" and "rbspy_report o' meanwhile c = (Ok rs', c')"
  shows "reported rs = pyspy_pending b \<and> pyspy_pending b' = (\<lambda>_. 0)
    \<and> reported rs' = rbspy_pending c \<and> rbspy_pending c' = (\<lambda>_. 0)"
  using pyspy_report_ok [OF assms(1-3)] rbspy_report_ok [OF assms(1,4,5)] by simp

lemma report_race_loses_witness:
  "\<exists>rs b' rs' c'. pyspy_report ex_orders [ex_pyspy_trace] ex_pyspy = (Ok rs, b')
    \<and> rbspy_report ex_orders [ex_rbspy_trace] ex_rbspy = (Ok rs', c')
    \<and> reported rs = (\<lambda>_. 0) \<and> pyspy_pending b' = (\<lambda>_. 0) \<and> reported rs' = (\<lambda>_. 0) \<and> rbspy_pending c' = (\<lambda>_. 0)"
proof -
  have "is_ok (fst (pyspy_report ex_orders [ex_pyspy_trace] ex_pyspy))" by code_simp
  moreover have "is_ok (fst (rbspy_report ex_orders [ex_rbspy_trace] ex_rbspy))" by code_simp
  ultimately obtain rs b' rs' c' where r: "pyspy_report ex_orders [ex_pyspy_trace] ex_pyspy = (Ok rs, b')"
    "rbspy_report ex_orders [ex_rbspy_trace] ex_rbspy = (Ok rs', c')"
    by (cases "pyspy_report ex_orders [ex_pyspy_trace] ex_pyspy"; cases "rbspy_report ex_orders [ex_rbspy_trace] ex_rbspy")
      (auto simp: is_ok_iff)
  have "pyspy_pending ex_pyspy = (\<lambda>_. 0)" "rbspy_pending ex_rbspy = (\<lambda>_. 0)"
    by (auto simp: pyspy_pending_def rbspy_pending_def buffer_count_def ex_pyspy_def ex_rbspy_def pyspy_initialize_def
        rbspy_initialize_def pyspy_new_def rbspy_new_def Let_def)
  with report_race_loses [OF ex_orders_ok ex_backends(3) r(1) ex_backends(4) r(2)] r show ?thesis by metis
qed



end
