(* ===== verification/Agent.thy ===== *)
theory Agent
  imports Session Timer BackendsCorrect
begin

text \<open>
  The agent (\<open>src/pyroscope.rs\<close>): its construction, start, stop and shutdown, its main thread,
  and the machine that the agent, the timer's thread and the session manager form together. A run
  is a list of events, each a step of one thread or a call of the agent's owner.
\<close>

section \<open>Access to the backend\<close>

text \<open>The main thread and the tag functions open the backend's mutex themselves, with an error of
  their own.\<close>

definition no_backend :: pyroscope_error where
  "no_backend = AdHoc ''PyroscopeAgent - Failed to unwrap backend''"

definition with_backend :: "('b \<Rightarrow> 'a presult \<times> 'b) \<Rightarrow> 'b backend_impl \<Rightarrow> 'a presult \<times> 'b backend_impl" where
  "with_backend oper m =
     (case bind_res (mx_lock m) (ok_or no_backend) of
        Ok b \<Rightarrow> (case oper b of (r, b') \<Rightarrow> (r, Mutex (r = Panic) (Some b')))
      | Err e \<Rightarrow> (Err e, m)
      | Panic \<Rightarrow> (Panic, m))"

lemma with_backend_open [simp]:
  "with_backend oper (Mutex False (Some b)) = (case oper b of (r, b') \<Rightarrow> (r, Mutex (r = Panic) (Some b')))"
  by (simp add: with_backend_def)

section \<open>The session manager's thread\<close>

text \<open>Its channel has room for ten signals. \<open>mg_tried\<close> records the sessions it has taken up.\<close>

record manager =
  mg_queue :: "session_signal list"
  mg_end :: manager_end
  mg_tried :: "session list"

definition manager_new :: manager where
  "manager_new = \<lparr>mg_queue = [], mg_end = ManagerWaiting, mg_tried = []\<rparr>"

text \<open>The outcome of a send: done, refused because the thread has ended, or to wait for room.\<close>

datatype push_outcome = Pushed | PushRefused | PushWaits

definition manager_push :: "session_signal \<Rightarrow> manager \<Rightarrow> push_outcome \<times> manager" where
  "manager_push g m =
     (if mg_end m \<noteq> ManagerWaiting then (PushRefused, m)
      else if length (mg_queue m) < 10 then (Pushed, m\<lparr>mg_queue := mg_queue m @ [g]\<rparr>)
      else (PushWaits, m))"

definition manager_turn :: "(session \<Rightarrow> unit presult) \<Rightarrow> manager \<Rightarrow> manager" where
  "manager_turn push m =
     (if mg_end m \<noteq> ManagerWaiting then m
      else case mg_queue m of
          [] \<Rightarrow> m
        | SendSession s # q \<Rightarrow>
            m\<lparr>mg_queue := q, mg_tried := mg_tried m @ [s],
              mg_end := (if push s = Panic then ManagerPanicked else ManagerWaiting)\<rparr>
        | KillManager # q \<Rightarrow> m\<lparr>mg_queue := q, mg_end := ManagerKilled\<rparr>)"

section \<open>The agent\<close>

datatype main_phase = MainRecv | MainPush session | MainEnded "unit presult"

fun main_done :: "main_phase \<Rightarrow> bool" where
  "main_done (MainEnded r) = True"
| "main_done _ = False"

text \<open>What the owner of the agent does: it holds a ready or a running agent (the type states
  of the code), waits in \<open>stop\<close>, is at one of the places of \<open>shutdown\<close>, or has used up the agent.\<close>

datatype owner_phase = OwnerReady | OwnerRunning | StopWaits | ShutdownDrops | ShutdownJoinsTimer | ShutdownKills
  | ShutdownJoinsManager | ShutdownJoinsMain | OwnerGone | OwnerLost pyroscope_error | OwnerPanicked

text \<open>\<open>as_rx\<close> is the channel of the main thread that runs or has run last. The histories
  \<open>as_made\<close> and \<open>as_arrived\<close> record the sessions made and what was sampled for their reports.\<close>

record ('b, 'p, 'k) agent_sys =
  as_ticker :: "('p, 'k) timer_sys"
  as_manager :: manager
  as_backend :: "'b backend_impl"
  as_config :: pyroscope_config
  as_tx :: "nat option"
  as_handle :: bool
  as_running :: "bool mutex"
  as_rx :: nat
  as_main :: main_phase
  as_owner :: owner_phase
  as_made :: "session list"
  as_arrived :: "stack_trace \<Rightarrow> usize"

abbreviation as_chans :: "('b, 'p, 'k) agent_sys \<Rightarrow> channels" where
  "as_chans s \<equiv> ts_chans (as_ticker s)"

abbreviation as_inbox :: "('b, 'p, 'k) agent_sys \<Rightarrow> timer_signal list" where
  "as_inbox s \<equiv> ch_queue (as_chans s (as_rx s))"

definition set_chan :: "nat \<Rightarrow> channel \<Rightarrow> ('b, 'p, 'k) agent_sys \<Rightarrow> ('b, 'p, 'k) agent_sys" where
  "set_chan c q s = s\<lparr>as_ticker := (as_ticker s)\<lparr>ts_chans := (as_chans s)(c := q)\<rparr>\<rparr>"

text \<open>\<open>PyroscopeAgentBuilder::build\<close>, with the timer for Linux. All channels are closed at first;
  the manager's thread starts to wait.\<close>

definition ten_seconds :: duration where
  "ten_seconds = \<lparr>du_secs = 10, du_nanos = 0\<rparr>"

definition agent_build ::
    "'b backend_ops \<Rightarrow> 'k timer_env \<Rightarrow> nat \<Rightarrow> 'b agent_builder \<Rightarrow> 'k
     \<Rightarrow> (('b, timer_phase, 'k) agent_sys \<times> int \<times> int) presult option" where
  "agent_build ops env dummy b k =
     (case bi_initialize ops (ab_backend b) of
        (Ok _, backend_ready) \<Rightarrow>
          (case epoll_initialize env ten_seconds dummy k of
             None \<Rightarrow> None
           | Some (Ok (timer, phase, timer_fd, epoll_fd), k') \<Rightarrow>
               Some (Ok (\<lparr>as_ticker = \<lparr>ts_timer = timer, ts_phase = phase,
                            ts_chans = (\<lambda>_. \<lparr>ch_queue = [], ch_connected = False\<rparr>), ts_kernel = k'\<rparr>,
                          as_manager = manager_new, as_backend = backend_ready, as_config = ab_config b,
                          as_tx = None, as_handle = False, as_running = mx_new False,
                          as_rx = dummy, as_main = MainEnded (Ok ()), as_owner = OwnerReady, as_made = [], as_arrived = (\<lambda>_. 0)\<rparr>,
                        timer_fd, epoll_fd))
           | Some (Err e, k') \<Rightarrow> Some (Err e)
           | Some (Panic, k') \<Rightarrow> Some Panic)
      | (Err e, _) \<Rightarrow> Some (Err e)
      | (Panic, _) \<Rightarrow> Some Panic)"

text \<open>\<open>start\<close>; \<open>rx\<close> is the number of the new channel. The agent is used up by an error.\<close>

definition agent_start :: "nat \<Rightarrow> ('b, 'p, 'k) agent_sys \<Rightarrow> ('b, 'p, 'k) agent_sys presult" where
  "agent_start rx s =
     bind_res (mx_lock (as_running s)) (\<lambda>_.
     case attach_listener rx (ts_timer (as_ticker s)) of
       (Ok _, timer) \<Rightarrow>
         Ok (set_chan rx \<lparr>ch_queue = [], ch_connected = True\<rparr>
           (s\<lparr>as_ticker := (as_ticker s)\<lparr>ts_timer := timer\<rparr>, as_running := mx_store (as_running s) True,
              as_tx := Some rx, as_handle := True, as_rx := rx, as_main := MainRecv, as_owner := OwnerRunning\<rparr>))
     | (Err e, _) \<Rightarrow> Err e
     | (Panic, _) \<Rightarrow> Panic)"

subsection \<open>The main thread\<close>

text \<open>When the thread ends its receiver goes, and with it what is still in the channel.\<close>

definition main_ends :: "unit presult \<Rightarrow> ('b, 'p, 'k) agent_sys \<Rightarrow> ('b, 'p, 'k) agent_sys" where
  "main_ends r s = set_chan (as_rx s) \<lparr>ch_queue = [], ch_connected = False\<rparr> (s\<lparr>as_main := MainEnded r\<rparr>)"

definition has_sender :: "nat \<Rightarrow> ('b, 'p, 'k) agent_sys \<Rightarrow> bool" where
  "has_sender c s \<longleftrightarrow> as_tx s = Some c \<or> c \<in> set (mx_value (tm_txs (ts_timer (as_ticker s))))"

text \<open>A snapshot: the report in the circumstances \<open>e\<close>, and the session made of it.\<close>

definition main_snapshot ::
    "('e \<Rightarrow> 'b \<Rightarrow> report list presult \<times> 'b) \<Rightarrow> ('e \<Rightarrow> 'b \<Rightarrow> stack_trace \<Rightarrow> usize) \<Rightarrow> clock \<Rightarrow> 'e \<Rightarrow> u64
     \<Rightarrow> ('b, 'p, 'k) agent_sys \<Rightarrow> ('b, 'p, 'k) agent_sys option" where
  "main_snapshot rep arrives clock e until s =
     (case with_backend (rep e) (as_backend s) of
        (Ok reports, m) \<Rightarrow>
          (let s1 = s\<lparr>as_backend := m, as_arrived := (\<lambda>st. as_arrived s st
                   + (case mx_value (as_backend s) of Some b \<Rightarrow> arrives e b st | None \<Rightarrow> 0))\<rparr> in
           case session_new clock until (as_config s) reports of
             None \<Rightarrow> None
           | Some (Ok session) \<Rightarrow> Some (s1\<lparr>as_main := MainPush session, as_made := as_made s @ [session]\<rparr>)
           | Some (Err x) \<Rightarrow> Some (main_ends (Err x) s1)
           | Some Panic \<Rightarrow> Some (main_ends Panic s1))
      | (Err x, m) \<Rightarrow> Some (main_ends (Err x) (s\<lparr>as_backend := m\<rparr>))
      | (Panic, m) \<Rightarrow> Some (main_ends Panic (s\<lparr>as_backend := m\<rparr>)))"

definition main_terminate :: "('b, 'p, 'k) agent_sys \<Rightarrow> ('b, 'p, 'k) agent_sys" where
  "main_terminate s =
     (case mx_lock (as_running s) of
        Ok _ \<Rightarrow> main_ends (Ok ()) (s\<lparr>as_running := mx_store (as_running s) False\<rparr>)
      | Err x \<Rightarrow> main_ends (Err x) s
      | Panic \<Rightarrow> main_ends Panic s)"

text \<open>One step of the thread: receive and act, or push the session made. A step that has to wait
  changes nothing.\<close>

definition main_turn ::
    "('e \<Rightarrow> 'b \<Rightarrow> report list presult \<times> 'b) \<Rightarrow> ('e \<Rightarrow> 'b \<Rightarrow> stack_trace \<Rightarrow> usize) \<Rightarrow> clock \<Rightarrow> 'e
     \<Rightarrow> ('b, 'p, 'k) agent_sys \<Rightarrow> ('b, 'p, 'k) agent_sys option" where
  "main_turn rep arrives clock e s =
     (case as_main s of
        MainRecv \<Rightarrow>
          (case as_inbox s of
             [] \<Rightarrow> Some (if has_sender (as_rx s) s then s else main_ends (Ok ()) s)
           | g # gs \<Rightarrow>
               (let s1 = set_chan (as_rx s) ((as_chans s (as_rx s))\<lparr>ch_queue := gs\<rparr>) s in
                case g of
                  NextSnapshot until \<Rightarrow> main_snapshot rep arrives clock e until s1
                | TerminateSignal \<Rightarrow> Some (main_terminate s1)))
      | MainPush session \<Rightarrow>
          (case manager_push (SendSession session) (as_manager s) of
             (Pushed, m) \<Rightarrow> Some (s\<lparr>as_manager := m, as_main := MainRecv\<rparr>)
           | (PushRefused, m) \<Rightarrow> Some (main_ends (Err pe_from_send_error) s)
           | (PushWaits, m) \<Rightarrow> Some s)
      | MainEnded r \<Rightarrow> Some s)"

subsection \<open>Stop and shutdown\<close>

text \<open>The first part of \<open>stop\<close>: the last snapshot and the end of the main thread are ordered.\<close>

definition stop_sends :: "clock \<Rightarrow> ('b, 'p, 'k) agent_sys \<Rightarrow> (unit presult \<times> ('b, 'p, 'k) agent_sys) option" where
  "stop_sends clock s =
     (case as_tx s of
        None \<Rightarrow> Some (Ok (), s)
      | Some tx \<Rightarrow>
          (let s1 = s\<lparr>as_tx := None\<rparr> in
           case get_time_range clock 0 0 of
             None \<Rightarrow> None
           | Some (Err e) \<Rightarrow> Some (Err e, s1)
           | Some Panic \<Rightarrow> Some (Panic, s1)
           | Some (Ok now) \<Rightarrow>
               (case ch_send (NextSnapshot (tr_until now)) tx (as_chans s) of
                  (False, ch) \<Rightarrow> Some (Err pe_from_send_error, s1)
                | (True, ch) \<Rightarrow>
                    (case ch_send TerminateSignal tx ch of
                       (False, ch') \<Rightarrow> Some (Err pe_from_send_error, set_chan tx (ch tx) s1)
                     | (True, ch') \<Rightarrow> Some (Ok (), set_chan tx (ch' tx) s1)))))"

definition owner_after :: "unit presult \<Rightarrow> owner_phase \<Rightarrow> owner_phase" where
  "owner_after r p = (case r of Ok _ \<Rightarrow> p | Err e \<Rightarrow> OwnerLost e | Panic \<Rightarrow> OwnerPanicked)"

definition agent_stop :: "clock \<Rightarrow> ('b, 'p, 'k) agent_sys \<Rightarrow> ('b, 'p, 'k) agent_sys option" where
  "agent_stop clock s = map_option (\<lambda>(r, s1). s1\<lparr>as_owner := owner_after r StopWaits\<rparr>) (stop_sends clock s)"

text \<open>\<open>shutdown\<close> begins with the backend, whose error is only logged.\<close>

definition agent_shutdown :: "'b backend_ops \<Rightarrow> ('b, 'p, 'k) agent_sys \<Rightarrow> ('b, 'p, 'k) agent_sys" where
  "agent_shutdown ops s =
     (case bi_shutdown ops (as_backend s) of
        (r, m) \<Rightarrow> s\<lparr>as_backend := m, as_owner := (if r = Panic then OwnerPanicked else ShutdownDrops)\<rparr>)"

text \<open>The owner's next step inside \<open>stop\<close> or \<open>shutdown\<close>; \<open>ended\<close> tells that the timer's thread has
  ended. A join that has to wait changes nothing.\<close>

definition owner_turn :: "('p \<Rightarrow> bool) \<Rightarrow> ('b, 'p, 'k) agent_sys \<Rightarrow> ('b, 'p, 'k) agent_sys" where
  "owner_turn ended s =
     (case as_owner s of
        StopWaits \<Rightarrow>
          (case mx_lock (as_running s) of
             Ok running \<Rightarrow> if running then s else s\<lparr>as_owner := OwnerReady\<rparr>
           | Err e \<Rightarrow> s\<lparr>as_owner := OwnerLost e\<rparr>
           | Panic \<Rightarrow> s\<lparr>as_owner := OwnerPanicked\<rparr>)
      | ShutdownDrops \<Rightarrow>
          s\<lparr>as_ticker := (as_ticker s)\<lparr>ts_timer := snd (drop_listeners (ts_timer (as_ticker s)))\<rparr>,
            as_owner := ShutdownJoinsTimer\<rparr>
      | ShutdownJoinsTimer \<Rightarrow>
          if tm_handle (ts_timer (as_ticker s)) \<and> \<not> ended (ts_phase (as_ticker s)) then s
          else s\<lparr>as_ticker := (as_ticker s)\<lparr>ts_timer := (ts_timer (as_ticker s))\<lparr>tm_handle := False\<rparr>\<rparr>,
                 as_owner := ShutdownKills\<rparr>
      | ShutdownKills \<Rightarrow>
          (case manager_push KillManager (as_manager s) of
             (PushWaits, m) \<Rightarrow> s
           | (_, m) \<Rightarrow> s\<lparr>as_manager := m, as_owner := ShutdownJoinsManager\<rparr>)
      | ShutdownJoinsManager \<Rightarrow>
          if mg_end (as_manager s) = ManagerWaiting then s else s\<lparr>as_owner := ShutdownJoinsMain\<rparr>
      | ShutdownJoinsMain \<Rightarrow>
          if as_handle s \<and> \<not> main_done (as_main s) then s
          else s\<lparr>as_handle := False, as_tx := None, as_owner := OwnerGone\<rparr>
      | _ \<Rightarrow> s)"

section \<open>The machine\<close>

record ('e, 'b, 'p, 'k) agent_env =
  ae_ops :: "'b backend_ops"
  ae_report :: "'e \<Rightarrow> 'b \<Rightarrow> report list presult \<times> 'b"
  ae_arrives :: "'e \<Rightarrow> 'b \<Rightarrow> stack_trace \<Rightarrow> usize"
  ae_tick :: "('p, 'k) timer_step"
  ae_ended :: "'p \<Rightarrow> bool"
  ae_clock :: "'k \<Rightarrow> clock"
  ae_push :: "session \<Rightarrow> unit presult"

datatype 'e agent_event = StartCall nat | StopCall | ShutdownCall | OwnerTurn | TimerTurn | MainTurn 'e | ManagerTurn

definition fresh_channel :: "nat \<Rightarrow> ('b, 'p, 'k) agent_sys \<Rightarrow> bool" where
  "fresh_channel c s \<longleftrightarrow> \<not> has_sender c s \<and> c \<noteq> as_rx s"

text \<open>A call that the type of the agent does not allow is no event of the machine: nothing happens.\<close>

fun agent_step :: "('e, 'b, 'p, 'k) agent_env \<Rightarrow> 'e agent_event \<Rightarrow> ('b, 'p, 'k) agent_sys \<Rightarrow> ('b, 'p, 'k) agent_sys option" where
  "agent_step env (StartCall rx) s =
     Some (if as_owner s = OwnerReady \<and> fresh_channel rx s then
         (case agent_start rx s of
            Ok s' \<Rightarrow> s'
          | Err e \<Rightarrow> s\<lparr>as_owner := OwnerLost e\<rparr>
          | Panic \<Rightarrow> s\<lparr>as_owner := OwnerPanicked\<rparr>)
       else s)"
| "agent_step env StopCall s =
     (if as_owner s = OwnerRunning then agent_stop (ae_clock env (ts_kernel (as_ticker s))) s else Some s)"
| "agent_step env ShutdownCall s =
     Some (if as_owner s \<in> {OwnerReady, OwnerRunning} then agent_shutdown (ae_ops env) s else s)"
| "agent_step env OwnerTurn s = Some (owner_turn (ae_ended env) s)"
| "agent_step env TimerTurn s =
     map_option (\<lambda>t. s\<lparr>as_ticker := t\<rparr>) (timer_event_step (ae_tick env) TimerRuns (as_ticker s))"
| "agent_step env (MainTurn e) s =
     main_turn (ae_report env) (ae_arrives env) (ae_clock env (ts_kernel (as_ticker s))) e s"
| "agent_step env ManagerTurn s = Some (s\<lparr>as_manager := manager_turn (ae_push env) (as_manager s)\<rparr>)"

fun agent_run :: "('e, 'b, 'p, 'k) agent_env \<Rightarrow> 'e agent_event list \<Rightarrow> ('b, 'p, 'k) agent_sys \<Rightarrow> ('b, 'p, 'k) agent_sys option" where
  "agent_run env [] s = Some s"
| "agent_run env (ev # evs) s = (case agent_step env ev s of None \<Rightarrow> None | Some s' \<Rightarrow> agent_run env evs s')"

text \<open>What holds at the start and is kept by every step holds after every run.\<close>

lemma agent_run_invariant:
  assumes "agent_run env evs s = Some s'" and "P s"
    and "\<And>ev s s'. ev \<in> set evs \<Longrightarrow> P s \<Longrightarrow> agent_step env ev s = Some s' \<Longrightarrow> P s'"
  shows "P s'"
  using assms
proof (induction evs arbitrary: s)
  case Nil
  then show ?case by simp
next
  case (Cons ev evs)
  from Cons.prems(1) obtain s1 where s1: "agent_step env ev s = Some s1" "agent_run env evs s1 = Some s'"
    by (auto split: option.splits)
  have "P s1" by (rule Cons.prems(3) [OF _ Cons.prems(2) s1(1)]) simp
  then show ?case by (rule Cons.IH [OF s1(2)]) (rule Cons.prems(3), simp_all)
qed

lemma agent_run_append:
  "agent_run env (es @ fs) s = (case agent_run env es s of None \<Rightarrow> None | Some s' \<Rightarrow> agent_run env fs s')"
  by (induction es arbitrary: s) (auto split: option.splits)

section \<open>Thread tags\<close>

text \<open>The two functions of \<open>tag_wrapper\<close> and \<open>add_thread_tag\<close>, \<open>remove_thread_tag\<close>.\<close>

definition wrapper_add_tag :: "'b backend_ops \<Rightarrow> thread_id \<Rightarrow> string \<Rightarrow> string \<Rightarrow> 'b backend_impl \<Rightarrow> unit presult \<times> 'b backend_impl" where
  "wrapper_add_tag ops pthread_self key value m =
     with_backend (bk_add_tag ops (ThreadTag pthread_self (Tag key value))) m"

definition wrapper_remove_tag :: "'b backend_ops \<Rightarrow> thread_id \<Rightarrow> string \<Rightarrow> string \<Rightarrow> 'b backend_impl \<Rightarrow> unit presult \<times> 'b backend_impl" where
  "wrapper_remove_tag ops pthread_self key value m =
     with_backend (bk_remove_tag ops (ThreadTag pthread_self (Tag key value))) m"

definition add_thread_tag :: "'b backend_ops \<Rightarrow> thread_id \<Rightarrow> tag \<Rightarrow> ('b, 'p, 'k) agent_sys \<Rightarrow> unit presult \<times> ('b, 'p, 'k) agent_sys" where
  "add_thread_tag ops tid t s =
     (case bi_add_tag ops (ThreadTag tid t) (as_backend s) of (r, m) \<Rightarrow> (r, s\<lparr>as_backend := m\<rparr>))"

definition remove_thread_tag :: "'b backend_ops \<Rightarrow> thread_id \<Rightarrow> tag \<Rightarrow> ('b, 'p, 'k) agent_sys \<Rightarrow> unit presult \<times> ('b, 'p, 'k) agent_sys" where
  "remove_thread_tag ops tid t s =
     (case bi_remove_tag ops (ThreadTag tid t) (as_backend s) of (r, m) \<Rightarrow> (r, s\<lparr>as_backend := m\<rparr>))"

end
