(* ===== verification/AgentCorrect.thy ===== *)
theory AgentCorrect
  imports Agent
begin

text \<open>
  What the agent promises: the states that its type allows are the states it is in, every sample is
  handed to the session manager exactly once, and \<open>stop\<close> returns if every report succeeds; and
  two ways in which it waits for ever.
\<close>

section \<open>States of the agent\<close>

abbreviation as_txs :: "('b, 'p, 'k) agent_sys \<Rightarrow> nat list mutex" where
  "as_txs s \<equiv> tm_txs (ts_timer (as_ticker s))"

definition main_failed :: "('b, 'p, 'k) agent_sys \<Rightarrow> bool" where
  "main_failed s \<longleftrightarrow> (\<exists>r. as_main s = MainEnded r \<and> r \<noteq> Ok ())"

definition agent_wf :: "('b, 'p, 'k) agent_sys \<Rightarrow> bool" where
  "agent_wf s \<longleftrightarrow> \<not> mx_poisoned (as_running s) \<and> \<not> mx_poisoned (as_txs s)
     \<and> (ch_connected (as_chans s (as_rx s)) \<longleftrightarrow> \<not> main_done (as_main s))
     \<and> (\<not> mx_value (as_running s) \<longrightarrow> as_main s = MainEnded (Ok ()))
     \<and> (as_owner s = OwnerReady \<longrightarrow> as_tx s = None \<and> \<not> mx_value (as_running s))
     \<and> (as_owner s = OwnerRunning \<longrightarrow> as_tx s = Some (as_rx s) \<and> as_handle s \<and> mx_value (as_running s)
          \<and> TerminateSignal \<notin> set (as_inbox s))
     \<and> (as_owner s = StopWaits \<longrightarrow> as_tx s = None)"

lemma as_chans_set_chan [simp]: "as_chans (set_chan c q s) = (as_chans s)(c := q)"
  by (simp add: set_chan_def)

lemma set_chan_simps [simp]:
  "as_main (set_chan c q s) = as_main s" "as_owner (set_chan c q s) = as_owner s" "as_tx (set_chan c q s) = as_tx s"
  "as_rx (set_chan c q s) = as_rx s" "as_running (set_chan c q s) = as_running s" "as_handle (set_chan c q s) = as_handle s"
  "as_manager (set_chan c q s) = as_manager s" "as_backend (set_chan c q s) = as_backend s" "as_made (set_chan c q s) = as_made s"
  "as_arrived (set_chan c q s) = as_arrived s" "as_config (set_chan c q s) = as_config s"
  "ts_timer (as_ticker (set_chan c q s)) = ts_timer (as_ticker s)" "ts_phase (as_ticker (set_chan c q s)) = ts_phase (as_ticker s)"
  "ts_kernel (as_ticker (set_chan c q s)) = ts_kernel (as_ticker s)"
  by (simp_all add: set_chan_def)

lemma main_ends_simps [simp]:
  "as_main (main_ends r s) = MainEnded r" "as_owner (main_ends r s) = as_owner s" "as_tx (main_ends r s) = as_tx s"
  "as_rx (main_ends r s) = as_rx s" "as_running (main_ends r s) = as_running s" "as_handle (main_ends r s) = as_handle s"
  "as_manager (main_ends r s) = as_manager s" "as_backend (main_ends r s) = as_backend s" "as_made (main_ends r s) = as_made s"
  "as_arrived (main_ends r s) = as_arrived s" "as_txs (main_ends r s) = as_txs s"
  "as_chans (main_ends r s) = (as_chans s)(as_rx s := \<lparr>ch_queue = [], ch_connected = False\<rparr>)"
  "ts_phase (as_ticker (main_ends r s)) = ts_phase (as_ticker s)" "ts_kernel (as_ticker (main_ends r s)) = ts_kernel (as_ticker s)"
  by (simp_all add: main_ends_def)

text \<open>What a snapshot can lead to.\<close>

lemma main_snapshot_cases:
  assumes "main_snapshot rep arrives clock e until s = Some s'"
  obtains
    (made) reports m session where "with_backend (rep e) (as_backend s) = (Ok reports, m)"
      "session_new clock until (as_config s) reports = Some (Ok session)"
      "s' = s\<lparr>as_backend := m, as_arrived := (\<lambda>st. as_arrived s st
          + (case mx_value (as_backend s) of Some b \<Rightarrow> arrives e b st | None \<Rightarrow> 0)),
        as_main := MainPush session, as_made := as_made s @ [session]\<rparr>"
  | (failed) r m f where "r \<noteq> Ok ()" "s' = main_ends r (s\<lparr>as_backend := m, as_arrived := f\<rparr>)"
proof -
  obtain r m where w: "with_backend (rep e) (as_backend s) = (r, m)" by fastforce
  have same: "s\<lparr>as_backend := m\<rparr> = s\<lparr>as_backend := m, as_arrived := as_arrived s\<rparr>" by simp
  show thesis
  proof (cases r)
    case (Ok reports)
    show thesis
    proof (cases "session_new clock until (as_config s) reports")
      case None
      with assms w Ok show thesis by (simp add: main_snapshot_def Let_def)
    next
      case (Some x)
      show thesis
      proof (cases x)
        case (Ok session)
        with assms w Some \<open>r = Ok reports\<close> made show thesis by (auto simp: main_snapshot_def Let_def)
      next
        case (Err y)
        with assms w Some Ok failed [of "Err y"] show thesis by (auto simp: main_snapshot_def Let_def)
      next
        case Panic
        with assms w Some Ok failed [of Panic] show thesis by (auto simp: main_snapshot_def Let_def)
      qed
    qed
  next
    case (Err y)
    with assms w have "s' = main_ends (Err y) (s\<lparr>as_backend := m\<rparr>)" by (auto simp: main_snapshot_def)
    then show thesis using failed [of "Err y" "as_arrived s" m] same by simp
  next
    case Panic
    with assms w have "s' = main_ends (Panic) (s\<lparr>as_backend := m\<rparr>)" by (auto simp: main_snapshot_def)
    then show thesis using failed [of Panic "as_arrived s" m] same by simp
  qed
qed

lemma main_terminate_wf [simp]:
  "\<not> mx_poisoned (as_running s) \<Longrightarrow>
     main_terminate s = main_ends (Ok ()) (s\<lparr>as_running := mx_store (as_running s) False\<rparr>)"
  by (simp add: main_terminate_def)

locale agent_machine = ticker tick rank
  for tick :: "('p, 'k) timer_step" and rank :: "'p \<Rightarrow> nat" +
  fixes env :: "('e, 'b, 'p, 'k) agent_env"
  assumes ticks: "ae_tick env = tick"
begin

text \<open>A step of the timer's thread appends snapshot signals to open channels.\<close>

lemma timer_turn:
  assumes "agent_step env TimerTurn s = Some s'"
  obtains p k ch where "s' = s\<lparr>as_ticker := (as_ticker s)\<lparr>ts_phase := p, ts_chans := ch, ts_kernel := k\<rparr>\<rparr>"
    "tick (ts_phase (as_ticker s)) (as_txs s) (as_chans s) (ts_kernel (as_ticker s)) = Some (p, ch, k)"
    "\<And>c. \<exists>us. ch c = (if ch_connected (as_chans s c)
       then (as_chans s c)\<lparr>ch_queue := ch_queue (as_chans s c) @ map NextSnapshot us\<rparr> else as_chans s c)"
proof -
  from assms obtain p ch k where
    t: "tick (ts_phase (as_ticker s)) (as_txs s) (as_chans s) (ts_kernel (as_ticker s)) = Some (p, ch, k)"
    "s' = s\<lparr>as_ticker := (as_ticker s)\<lparr>ts_phase := p, ts_chans := ch, ts_kernel := k\<rparr>\<rparr>"
    by (auto simp: ticks split: option.splits)
  have "timer_run tick [TimerRuns] (as_ticker s) = Some (as_ticker s')" using t by simp
  from run_delivers [OF this] t that show thesis by auto
qed

lemma agent_wf_timer:
  assumes "agent_wf s" and "agent_step env TimerTurn s = Some s'"
  shows "agent_wf s'"
proof -
  from timer_turn [OF assms(2)] obtain p k ch us where
    s': "s' = s\<lparr>as_ticker := (as_ticker s)\<lparr>ts_phase := p, ts_chans := ch, ts_kernel := k\<rparr>\<rparr>"
    "ch (as_rx s) = (if ch_connected (as_chans s (as_rx s)) then (as_chans s (as_rx s))\<lparr>ch_queue := as_inbox s @ map NextSnapshot us\<rparr>
       else as_chans s (as_rx s))" by metis
  with assms(1) show ?thesis by (auto simp: agent_wf_def)
qed

lemma agent_wf_main:
  assumes "agent_wf s" and "agent_step env (MainTurn e) s = Some s'"
  shows "agent_wf s'"
proof (cases "as_main s")
  case MainRecv
  show ?thesis
  proof (cases "as_inbox s")
    case Nil
    with MainRecv assms show ?thesis
      by (auto simp: main_turn_def agent_wf_def has_sender_def split: if_splits)
  next
    case (Cons g gs)
    let ?s = "set_chan (as_rx s) ((as_chans s (as_rx s))\<lparr>ch_queue := gs\<rparr>) s"
    show ?thesis
    proof (cases g)
      case TerminateSignal
      with MainRecv Cons assms show ?thesis by (auto simp: main_turn_def Let_def agent_wf_def)
    next
      case (NextSnapshot u)
      with MainRecv Cons assms(2) have "main_snapshot (ae_report env) (ae_arrives env) (ae_clock env (ts_kernel (as_ticker s))) e u ?s = Some s'"
        by (simp add: main_turn_def Let_def)
      then show ?thesis
        by (cases rule: main_snapshot_cases) (use assms(1) MainRecv Cons in \<open>auto simp: agent_wf_def\<close>)
    qed
  qed
next
  case (MainPush x)
  with assms show ?thesis by (auto simp: main_turn_def manager_push_def agent_wf_def split: if_splits)
next
  case (MainEnded r)
  with assms show ?thesis by (simp add: main_turn_def)
qed

lemma agent_wf_stop:
  assumes "agent_wf s" and "as_owner s = OwnerRunning" and "agent_stop clock s = Some s'"
  shows "agent_wf s'"
proof -
  from assms(1,2) have tx: "as_tx s = Some (as_rx s)" by (simp add: agent_wf_def)
  from assms(3) obtain r s1 where r: "stop_sends clock s = Some (r, s1)" "s' = s1\<lparr>as_owner := owner_after r StopWaits\<rparr>"
    by (auto simp: agent_stop_def)
  from r(1) tx assms(1) show ?thesis
    by (auto simp: stop_sends_def ch_send_def Let_def r(2) agent_wf_def owner_after_def
        split: option.splits res.splits if_splits)
qed

lemma agent_wf_owner: "agent_wf s \<Longrightarrow> agent_wf (owner_turn ended s)"
  by (auto simp: owner_turn_def agent_wf_def manager_push_def split: owner_phase.splits)

lemma agent_start_ok:
  assumes "agent_wf s"
  obtains s1 where "agent_start rx s = Ok s1" "as_main s1 = MainRecv" "as_made s1 = as_made s"
    "as_backend s1 = as_backend s" "as_arrived s1 = as_arrived s" "as_manager s1 = as_manager s"
  using assms by (simp add: agent_start_def attach_listener_def agent_wf_def)

lemma agent_wf_start:
  assumes "agent_wf s" and "agent_start rx s = Ok s'"
  shows "agent_wf s'"
proof -
  from assms(1) have free: "\<not> mx_poisoned (as_running s)" "\<not> mx_poisoned (as_txs s)" by (simp_all add: agent_wf_def)
  with assms(2) have s': "s' = set_chan rx \<lparr>ch_queue = [], ch_connected = True\<rparr>
      (s\<lparr>as_ticker := (as_ticker s)\<lparr>ts_timer := (ts_timer (as_ticker s))\<lparr>tm_txs := mx_store (as_txs s) (mx_value (as_txs s) @ [rx])\<rparr>\<rparr>,
         as_running := mx_store (as_running s) True, as_tx := Some rx, as_handle := True, as_rx := rx, as_main := MainRecv,
         as_owner := OwnerRunning\<rparr>)"
    by (simp add: agent_start_def attach_listener_def)
  show ?thesis unfolding s' using free by (simp add: agent_wf_def)
qed

lemma agent_wf_shutdown: "agent_wf s \<Longrightarrow> agent_wf (agent_shutdown ops s)"
  by (simp add: agent_shutdown_def agent_wf_def split: prod.split)

lemma agent_wf_step:
  assumes "agent_wf s" and "agent_step env ev s = Some s'"
  shows "agent_wf s'"
proof (cases ev)
  case (StartCall rx)
  obtain s1 where s1: "agent_start rx s = Ok s1" using agent_start_ok [OF assms(1)] by metis
  with StartCall assms(2) have "s' = s1 \<or> s' = s" by (auto split: if_splits)
  with assms(1) agent_wf_start [OF assms(1) s1] show ?thesis by blast
next
  case StopCall
  with assms agent_wf_stop [OF assms(1)] show ?thesis by (auto split: if_splits)
next
  case ShutdownCall
  with assms agent_wf_shutdown [OF assms(1)] show ?thesis by (auto split: if_splits)
next
  case OwnerTurn
  with assms agent_wf_owner show ?thesis by auto
next
  case TimerTurn
  with assms agent_wf_timer show ?thesis by auto
next
  case (MainTurn e)
  with assms agent_wf_main show ?thesis by auto
next
  case ManagerTurn
  with assms(2) have "s' = s\<lparr>as_manager := manager_turn (ae_push env) (as_manager s)\<rparr>" by simp
  with assms(1) show ?thesis by (simp add: agent_wf_def)
qed

lemma agent_wf_run: "agent_run env evs s = Some s' \<Longrightarrow> agent_wf s \<Longrightarrow> agent_wf s'"
  by (erule agent_run_invariant) (auto intro: agent_wf_step)

end

lemma agent_build_wf:
  assumes "agent_build ops env dummy b k = Some (Ok (s, timer_fd, epoll_fd))"
  shows "agent_wf s" and "as_made s = []" and "as_manager s = manager_new" and "as_arrived s = (\<lambda>_. 0)"
    and "as_main s = MainEnded (Ok ())" and "bi_initialize ops (ab_backend b) = (Ok (), as_backend s)"
  using assms by (auto simp: agent_build_def agent_wf_def epoll_initialize_def act_bind_def act_ok_def
      split: option.splits prod.splits res.splits)

section \<open>The agent on Linux\<close>

definition linux_agent ::
    "'b backend_ops \<Rightarrow> ('e \<Rightarrow> 'b \<Rightarrow> report list presult \<times> 'b) \<Rightarrow> ('e \<Rightarrow> 'b \<Rightarrow> stack_trace \<Rightarrow> usize) \<Rightarrow> 'k timer_env
     \<Rightarrow> int \<Rightarrow> int \<Rightarrow> (session \<Rightarrow> unit presult) \<Rightarrow> ('e, 'b, timer_phase, 'k) agent_env" where
  "linux_agent ops rep arrives tenv timer_fd epoll_fd push =
     \<lparr>ae_ops = ops, ae_report = rep, ae_arrives = arrives, ae_tick = epoll_step tenv timer_fd epoll_fd,
      ae_ended = (\<lambda>p. timer_rank p = 0), ae_clock = te_clock tenv, ae_push = push\<rparr>"

interpretation linux: agent_machine "epoll_step tenv timer_fd epoll_fd" timer_rank
    "linux_agent ops rep arrives tenv timer_fd epoll_fd push"
  by unfold_locales (simp add: linux_agent_def)

end
