(* ===== verification/AgentBooks.thy ===== *)
theory AgentBooks
  imports AgentCorrect
begin

text \<open>
  The books of the agent: whatever order the threads run in, what the sessions report and what the
  backend still holds is what was sampled, and every session made is with the manager.
\<close>

section \<open>The books\<close>

fun queued_sessions :: "session_signal list \<Rightarrow> session list" where
  "queued_sessions [] = []"
| "queued_sessions (SendSession s # q) = s # queued_sessions q"
| "queued_sessions (KillManager # q) = queued_sessions q"

lemma queued_sessions_append [simp]: "queued_sessions (q @ r) = queued_sessions q @ queued_sessions r"
  by (induction q rule: queued_sessions.induct) auto

fun pushing :: "main_phase \<Rightarrow> session list" where
  "pushing (MainPush s) = [s]"
| "pushing _ = []"

text \<open>What the sessions made so far count for a trace.\<close>

definition sessions_report :: "session list \<Rightarrow> stack_trace \<Rightarrow> usize" where
  "sessions_report ss st = (\<Sum>s\<leftarrow>ss. reported (ss_reports s) st)"

definition handed_over :: "('b, 'p, 'k) agent_sys \<Rightarrow> bool" where
  "handed_over s \<longleftrightarrow> as_made s = mg_tried (as_manager s) @ queued_sessions (mg_queue (as_manager s)) @ pushing (as_main s)"

definition balanced :: "(stack_trace \<Rightarrow> usize) \<Rightarrow> (stack_trace \<Rightarrow> usize) \<Rightarrow> ('b, 'p, 'k) agent_sys \<Rightarrow> bool" where
  "balanced p0 p s \<longleftrightarrow> (\<forall>st. sessions_report (as_made s) st + p st = p0 st + as_arrived s st)"

text \<open>The backend, unless it was shut down, is intact and in balance.\<close>

definition books_ok ::
    "('b \<Rightarrow> bool) \<Rightarrow> ('b \<Rightarrow> stack_trace \<Rightarrow> usize) \<Rightarrow> (stack_trace \<Rightarrow> usize) \<Rightarrow> ('b, 'p, 'k) agent_sys \<Rightarrow> bool" where
  "books_ok holds pending p0 s \<longleftrightarrow> handed_over s
     \<and> (\<forall>b. mx_value (as_backend s) = Some b \<longrightarrow> \<not> mx_poisoned (as_backend s) \<and> holds b \<and> balanced p0 (pending b) s)"

text \<open>They hold unless the main thread has ended with an error.\<close>

definition books :: "('b \<Rightarrow> bool) \<Rightarrow> ('b \<Rightarrow> stack_trace \<Rightarrow> usize) \<Rightarrow> (stack_trace \<Rightarrow> usize) \<Rightarrow> ('b, 'p, 'k) agent_sys \<Rightarrow> bool" where
  "books holds pending p0 s \<longleftrightarrow> main_failed s \<or> books_ok holds pending p0 s"

lemma session_new_reports: "session_new clock until c reports = Some (Ok s) \<Longrightarrow> ss_reports s = reports"
  by (auto simp: session_new_def bind_res_eq_Ok)

lemma with_backend_Ok:
  assumes "with_backend oper m = (Ok x, m')"
  obtains b b' where "mx_value m = Some b" "\<not> mx_poisoned m" "oper b = (Ok x, b')" "m' = Mutex False (Some b')"
  using assms by (cases m) (auto simp: with_backend_def mx_lock_def ok_or_def split: if_splits option.splits prod.splits)

lemma manager_turn_books:
  "mg_tried (manager_turn push m) @ queued_sessions (mg_queue (manager_turn push m)) = mg_tried m @ queued_sessions (mg_queue m)"
  by (cases m) (auto simp: manager_turn_def split: list.split session_signal.split)

lemma books_ok_frame:
  assumes "as_made s' = as_made s" and "as_backend s' = as_backend s" and "as_arrived s' = as_arrived s"
    and "as_manager s' = as_manager s" and "pushing (as_main s') = pushing (as_main s)"
  shows "books_ok holds pending p0 s' = books_ok holds pending p0 s"
  using assms by (simp add: books_ok_def handed_over_def balanced_def)

lemma main_ends_books: "r \<noteq> Ok () \<Longrightarrow> books holds pending p0 (main_ends r s)"
  by (simp add: books_def main_failed_def)

locale agent_books = agent_machine tick rank env + report_source ok inv pending arrives take_report
  for tick :: "('p, 'k) timer_step" and rank :: "'p \<Rightarrow> nat" and env :: "('e, 'b, 'p, 'k) agent_env"
    and ok :: "'e \<Rightarrow> bool" and inv :: "'b \<Rightarrow> bool" and pending :: "'b \<Rightarrow> stack_trace \<Rightarrow> usize"
    and arrives :: "'e \<Rightarrow> 'b \<Rightarrow> stack_trace \<Rightarrow> usize" and take_report :: "'e \<Rightarrow> 'b \<Rightarrow> report list presult \<times> 'b" +
  assumes reports: "ae_report env = take_report" and arrivals: "ae_arrives env = arrives"
begin

lemma books_main:
  assumes "books inv pending p0 s" and "ok e" and "agent_wf s" and "agent_step env (MainTurn e) s = Some s'"
  shows "books inv pending p0 s'"
proof (cases "as_main s")
  case MainRecv
  with assms(1) have b: "books_ok inv pending p0 s" by (simp add: books_def main_failed_def)
  show ?thesis
  proof (cases "as_inbox s")
    case Nil
    with MainRecv b assms(4) show ?thesis
      by (auto simp: main_turn_def books_def books_ok_def handed_over_def balanced_def split: if_splits)
  next
    case (Cons g gs)
    let ?s = "set_chan (as_rx s) ((as_chans s (as_rx s))\<lparr>ch_queue := gs\<rparr>) s"
    show ?thesis
    proof (cases g)
      case TerminateSignal
      with MainRecv Cons assms(3,4) b show ?thesis
        by (auto simp: main_turn_def Let_def books_def books_ok_def handed_over_def balanced_def agent_wf_def)
    next
      case (NextSnapshot u)
      with MainRecv Cons assms(4) have
        "main_snapshot take_report arrives (ae_clock env (ts_kernel (as_ticker s))) e u ?s = Some s'"
        by (simp add: main_turn_def Let_def reports arrivals)
      then show ?thesis
      proof (cases rule: main_snapshot_cases)
        case (made rs m session)
        from made(1) obtain b b' where bb: "mx_value (as_backend s) = Some b" "take_report e b = (Ok rs, b')"
          "m = Mutex False (Some b')" by (auto elim: with_backend_Ok)
        with b have inv: "inv b" "balanced p0 (pending b) s" by (auto simp: books_ok_def)
        from report_ok [OF assms(2) inv(1) bb(2)] have r: "inv b'" "pending b' = (\<lambda>_. 0)"
          "\<And>st. reported rs st = pending b st + arrives e b st" by auto
        have "sessions_report (as_made s @ [session]) st = sessions_report (as_made s) st + pending b st + arrives e b st" for st
          using session_new_reports [OF made(2)] r(3) by (simp add: sessions_report_def)
        with made bb r b inv(2) MainRecv show ?thesis
          by (auto simp: books_def books_ok_def handed_over_def balanced_def)
      next
        case (failed r m f)
        then show ?thesis by (simp add: main_ends_books)
      qed
    qed
  qed
next
  case (MainPush x)
  with assms(1) have b: "books_ok inv pending p0 s" by (simp add: books_def main_failed_def)
  with MainPush assms(4) show ?thesis
    by (auto simp: main_turn_def manager_push_def main_ends_books split: if_splits)
      (auto simp: books_def books_ok_def handed_over_def balanced_def)
next
  case (MainEnded r)
  with assms(1,4) show ?thesis by (simp add: main_turn_def)
qed

lemma books_owner:
  assumes "books inv pending p0 s"
  shows "books inv pending p0 (owner_turn ended s)"
proof -
  have "main_failed (owner_turn ended s) = main_failed s" "as_made (owner_turn ended s) = as_made s"
    "as_backend (owner_turn ended s) = as_backend s" "as_arrived (owner_turn ended s) = as_arrived s"
    "as_main (owner_turn ended s) = as_main s" "mg_tried (as_manager (owner_turn ended s)) = mg_tried (as_manager s)"
    "queued_sessions (mg_queue (as_manager (owner_turn ended s))) = queued_sessions (mg_queue (as_manager s))"
    by (simp_all add: owner_turn_def main_failed_def manager_push_def split: owner_phase.split res.split)
  with assms show ?thesis by (simp add: books_def books_ok_def handed_over_def balanced_def)
qed

lemma books_step:
  assumes "books inv pending p0 s" and "agent_wf s" and "agent_step env ev s = Some s'"
    and "\<And>e. ev = MainTurn e \<Longrightarrow> ok e"
  shows "books inv pending p0 s'"
proof (cases ev)
  case (StartCall rx)
  show ?thesis
  proof (cases "as_owner s = OwnerReady \<and> fresh_channel rx s")
    case True
    with assms(1,2) have b: "books_ok inv pending p0 s" "as_main s = MainEnded (Ok ())"
      by (auto simp: books_def main_failed_def agent_wf_def)
    obtain s1 where "agent_start rx s = Ok s1" "as_main s1 = MainRecv" "as_made s1 = as_made s"
      "as_backend s1 = as_backend s" "as_arrived s1 = as_arrived s" "as_manager s1 = as_manager s"
      by (rule agent_start_ok [OF assms(2)])
    with b StartCall True assms(3) books_ok_frame [of s1 s] show ?thesis by (simp add: books_def)
  qed (use StartCall assms in auto)
next
  case StopCall
  show ?thesis
  proof (cases "as_owner s = OwnerRunning")
    case True
    with StopCall assms(3) obtain r s1 where r: "stop_sends (ae_clock env (ts_kernel (as_ticker s))) s = Some (r, s1)"
      "s' = s1\<lparr>as_owner := owner_after r StopWaits\<rparr>" by (auto simp: agent_stop_def)
    have "as_main s1 = as_main s \<and> as_made s1 = as_made s \<and> as_backend s1 = as_backend s
      \<and> as_arrived s1 = as_arrived s \<and> as_manager s1 = as_manager s"
      using r(1) by (auto simp: stop_sends_def Let_def split: option.splits res.splits prod.splits bool.splits)
    with assms(1) r(2) show ?thesis by (simp add: books_def books_ok_def handed_over_def balanced_def main_failed_def)
  qed (use StopCall assms in auto)
next
  case ShutdownCall
  show ?thesis
  proof (cases "as_owner s \<in> {OwnerReady, OwnerRunning}")
    case True
    with ShutdownCall assms(3) have s': "s' = agent_shutdown (ae_ops env) s" by auto
    have "as_backend s' = as_backend s \<or> mx_value (as_backend s') = None"
      by (auto simp: s' agent_shutdown_def bi_shutdown_def split: prod.split res.split)
    moreover have "as_main s' = as_main s" "as_made s' = as_made s" "as_arrived s' = as_arrived s" "as_manager s' = as_manager s"
      by (simp_all add: s' agent_shutdown_def split: prod.split)
    ultimately show ?thesis
      using assms(1) by (auto simp: books_def books_ok_def handed_over_def balanced_def main_failed_def)
  qed (use ShutdownCall assms in auto)
next
  case OwnerTurn
  with assms(3) books_owner [OF assms(1)] show ?thesis by auto
next
  case TimerTurn
  from timer_turn [OF assms(3) [unfolded TimerTurn]] obtain p k ch where
    "s' = s\<lparr>as_ticker := (as_ticker s)\<lparr>ts_phase := p, ts_chans := ch, ts_kernel := k\<rparr>\<rparr>" by metis
  with assms(1) show ?thesis by (simp add: books_def books_ok_def handed_over_def balanced_def main_failed_def)
next
  case (MainTurn e)
  with books_main assms show ?thesis by auto
next
  case ManagerTurn
  with assms(1,3) manager_turn_books [of "ae_push env" "as_manager s"] show ?thesis
    by (auto simp: books_def books_ok_def handed_over_def balanced_def main_failed_def)
qed

lemma books_run:
  assumes "agent_run env evs s = Some s'" and "agent_wf s" and "books inv pending p0 s"
    and "\<And>e. MainTurn e \<in> set evs \<Longrightarrow> ok e"
  shows "books inv pending p0 s'"
proof -
  have "agent_wf s' \<and> books inv pending p0 s'"
    using assms(1) by (rule agent_run_invariant [where P = "\<lambda>s. agent_wf s \<and> books inv pending p0 s"])
      (use assms in \<open>auto intro: agent_wf_step books_step\<close>)
  then show ?thesis ..
qed

end

section \<open>The three backends\<close>

interpretation pprof_agent: agent_books "epoll_step tenv timer_fd epoll_fd" timer_rank
    "linux_agent ops pprof_cycle pprof_arrives tenv timer_fd epoll_fd push"
    pprof_turn_ok pprof_inv pprof_pending pprof_arrives pprof_cycle
  by unfold_locales (simp_all add: linux_agent_def)

interpretation pyspy_agent: agent_books "epoll_step tenv timer_fd epoll_fd" timer_rank
    "linux_agent ops pyspy_cycle pyspy_arrives tenv timer_fd epoll_fd push"
    "\<lambda>(o', _). orders_ok o'" pyspy_inv pyspy_pending pyspy_arrives pyspy_cycle
  by unfold_locales (simp_all add: linux_agent_def)

interpretation rbspy_agent: agent_books "epoll_step tenv timer_fd epoll_fd" timer_rank
    "linux_agent ops rbspy_cycle rbspy_arrives tenv timer_fd epoll_fd push"
    "\<lambda>(o', _). orders_ok o'" rbspy_inv rbspy_pending rbspy_arrives rbspy_cycle
  by unfold_locales (simp_all add: linux_agent_def)

lemma books_start:
  assumes "agent_wf s" and "as_made s = []" and "as_manager s = manager_new" and "as_arrived s = (\<lambda>_. 0)"
    and "as_main s = MainEnded (Ok ())" and "as_backend s = Mutex False (Some b)" and "holds b"
  shows "books holds pending (pending b) s"
  using assms by (simp add: books_def books_ok_def handed_over_def balanced_def manager_new_def sessions_report_def)


definition ex_agent_builder :: "pprof_backend agent_builder" where
  "ex_agent_builder = ab_new ''http://localhost'' ''app'' 100 ''spy'' ''1'' (bi_new (pprof_new 100 bc_default))"

definition ex_agent_ops :: "pprof_backend backend_ops" where
  "ex_agent_ops = pprof_ops ex_orders ex_answers"

definition ex_agent_events :: "pprof_turn agent_event list" where
  "ex_agent_events = [StartCall 5, TimerTurn, TimerTurn, TimerTurn, MainTurn (ex_orders, ex_answers),
     MainTurn (ex_orders, ex_answers), ManagerTurn, StopCall, MainTurn (ex_orders, ex_answers)]"

abbreviation "ex_linux_agent \<equiv> linux_agent ex_agent_ops pprof_cycle pprof_arrives ex_timer_env 0 0 (\<lambda>_. Ok ())"


text \<open>The same for py-spy and rbspy, from any state with its books in order.\<close>

lemma pyspy_agent_accounts:
  assumes "agent_run (linux_agent ops pyspy_cycle pyspy_arrives tenv tfd efd push) evs s = Some s'"
    and "agent_wf s" and "books pyspy_inv pyspy_pending p0 s" and "\<And>e. MainTurn e \<in> set evs \<Longrightarrow> orders_ok (fst e)"
  shows "books pyspy_inv pyspy_pending p0 s'"
  by (rule pyspy_agent.books_run [OF assms(1-3)]) (use assms(4) in force)

lemma rbspy_agent_accounts:
  assumes "agent_run (linux_agent ops rbspy_cycle rbspy_arrives tenv tfd efd push) evs s = Some s'"
    and "agent_wf s" and "books rbspy_inv rbspy_pending p0 s" and "\<And>e. MainTurn e \<in> set evs \<Longrightarrow> orders_ok (fst e)"
  shows "books rbspy_inv rbspy_pending p0 s'"
  by (rule rbspy_agent.books_run [OF assms(1-3)]) (use assms(4) in force)

end
