(* ===== verification/AgentStop.thy ===== *)
theory AgentStop
  imports AgentBooks
begin

text \<open>
  The way of a stopped agent to its end: backends whose reports succeed, the number of turns that the
  main thread still needs, and that every round of turns brings it nearer to its end.
\<close>

section \<open>Backends whose reports succeed\<close>

locale live_source =
  fixes ok :: "'e \<Rightarrow> bool" and inv :: "'b \<Rightarrow> bool" and take_report :: "'e \<Rightarrow> 'b \<Rightarrow> report list presult \<times> 'b"
  assumes report_succeeds: "ok e \<Longrightarrow> inv b \<Longrightarrow> \<exists>rs b'. take_report e b = (Ok rs, b') \<and> inv b'"

lemma take_buffer_succeeds:
  assumes "buffer_ok m" and "buffer_ok (between m)"
  shows "\<exists>rs m'. take_buffer o' between m = (Ok rs, m')"
  using assms by (simp add: take_buffer_def copy_buffer_def clear_buffer_def buffer_ok_def)

interpretation live_pyspy: live_source "\<lambda>(o', _). orders_ok o'" pyspy_inv pyspy_cycle
proof
  fix e :: pyspy_turn and b
  obtain o' before between where e: "e = (o', before, between)" by (cases e)
  assume ok: "case e of (o', _) \<Rightarrow> orders_ok o'" and inv: "pyspy_inv b"
  from pyspy_sample_ok [OF inv, of "bo_rules o'" before] obtain m where
    m: "pyspy_sample (bo_rules o') before b = (Ok (), b\<lparr>yb_buffer := m\<rparr>)" "buffer_ok m" by blast
  from inv m(2) have "pyspy_inv (b\<lparr>yb_buffer := m\<rparr>)" by (simp add: pyspy_inv_def)
  from pyspy_sample_ok [OF this, of "bo_rules o'" between] obtain m' where
    "pyspy_sample (bo_rules o') between (b\<lparr>yb_buffer := m\<rparr>) = (Ok (), b\<lparr>yb_buffer := m\<rparr>\<lparr>yb_buffer := m'\<rparr>)" "buffer_ok m'"
    by blast
  then have "buffer_ok (yb_buffer (snd (pyspy_sample (bo_rules o') between (b\<lparr>yb_buffer := m\<rparr>\<lparr>yb_buffer := m\<rparr>))))" by simp
  from take_buffer_succeeds [where between = "\<lambda>x. yb_buffer (snd (pyspy_sample (bo_rules o') between (b\<lparr>yb_buffer := m\<rparr>\<lparr>yb_buffer := x\<rparr>)))",
      OF m(2) this, of o'] m(1) have "\<exists>rs b'. pyspy_cycle e b = (Ok rs, b')"
    by (auto simp: e pyspy_cycle_def pyspy_report_def split: prod.split)
  then obtain rs b' where r: "pyspy_cycle e b = (Ok rs, b')" by blast
  from ys.report_ok [OF ok inv r] r show "\<exists>rs b'. pyspy_cycle e b = (Ok rs, b') \<and> pyspy_inv b'" by blast
qed

interpretation live_rbspy: live_source "\<lambda>(o', _). orders_ok o'" rbspy_inv rbspy_cycle
proof
  fix e :: rbspy_turn and b
  obtain o' before between where e: "e = (o', before, between)" by (cases e)
  assume ok: "case e of (o', _) \<Rightarrow> orders_ok o'" and inv: "rbspy_inv b"
  from rbspy_receive_ok [OF inv, of "bo_rules o'" before] obtain m where
    m: "rbspy_receive (bo_rules o') before b = (Ok (), b\<lparr>rb_buffer := m\<rparr>)" "buffer_ok m" by blast
  from inv m(2) have "rbspy_inv (b\<lparr>rb_buffer := m\<rparr>)" by (simp add: rbspy_inv_def)
  from rbspy_receive_ok [OF this, of "bo_rules o'" between] obtain m' where
    "rbspy_receive (bo_rules o') between (b\<lparr>rb_buffer := m\<rparr>) = (Ok (), b\<lparr>rb_buffer := m\<rparr>\<lparr>rb_buffer := m'\<rparr>)" "buffer_ok m'"
    by blast
  then have "buffer_ok (rb_buffer (snd (rbspy_receive (bo_rules o') between (b\<lparr>rb_buffer := m\<rparr>\<lparr>rb_buffer := m\<rparr>))))" by simp
  from take_buffer_succeeds [where between = "\<lambda>x. rb_buffer (snd (rbspy_receive (bo_rules o') between (b\<lparr>rb_buffer := m\<rparr>\<lparr>rb_buffer := x\<rparr>)))",
      OF m(2) this, of o'] m(1) have "\<exists>rs b'. rbspy_cycle e b = (Ok rs, b')"
    by (auto simp: e rbspy_cycle_def rbspy_report_def split: prod.split)
  then obtain rs' b' where r: "rbspy_cycle e b = (Ok rs', b')" by blast
  from rs.report_ok [OF ok inv r] r show "\<exists>rs b'. rbspy_cycle e b = (Ok rs, b') \<and> rbspy_inv b'" by blast
qed

section \<open>The way to the end of the main thread\<close>

text \<open>How many snapshots the main thread takes up before it is terminated, and how many of its turns
  that needs.\<close>

definition before_end :: "('b, 'p, 'k) agent_sys \<Rightarrow> nat" where
  "before_end s = length (takeWhile (\<lambda>g. g \<noteq> TerminateSignal) (as_inbox s))"

fun turns_left :: "nat \<Rightarrow> main_phase \<Rightarrow> nat" where
  "turns_left n MainRecv = 2 * (n + 1)"
| "turns_left n (MainPush s) = 2 * (n + 1) + 1"
| "turns_left n (MainEnded r) = 0"

definition to_stop :: "('b, 'p, 'k) agent_sys \<Rightarrow> nat" where
  "to_stop s = turns_left (before_end s) (as_main s)"

definition manager_room :: "('b, 'p, 'k) agent_sys \<Rightarrow> bool" where
  "manager_room s \<longleftrightarrow> length (mg_queue (as_manager s)) < 10"

definition stopping :: "('b \<Rightarrow> bool) \<Rightarrow> nat \<Rightarrow> ('b, 'p, 'k) agent_sys \<Rightarrow> bool" where
  "stopping holds n s \<longleftrightarrow> agent_wf s \<and> as_owner s \<in> {StopWaits, OwnerReady}
     \<and> mg_end (as_manager s) = ManagerWaiting \<and> KillManager \<notin> set (mg_queue (as_manager s))
     \<and> length (mg_queue (as_manager s)) \<le> 10
     \<and> (\<exists>b. as_backend s = Mutex False (Some b) \<and> holds b)
     \<and> (mx_value (as_running s) \<longrightarrow> \<not> main_done (as_main s) \<and> TerminateSignal \<in> set (as_inbox s))
     \<and> (main_done (as_main s) \<longrightarrow> as_inbox s = [])
     \<and> length (as_made s) + before_end s = n"

text \<open>A turn of a thread, or of the owner who waits.\<close>

fun thread_turn :: "('e \<Rightarrow> bool) \<Rightarrow> 'e agent_event \<Rightarrow> bool" where
  "thread_turn ok (MainTurn e) = ok e"
| "thread_turn ok TimerTurn = True"
| "thread_turn ok ManagerTurn = True"
| "thread_turn ok OwnerTurn = True"
| "thread_turn ok _ = False"

text \<open>In a round the manager has a turn and then the main thread has one.\<close>

definition fair_round :: "('e \<Rightarrow> bool) \<Rightarrow> 'e agent_event list \<Rightarrow> bool" where
  "fair_round ok evs \<longleftrightarrow> list_all (thread_turn ok) evs \<and> (\<exists>as bs cs e. evs = as @ ManagerTurn # bs @ MainTurn e # cs)"

locale agent_live = agent_machine tick rank env + live_source ok inv take_report
  for tick :: "('p, 'k) timer_step" and rank :: "'p \<Rightarrow> nat" and env :: "('e, 'b, 'p, 'k) agent_env"
    and ok :: "'e \<Rightarrow> bool" and inv :: "'b \<Rightarrow> bool" and take_report :: "'e \<Rightarrow> 'b \<Rightarrow> report list presult \<times> 'b" +
  assumes reports: "ae_report env = take_report"
begin

lemma stopping_wf: "stopping inv n s \<Longrightarrow> agent_wf s"
  by (simp add: stopping_def)

lemma stopping_timer:
  assumes "stopping inv n s" and "agent_step env TimerTurn s = Some s'"
  shows "stopping inv n s' \<and> to_stop s' = to_stop s \<and> as_manager s' = as_manager s"
proof -
  from timer_turn [OF assms(2)] obtain p k ch us where
    s': "s' = s\<lparr>as_ticker := (as_ticker s)\<lparr>ts_phase := p, ts_chans := ch, ts_kernel := k\<rparr>\<rparr>"
    "ch (as_rx s) = (if ch_connected (as_chans s (as_rx s)) then (as_chans s (as_rx s))\<lparr>ch_queue := as_inbox s @ map NextSnapshot us\<rparr>
       else as_chans s (as_rx s))" by metis
  have alive: "ch_connected (as_chans s (as_rx s)) \<longleftrightarrow> \<not> main_done (as_main s)"
    using stopping_wf [OF assms(1)] by (simp add: agent_wf_def)
  have inbox: "as_inbox s' = (if main_done (as_main s) then as_inbox s else as_inbox s @ map NextSnapshot us)"
    using s' alive by simp
  have pend: "\<not> main_done (as_main s) \<Longrightarrow> TerminateSignal \<in> set (as_inbox s)"
    using assms(1) by (auto simp: stopping_def agent_wf_def)
  have same: "before_end s' = before_end s" using pend inbox by (auto simp: before_end_def takeWhile_append1)
  have "agent_wf s'" by (rule agent_wf_step [OF stopping_wf [OF assms(1)] assms(2)])
  moreover have "as_owner s' = as_owner s" "as_manager s' = as_manager s" "as_backend s' = as_backend s"
    "as_running s' = as_running s" "as_main s' = as_main s" "as_made s' = as_made s" by (simp_all add: s')
  ultimately show ?thesis
    using assms(1) same inbox unfolding stopping_def to_stop_def by simp
qed

lemma stopping_manager:
  assumes "stopping inv n s" and "\<And>x. ae_push env x \<noteq> Panic" and "agent_step env ManagerTurn s = Some s'"
  shows "stopping inv n s' \<and> to_stop s' = to_stop s \<and> manager_room s'"
proof -
  have s': "s' = s\<lparr>as_manager := manager_turn (ae_push env) (as_manager s)\<rparr>" using assms(3) by simp
  have "agent_wf s'" by (rule agent_wf_step [OF stopping_wf [OF assms(1)] assms(3)])
  moreover have "mg_end (as_manager s') = ManagerWaiting \<and> KillManager \<notin> set (mg_queue (as_manager s')) \<and> manager_room s'"
    using assms(1,2) by (auto simp: s' stopping_def manager_turn_def manager_room_def split: list.splits session_signal.splits)
  ultimately show ?thesis using assms(1) by (simp add: s' stopping_def to_stop_def before_end_def manager_room_def)
qed

lemma stopping_owner:
  assumes "stopping inv n s" and "agent_step env OwnerTurn s = Some s'"
  shows "stopping inv n s' \<and> to_stop s' = to_stop s \<and> as_manager s' = as_manager s"
proof -
  from assms(1) have "as_owner s \<in> {StopWaits, OwnerReady}" "\<not> mx_poisoned (as_running s)"
    by (simp_all add: stopping_def agent_wf_def)
  with assms(2) have "s' = s \<or> s' = s\<lparr>as_owner := OwnerReady\<rparr>" by (auto simp: owner_turn_def split: if_splits)
  moreover have "agent_wf s'" by (rule agent_wf_step [OF stopping_wf [OF assms(1)] assms(2)])
  moreover have "stopping inv n (s\<lparr>as_owner := OwnerReady\<rparr>) \<and> to_stop (s\<lparr>as_owner := OwnerReady\<rparr>) = to_stop s"
    if "agent_wf (s\<lparr>as_owner := OwnerReady\<rparr>)"
    using that assms(1) by (simp add: stopping_def to_stop_def before_end_def)
  ultimately show ?thesis using assms(1) by auto
qed

lemma stopping_main:
  assumes "stopping inv n s" and "ok e" and "\<And>k. \<exists>now. ae_clock env k 0 = Ok now \<and> now \<noteq> 0"
    and "agent_step env (MainTurn e) s = Some s'"
  shows "stopping inv n s' \<and> (to_stop s' < to_stop s \<or> s' = s \<and> (to_stop s = 0 \<or> \<not> manager_room s))"
proof (cases "as_main s")
  case MainRecv
  with assms(1) have "mx_value (as_running s)" "TerminateSignal \<in> set (as_inbox s)"
    by (auto simp: stopping_def agent_wf_def)
  then obtain g gs where gs: "as_inbox s = g # gs" by (cases "as_inbox s") auto
  let ?s = "set_chan (as_rx s) ((as_chans s (as_rx s))\<lparr>ch_queue := gs\<rparr>) s"
  have wf: "agent_wf s'" by (rule agent_wf_step [OF stopping_wf [OF assms(1)] assms(4)])
  show ?thesis
  proof (cases g)
    case TerminateSignal
    then have "before_end s = 0" using gs by (simp add: before_end_def)
    have "\<not> mx_poisoned (as_running s)" using stopping_wf [OF assms(1)] by (simp add: agent_wf_def)
    then have s': "s' = main_ends (Ok ()) (?s\<lparr>as_running := mx_store (as_running ?s) False\<rparr>)"
      using TerminateSignal MainRecv gs assms(4) by (simp add: main_turn_def Let_def)
    have f: "as_main s' = MainEnded (Ok ())" "as_owner s' = as_owner s" "as_manager s' = as_manager s"
      "as_backend s' = as_backend s" "as_made s' = as_made s" "as_inbox s' = []" "\<not> mx_value (as_running s')"
      using \<open>\<not> mx_poisoned (as_running s)\<close> by (simp_all add: s' mx_store_def)
    then have "before_end s' = 0" by (simp add: before_end_def)
    with \<open>before_end s = 0\<close> MainRecv assms(1) wf f show ?thesis by (simp add: stopping_def to_stop_def)
  next
    case (NextSnapshot u)
    obtain b where b: "as_backend s = Mutex False (Some b)" "inv b" using assms(1) by (auto simp: stopping_def)
    from report_succeeds [OF assms(2) b(2)] obtain rs b' where r: "take_report e b = (Ok rs, b')" "inv b'" by blast
    obtain now where now: "ae_clock env (ts_kernel (as_ticker s)) 0 = Ok now" "now \<noteq> 0" using assms(3) by blast
    have "\<exists>x. session_new (ae_clock env (ts_kernel (as_ticker s))) u c rs = Some (Ok x)" for c
      using now by (cases "u = 0") (auto simp: session_new_def get_time_range_zero)
    then obtain x where "session_new (ae_clock env (ts_kernel (as_ticker s))) u (as_config s) rs = Some (Ok x)" by blast
    with NextSnapshot MainRecv gs assms(4) b r(1) have s': "as_main s' = MainPush x" "as_made s' = as_made s @ [x]"
      "as_backend s' = Mutex False (Some b')" "as_inbox s' = gs" "as_owner s' = as_owner s" "as_manager s' = as_manager s"
      "as_running s' = as_running s"
      by (auto simp: main_turn_def Let_def main_snapshot_def reports)
    have before: "before_end s = Suc (before_end s')" using gs NextSnapshot s'(4) by (simp add: before_end_def)
    have "TerminateSignal \<in> set gs" using \<open>TerminateSignal \<in> set (as_inbox s)\<close> gs NextSnapshot by simp
    with assms(1) wf s' before r(2) MainRecv show ?thesis by (simp add: stopping_def to_stop_def)
  qed
next
  case (MainPush x)
  have "manager_push (SendSession x) (as_manager s) = (if manager_room s
      then (Pushed, (as_manager s)\<lparr>mg_queue := mg_queue (as_manager s) @ [SendSession x]\<rparr>) else (PushWaits, as_manager s))"
    using assms(1) by (simp add: stopping_def manager_push_def manager_room_def)
  with MainPush assms(4) have s': "s' = (if manager_room s
      then s\<lparr>as_manager := (as_manager s)\<lparr>mg_queue := mg_queue (as_manager s) @ [SendSession x]\<rparr>, as_main := MainRecv\<rparr> else s)"
    by (simp add: main_turn_def split: if_splits)
  have wf: "agent_wf s'" by (rule agent_wf_step [OF stopping_wf [OF assms(1)] assms(4)])
  show ?thesis
  proof (cases "manager_room s")
    case True
    with assms(1) MainPush s' wf show ?thesis
      by (simp add: stopping_def to_stop_def before_end_def manager_room_def)
  qed (use assms(1) s' in simp)
next
  case (MainEnded r)
  with assms(1,4) show ?thesis by (simp add: main_turn_def to_stop_def)
qed

text \<open>No turn leads away from the end, and after a turn of the manager there is room until the
  main thread gets nearer to it.\<close>

lemma stopping_turns:
  assumes "agent_run env evs s = Some s'" and "list_all (thread_turn ok) evs" and "stopping inv n s"
    and "\<And>x. ae_push env x \<noteq> Panic" and "\<And>k. \<exists>now. ae_clock env k 0 = Ok now \<and> now \<noteq> 0"
  shows "stopping inv n s' \<and> to_stop s' \<le> to_stop s \<and> (manager_room s \<longrightarrow> manager_room s' \<or> to_stop s' < to_stop s)"
  using assms(1-3)
proof (induction evs arbitrary: s)
  case Nil
  then show ?case by simp
next
  case (Cons ev evs)
  from Cons.prems(1) obtain s1 where s1: "agent_step env ev s = Some s1" "agent_run env evs s1 = Some s'"
    by (auto split: option.splits)
  have "stopping inv n s1 \<and> to_stop s1 \<le> to_stop s \<and> (manager_room s \<longrightarrow> manager_room s1 \<or> to_stop s1 < to_stop s)"
  proof (cases ev)
    case OwnerTurn
    with stopping_owner [OF Cons.prems(3)] s1(1) show ?thesis by (auto simp: manager_room_def)
  next
    case TimerTurn
    with stopping_timer [OF Cons.prems(3)] s1(1) show ?thesis by (auto simp: manager_room_def)
  next
    case (MainTurn e)
    with Cons.prems(2) stopping_main [OF Cons.prems(3) _ assms(5)] s1(1) show ?thesis by fastforce
  next
    case ManagerTurn
    with stopping_manager [OF Cons.prems(3) assms(4)] s1(1) show ?thesis by auto
  qed (use Cons.prems(2) in auto)
  with Cons.IH [OF s1(2)] Cons.prems(2) show ?case by auto
qed

lemma stopping_round:
  assumes "agent_run env evs s = Some s'" and "fair_round ok evs" and "stopping inv n s"
    and "\<And>x. ae_push env x \<noteq> Panic" and "\<And>k. \<exists>now. ae_clock env k 0 = Ok now \<and> now \<noteq> 0"
  shows "stopping inv n s' \<and> to_stop s' \<le> to_stop s - 1"
proof -
  note turns = stopping_turns [OF _ _ _ assms(4,5)]
  from assms(2) obtain as bs cs e where evs: "evs = as @ ManagerTurn # bs @ MainTurn e # cs"
    and ok: "list_all (thread_turn ok) as" "list_all (thread_turn ok) bs" "list_all (thread_turn ok) cs" "ok e"
    by (auto simp: fair_round_def)
  from assms(1) evs obtain s1 s2 s3 s4 where r: "agent_run env as s = Some s1" "agent_step env ManagerTurn s1 = Some s2"
    "agent_run env bs s2 = Some s3" "agent_step env (MainTurn e) s3 = Some s4" "agent_run env cs s4 = Some s'"
    by (auto simp: agent_run_append simp del: agent_step.simps split: option.splits)
  from turns [OF r(1) ok(1) assms(3)] have 1: "stopping inv n s1" "to_stop s1 \<le> to_stop s" by auto
  from stopping_manager [OF 1(1) assms(4) r(2)] have 2: "stopping inv n s2" "to_stop s2 = to_stop s1" "manager_room s2" by auto
  from turns [OF r(3) ok(2) 2(1)] 2(3) have 3: "stopping inv n s3" "to_stop s3 \<le> to_stop s2" "manager_room s3 \<or> to_stop s3 < to_stop s2"
    by auto
  from stopping_main [OF 3(1) ok(4) assms(5) r(4)] have 4: "stopping inv n s4"
    "to_stop s4 < to_stop s3 \<or> s4 = s3 \<and> (to_stop s3 = 0 \<or> \<not> manager_room s3)" by auto
  from turns [OF r(5) ok(3) 4(1)] have 5: "stopping inv n s'" "to_stop s' \<le> to_stop s4" by auto
  from 1(2) 2(2) 3(2,3) 4(2) 5 show ?thesis by auto
qed

lemma stopping_rounds:
  assumes "agent_run env (concat rounds) s = Some s'" and "list_all (fair_round ok) rounds" and "stopping inv n s"
    and "\<And>x. ae_push env x \<noteq> Panic" and "\<And>k. \<exists>now. ae_clock env k 0 = Ok now \<and> now \<noteq> 0"
  shows "stopping inv n s' \<and> to_stop s' \<le> to_stop s - length rounds"
  using assms(1-3)
proof (induction rounds arbitrary: s)
  case Nil
  then show ?case by simp
next
  case (Cons evs rounds)
  from Cons.prems(1) obtain s1 where s1: "agent_run env evs s = Some s1" "agent_run env (concat rounds) s1 = Some s'"
    by (auto simp: agent_run_append split: option.splits)
  from Cons.prems(2) have "fair_round ok evs" by simp
  from stopping_round [OF s1(1) this Cons.prems(3) assms(4,5)] Cons.IH [OF s1(2)] Cons.prems(2) show ?case by auto
qed

end

end
