(* ===== verification/AgentEnd.thy ===== *)
theory AgentEnd
  imports AgentStop
begin

text \<open>
  Stopping and shutting down: \<open>stop\<close> returns after boundedly many rounds if no report fails, and never
  if the last one does; \<open>shutdown\<close> of a running agent whose main thread is idle never returns.
\<close>

section \<open>Stop returns\<close>

context agent_live
begin

lemma stop_starts:
  assumes "agent_wf s" and "as_owner s = OwnerRunning" and "\<not> main_done (as_main s)" and "as_manager s = m"
    and "mg_end m = ManagerWaiting" and "KillManager \<notin> set (mg_queue m)" and "length (mg_queue m) \<le> 10"
    and "as_backend s = Mutex False (Some b)" and "inv b" and "clock 0 = Ok now" and "now \<noteq> 0"
    and "agent_stop clock s = Some s1"
  shows "stopping inv (length (as_made s) + length (as_inbox s) + 1) s1 \<and> to_stop s1 \<le> 2 * length (as_inbox s) + 5"
proof -
  from assms(1,2) have tx: "as_tx s = Some (as_rx s)" and snaps: "TerminateSignal \<notin> set (as_inbox s)"
    by (simp_all add: agent_wf_def)
  have open': "ch_connected (as_chans s (as_rx s))" using assms(1,3) by (simp add: agent_wf_def)
  obtain u where s1: "s1 = set_chan (as_rx s) ((as_chans s (as_rx s))\<lparr>ch_queue := as_inbox s @ [NextSnapshot u, TerminateSignal]\<rparr>)
      (s\<lparr>as_tx := None\<rparr>)\<lparr>as_owner := StopWaits\<rparr>"
    using assms(10-12) tx open' by (auto simp: agent_stop_def stop_sends_def ch_send_def get_time_range_zero owner_after_def Let_def)
  have "agent_wf s1" by (rule agent_wf_stop [OF assms(1,2,12)])
  moreover have "takeWhile (\<lambda>g. g \<noteq> TerminateSignal) (as_inbox s @ [NextSnapshot u, TerminateSignal]) = as_inbox s @ [NextSnapshot u]"
    using snaps by (subst takeWhile_append2) auto
  then have before: "before_end s1 = length (as_inbox s) + 1" by (simp add: s1 before_end_def)
  moreover have "to_stop s1 \<le> 2 * (before_end s1 + 1) + 1" by (cases "as_main s1") (simp_all add: to_stop_def)
  ultimately show ?thesis using assms(3-9) by (auto simp: stopping_def s1)
qed

lemma stop_returns:
  assumes "agent_wf s" and "as_owner s = OwnerRunning" and "\<not> main_done (as_main s)" and "as_manager s = m"
    and "mg_end m = ManagerWaiting" and "KillManager \<notin> set (mg_queue m)" and "length (mg_queue m) \<le> 10"
    and "as_backend s = Mutex False (Some b)" and "inv b"
    and "\<And>x. ae_push env x \<noteq> Panic" and "\<And>k. \<exists>now. ae_clock env k 0 = Ok now \<and> now \<noteq> 0"
    and "list_all (fair_round ok) rounds" and "2 * length (as_inbox s) + 5 \<le> length rounds"
    and "agent_run env (StopCall # concat rounds @ [OwnerTurn]) s = Some s'"
  shows "as_owner s' = OwnerReady \<and> as_main s' = MainEnded (Ok ())
    \<and> length (as_made s') = length (as_made s) + length (as_inbox s) + 1"
proof -
  obtain now where now: "ae_clock env (ts_kernel (as_ticker s)) 0 = Ok now" "now \<noteq> 0" using assms(11) by blast
  from assms(2,14) obtain s1 s2 where r: "agent_stop (ae_clock env (ts_kernel (as_ticker s))) s = Some s1"
    "agent_run env (concat rounds) s1 = Some s2" "s' = owner_turn (ae_ended env) s2"
    by (auto simp: agent_run_append split: option.splits)
  from stop_starts [OF assms(1-9) now r(1)] have 1: "stopping inv (length (as_made s) + length (as_inbox s) + 1) s1"
    "to_stop s1 \<le> 2 * length (as_inbox s) + 5" by auto
  from stopping_rounds [OF r(2) assms(12) 1(1) assms(10,11)] 1(2) assms(13) have
    2: "stopping inv (length (as_made s) + length (as_inbox s) + 1) s2" and "to_stop s2 = 0" by auto
  then have "main_done (as_main s2)" by (cases "as_main s2") (simp_all add: to_stop_def)
  with 2 have 3: "\<not> mx_value (as_running s2)" "\<not> mx_poisoned (as_running s2)" "as_inbox s2 = []"
    "as_owner s2 \<in> {StopWaits, OwnerReady}" "as_main s2 = MainEnded (Ok ())"
    by (auto simp: stopping_def agent_wf_def)
  then have "as_owner s' = OwnerReady" "as_main s' = as_main s2" "as_made s' = as_made s2"
    unfolding r(3) by (auto simp: owner_turn_def)
  with 2 3 show ?thesis by (simp add: stopping_def before_end_def)
qed

end

interpretation pyspy_live: agent_live "epoll_step tenv timer_fd epoll_fd" timer_rank
    "linux_agent ops pyspy_cycle pyspy_arrives tenv timer_fd epoll_fd push"
    "\<lambda>(o', _). orders_ok o'" pyspy_inv pyspy_cycle
  by unfold_locales (simp_all add: linux_agent_def)

interpretation rbspy_live: agent_live "epoll_step tenv timer_fd epoll_fd" timer_rank
    "linux_agent ops rbspy_cycle rbspy_arrives tenv timer_fd epoll_fd push"
    "\<lambda>(o', _). orders_ok o'" rbspy_inv rbspy_cycle
  by unfold_locales (simp_all add: linux_agent_def)

section \<open>Waiting for ever\<close>

context agent_machine
begin

lemma failed_step:
  assumes "agent_wf s" and "main_failed s" and "agent_step env ev s = Some s'" and "as_owner s = StopWaits"
  shows "main_failed s' \<and> as_owner s' = StopWaits"
proof (cases ev)
  case OwnerTurn
  from assms(1,2) have "mx_value (as_running s)" "\<not> mx_poisoned (as_running s)" by (auto simp: agent_wf_def main_failed_def)
  with OwnerTurn assms show ?thesis by (simp add: owner_turn_def)
next
  case TimerTurn
  from timer_turn [OF assms(3) [unfolded TimerTurn]] obtain p k ch where
    "s' = s\<lparr>as_ticker := (as_ticker s)\<lparr>ts_phase := p, ts_chans := ch, ts_kernel := k\<rparr>\<rparr>" by metis
  with assms(2,4) show ?thesis by (simp add: main_failed_def)
next
  case (MainTurn e)
  with assms(2-4) show ?thesis by (auto simp: main_failed_def main_turn_def)
qed (use assms in \<open>auto simp: main_failed_def\<close>)

lemma failed_run:
  assumes "agent_run env evs s = Some s'" and "agent_wf s" and "main_failed s" and "as_owner s = StopWaits"
  shows "as_owner s' = StopWaits"
proof -
  have "agent_wf s' \<and> main_failed s' \<and> as_owner s' = StopWaits"
    using assms(1) by (rule agent_run_invariant [where P = "\<lambda>s. agent_wf s \<and> main_failed s \<and> as_owner s = StopWaits"])
      (use assms in \<open>auto intro: agent_wf_step dest: failed_step\<close>)
  then show ?thesis by blast
qed

lemma stop_hangs:
  assumes "agent_wf s" and "as_owner s = StopWaits" and "as_main s = MainRecv" and "as_inbox s = NextSnapshot u # gs"
    and "as_backend s = Mutex False (Some b)" and "ae_report env e b = (Err x, b')"
    and "agent_run env (MainTurn e # evs) s = Some s'"
  shows "as_owner s' = StopWaits"
proof -
  from assms(7) obtain s1 where s1: "agent_step env (MainTurn e) s = Some s1" "agent_run env evs s1 = Some s'"
    by (auto split: option.splits)
  have "main_failed s1 \<and> as_owner s1 = StopWaits"
    using s1(1) assms(2-6) by (auto simp: main_turn_def Let_def main_snapshot_def main_failed_def)
  with failed_run [OF s1(2) agent_wf_step [OF assms(1) s1(1)]] show ?thesis by blast
qed

text \<open>A main thread that has nothing to receive, and an owner who waits for it with a sender.\<close>

definition deadlocked :: "('b, 'p, 'k) agent_sys \<Rightarrow> bool" where
  "deadlocked s \<longleftrightarrow> as_owner s \<in> {ShutdownJoinsTimer, ShutdownKills, ShutdownJoinsManager, ShutdownJoinsMain}
     \<and> \<not> mx_poisoned (as_txs s) \<and> mx_value (as_txs s) = [] \<and> as_tx s = Some (as_rx s) \<and> as_main s = MainRecv
     \<and> as_inbox s = [] \<and> as_handle s"

lemma deadlocked_owner:
  assumes "deadlocked s"
  shows "deadlocked (owner_turn ended s)"
proof -
  from assms have "as_owner s \<in> {ShutdownJoinsTimer, ShutdownKills, ShutdownJoinsManager, ShutdownJoinsMain}"
    and joins: "as_handle s" "\<not> main_done (as_main s)" by (simp_all add: deadlocked_def)
  show ?thesis
  proof (cases "as_owner s")
    case ShutdownJoinsTimer
    with assms show ?thesis by (simp add: owner_turn_def deadlocked_def)
  next
    case ShutdownKills
    with assms show ?thesis by (simp add: owner_turn_def deadlocked_def manager_push_def)
  next
    case ShutdownJoinsManager
    with assms show ?thesis by (simp add: owner_turn_def deadlocked_def)
  next
    case ShutdownJoinsMain
    with assms joins show ?thesis by (simp add: owner_turn_def deadlocked_def)
  qed (use assms in \<open>simp_all add: deadlocked_def\<close>)
qed

lemma deadlocked_step:
  assumes "deadlocked s" and "agent_step env ev s = Some s'"
  shows "deadlocked s'"
proof (cases ev)
  case OwnerTurn
  with deadlocked_owner [OF assms(1)] assms(2) show ?thesis by auto
next
  case TimerTurn
  from timer_turn [OF assms(2) [unfolded TimerTurn]] obtain p k ch where
    t: "s' = s\<lparr>as_ticker := (as_ticker s)\<lparr>ts_phase := p, ts_chans := ch, ts_kernel := k\<rparr>\<rparr>"
    "tick (ts_phase (as_ticker s)) (as_txs s) (as_chans s) (ts_kernel (as_ticker s)) = Some (p, ch, k)" by metis
  from step_quits [OF _ _ t(2)] assms(1) have "ch = as_chans s" by (simp add: deadlocked_def)
  with t(1) assms(1) show ?thesis by (simp add: deadlocked_def)
next
  case (MainTurn e)
  with assms have "s' = s" by (simp add: deadlocked_def main_turn_def has_sender_def)
  with assms(1) show ?thesis by simp
next
  case ManagerTurn
  with assms have "s' = s\<lparr>as_manager := manager_turn (ae_push env) (as_manager s)\<rparr>" by simp
  with assms(1) show ?thesis by (simp add: deadlocked_def)
next
  case (StartCall rx)
  with assms have "s' = s" by (auto simp: deadlocked_def)
  with assms(1) show ?thesis by simp
next
  case StopCall
  with assms have "s' = s" by (auto simp: deadlocked_def)
  with assms(1) show ?thesis by simp
next
  case ShutdownCall
  with assms have "s' = s" by (auto simp: deadlocked_def)
  with assms(1) show ?thesis by simp
qed

lemma shutdown_hangs:
  assumes "agent_wf s" and "as_owner s = OwnerRunning" and "as_main s = MainRecv" and "as_inbox s = []"
    and "as_backend s = Mutex False (Some b)" and "bk_shutdown (ae_ops env) b \<noteq> Panic"
    and "agent_run env (ShutdownCall # OwnerTurn # evs) s = Some s'"
  shows "as_owner s' \<noteq> OwnerGone"
proof -
  let ?s = "owner_turn (ae_ended env) (agent_shutdown (ae_ops env) s)"
  have shut: "agent_shutdown (ae_ops env) s = s\<lparr>as_backend := Mutex False None, as_owner := ShutdownDrops\<rparr>"
    using assms(5,6) by (simp add: agent_shutdown_def bi_shutdown_def)
  have "\<not> mx_poisoned (as_txs s)" "as_tx s = Some (as_rx s)" "as_handle s" using assms(1,2) by (simp_all add: agent_wf_def)
  with assms(3,4) have d: "deadlocked ?s" by (simp add: shut owner_turn_def deadlocked_def)
  from assms(2,7) have "agent_run env evs ?s = Some s'" by simp
  then have "deadlocked s'" by (rule agent_run_invariant [where P = deadlocked]) (use d deadlocked_step in auto)
  then show ?thesis by (auto simp: deadlocked_def)
qed

end

end
