(* ===== verification/AgentRuns.thy ===== *)
theory AgentRuns
  imports AgentCorrect
begin

text \<open>
  With a clock that works every step of the agent returns, in any state and order, so that every
  sequence of events is a run: what is said of all runs is said of all sequences of events.
\<close>

lemma session_new_returns: "clock_works clock \<Longrightarrow> \<exists>r. session_new clock u c reports = Some r"
  using time_range_returns [of clock u] by (auto simp: session_new_def)

lemma stop_returns_value: "clock_works clock \<Longrightarrow> \<exists>s'. agent_stop clock s = Some s'"
  using time_range_returns [of clock 0]
  by (auto simp: agent_stop_def stop_sends_def Let_def split: option.split res.split prod.split bool.split)

lemma main_snapshot_returns:
  assumes "clock_works clock"
  shows "\<exists>s'. main_snapshot rep arrives clock e u s = Some s'"
proof (cases "with_backend (rep e) (as_backend s)")
  case (Pair w m)
  show ?thesis
  proof (cases w)
    case (Ok reports)
    obtain r where "session_new clock u (as_config s) reports = Some r" using session_new_returns [OF assms] by blast
    then show ?thesis using Pair Ok by (cases r) (simp_all add: main_snapshot_def Let_def)
  qed (use Pair in \<open>simp_all add: main_snapshot_def\<close>)
qed

lemma main_turn_returns:
  assumes "clock_works clock"
  shows "\<exists>s'. main_turn rep arrives clock e s = Some s'"
proof (cases "as_main s")
  case MainRecv
  show ?thesis
  proof (cases "as_inbox s")
    case (Cons g gs)
    with MainRecv main_snapshot_returns [OF assms] show ?thesis by (cases g) (simp_all add: main_turn_def Let_def)
  qed (simp add: main_turn_def MainRecv)
qed (simp_all add: main_turn_def split: prod.split push_outcome.split)

lemma agent_step_returns:
  assumes "\<And>p txs ch k. \<exists>r. ae_tick env p txs ch k = Some r" and "\<And>k. clock_works (ae_clock env k)"
  shows "\<exists>s'. agent_step env ev s = Some s'"
proof (cases ev)
  case StopCall
  then show ?thesis using stop_returns_value [OF assms(2), of "ts_kernel (as_ticker s)" s] by simp
next
  case TimerTurn
  obtain p ch k where "ae_tick env (ts_phase (as_ticker s)) (as_txs s) (as_chans s) (ts_kernel (as_ticker s)) = Some (p, ch, k)"
    using assms(1) by (metis prod_cases3)
  with TimerTurn show ?thesis by simp
next
  case (MainTurn e)
  then show ?thesis using main_turn_returns [OF assms(2)] by simp
qed simp_all

lemma agent_run_returns:
  assumes "\<And>p txs ch k. \<exists>r. ae_tick env p txs ch k = Some r" and "\<And>k. clock_works (ae_clock env k)"
  shows "\<exists>s'. agent_run env evs s = Some s'"
proof (induction evs arbitrary: s)
  case (Cons ev evs)
  obtain s1 where "agent_step env ev s = Some s1" using agent_step_returns [OF assms] by blast
  with Cons show ?case by simp
qed simp

lemma linux_run_returns:
  assumes "\<And>k. clock_works (te_clock tenv k)"
  shows "\<exists>s'. agent_run (linux_agent ops rep arrives tenv tfd efd push) evs s = Some s'"
  using epoll_step_returns [OF assms] assms by (intro agent_run_returns) (simp_all add: linux_agent_def)

end
