(* ===== verification/AgentClaims.thy ===== *)
theory AgentClaims
  imports AgentEnd AgentRuns
begin

text \<open>
  The properties of the agent on Linux that rest on its invariant and on the way of a stopped agent
  to its end.
\<close>

section \<open>States\<close>

text \<open>C12: after any interleaving of its owner's calls and the threads' steps, an agent is in the state
  that its type says. Ready: it has no sender, is marked as not running and its main thread has ended
  without error. Running: it has the sender of its main thread's channel and the handle, is marked as
  running, and nobody has asked for the end. The channel is open exactly while the main thread lives.\<close>
theorem agent_typestate:
  assumes "agent_build ops tenv dummy builder k = Some (Ok (s, tfd, efd))"
    and "agent_run (linux_agent ops rep arrives tenv tfd efd push) evs s = Some s'"
  shows "(ch_connected (as_chans s' (as_rx s')) \<longleftrightarrow> \<not> main_done (as_main s'))
    \<and> (as_owner s' = OwnerReady \<longrightarrow> as_tx s' = None \<and> \<not> mx_value (as_running s') \<and> as_main s' = MainEnded (Ok ()))
    \<and> (as_owner s' = OwnerRunning \<longrightarrow> as_tx s' = Some (as_rx s') \<and> as_handle s' \<and> mx_value (as_running s')
         \<and> TerminateSignal \<notin> set (as_inbox s'))"
  using linux.agent_wf_run [OF assms(2) agent_build_wf(1) [OF assms(1)]] by (auto simp: agent_wf_def)

lemma agent_typestate_witness:
  "\<exists>s s'. agent_build ex_agent_ops ex_timer_env 0 ex_agent_builder () = Some (Ok (s, 0, 0))
    \<and> agent_run ex_linux_agent [StartCall 5, TimerTurn, MainTurn (ex_orders, ex_answers)] s = Some s'
    \<and> as_owner s' = OwnerRunning \<and> as_tx s' = Some (as_rx s')"
proof -
  have "case agent_build ex_agent_ops ex_timer_env 0 ex_agent_builder () of Some (Ok (s, tfd, efd)) \<Rightarrow>
      tfd = 0 \<and> efd = 0 \<and> (case agent_run ex_linux_agent [StartCall 5, TimerTurn, MainTurn (ex_orders, ex_answers)] s of
         Some s' \<Rightarrow> as_owner s' = OwnerRunning | None \<Rightarrow> False)
    | _ \<Rightarrow> False"
    by code_simp
  then obtain s s' where s: "agent_build ex_agent_ops ex_timer_env 0 ex_agent_builder () = Some (Ok (s, 0, 0))"
    "agent_run ex_linux_agent [StartCall 5, TimerTurn, MainTurn (ex_orders, ex_answers)] s = Some s'" "as_owner s' = OwnerRunning"
    by (auto split: option.splits res.splits prod.splits)
  from agent_typestate [OF s(1,2)] s(3) have "as_tx s' = Some (as_rx s')" by blast
  with s show ?thesis by (intro exI [of _ s] exI [of _ s'] conjI)
qed

section \<open>Stop\<close>

text \<open>A running agent whose main thread waits in channel 5.\<close>

definition ex_running :: "timer_signal list \<Rightarrow> 'b \<Rightarrow> ('b, timer_phase, unit) agent_sys" where
  "ex_running q b = \<lparr>as_ticker = \<lparr>ts_timer = \<lparr>tm_txs = mx_new [0, 5], tm_handle = True\<rparr>, ts_phase = TimerWaits,
       ts_chans = (\<lambda>c. \<lparr>ch_queue = (if c = 5 then q else []), ch_connected = (c = 5)\<rparr>), ts_kernel = ()\<rparr>,
     as_manager = manager_new, as_backend = Mutex False (Some b),
     as_config = cf_new ''http://localhost'' ''app'' 100 ''spy'' ''1'', as_tx = Some 5, as_handle = True,
     as_running = mx_new True, as_rx = 5, as_main = MainRecv, as_owner = OwnerRunning, as_made = [], as_arrived = (\<lambda>_. 0)\<rparr>"

lemma ex_running_wf: "TerminateSignal \<notin> set q \<Longrightarrow> agent_wf (ex_running q b)"
  by (simp add: agent_wf_def ex_running_def)

text \<open>C9: \<open>stop\<close> on a running agent over py-spy returns: let the clock work and no push panic, and
  let the manager be alive. Then every sequence of turns is a run, and after at most \<open>2 n + 5\<close> rounds, \<open>n\<close> being the number of signals in
  the channel, in each of which the manager and after it the main thread has a turn (among any turns of
  the timer, of the two and of the waiting owner), the owner has its ready agent back, the main
  thread has ended without error, and each queued snapshot and the last one that \<open>stop\<close> orders has
  become a session.\<close>
theorem agent_stop_returns:
  assumes "agent_wf s" and "as_owner s = OwnerRunning" and "\<not> main_done (as_main s)"
    and "mg_end (as_manager s) = ManagerWaiting" and "KillManager \<notin> set (mg_queue (as_manager s))"
    and "length (mg_queue (as_manager s)) \<le> 10" and "as_backend s = Mutex False (Some b)" and "pyspy_inv b"
    and "\<And>x. push x \<noteq> Panic" and "\<And>k. clock_works (te_clock tenv k)"
    and "list_all (fair_round (\<lambda>(o', _). orders_ok o')) rounds" and "2 * length (as_inbox s) + 5 \<le> length rounds"
  shows "\<exists>s'. agent_run (linux_agent ops pyspy_cycle pyspy_arrives tenv tfd efd push) (StopCall # concat rounds @ [OwnerTurn]) s = Some s'
    \<and> as_owner s' = OwnerReady \<and> as_main s' = MainEnded (Ok ())
    \<and> length (as_made s') = length (as_made s) + length (as_inbox s) + 1"
proof -
  obtain s' where run: "agent_run (linux_agent ops pyspy_cycle pyspy_arrives tenv tfd efd push) (StopCall # concat rounds @ [OwnerTurn]) s = Some s'"
    using linux_run_returns [OF assms(10)] by blast
  have "as_owner s' = OwnerReady \<and> as_main s' = MainEnded (Ok ())
      \<and> length (as_made s') = length (as_made s) + length (as_inbox s) + 1"
    by (rule pyspy_live.stop_returns [OF assms(1-3) refl assms(4-8) _ _ assms(11,12) run])
      (use assms(9,10) in \<open>simp_all add: linux_agent_def clock_works_iff\<close>)
  with run show ?thesis by blast
qed

definition ex_round :: "pyspy_turn agent_event list" where
  "ex_round = [TimerTurn, ManagerTurn, MainTurn (ex_orders, [ex_pyspy_trace], [])]"

lemma ex_round_fair: "fair_round (\<lambda>(o', _). orders_ok o') ex_round"
  unfolding fair_round_def
proof (intro conjI exI)
  show "ex_round = [TimerTurn] @ ManagerTurn # [] @ MainTurn (ex_orders, [ex_pyspy_trace], []) # []" by (simp add: ex_round_def)
qed (simp add: ex_round_def ex_orders_ok)

lemma ex_clock_works: "clock_works (te_clock ex_timer_env k)"
  by (simp add: clock_works_def ex_timer_env_def)

abbreviation "ex_pyspy_agent \<equiv>
  linux_agent (pyspy_ops ex_orders [] (Some (Ok ()))) pyspy_cycle pyspy_arrives ex_timer_env 3 4 (\<lambda>_. Ok ())"

lemma agent_stop_returns_witness:
  "\<exists>s'. agent_run ex_pyspy_agent (StopCall # concat (replicate 7 ex_round) @ [OwnerTurn]) (ex_running [NextSnapshot 20] ex_pyspy) = Some s'
    \<and> as_owner s' = OwnerReady \<and> length (as_made s') = 2"
proof -
  let ?s = "ex_running [NextSnapshot 20] ex_pyspy"
  have "\<exists>s'. agent_run ex_pyspy_agent (StopCall # concat (replicate 7 ex_round) @ [OwnerTurn]) ?s = Some s'
      \<and> as_owner s' = OwnerReady \<and> as_main s' = MainEnded (Ok ()) \<and> length (as_made s') = length (as_made ?s) + length (as_inbox ?s) + 1"
    by (rule agent_stop_returns [OF ex_running_wf _ _ _ _ _ _ ex_backends(3)])
      (simp_all add: ex_running_def manager_new_def ex_clock_works list_all_iff ex_round_fair)
  then show ?thesis by (auto simp: ex_running_def)
qed

text \<open>C26: if the report for a snapshot fails while the owner waits in \<open>stop\<close>, the main thread ends
  without telling, and the owner waits for ever: no later events get it out of \<open>stop\<close>.\<close>
theorem agent_stop_hangs:
  assumes "agent_wf s" and "as_owner s = StopWaits" and "as_main s = MainRecv" and "as_inbox s = NextSnapshot u # gs"
    and "as_backend s = Mutex False (Some b)" and "rep e b = (Err x, b')"
    and "agent_run (linux_agent ops rep arrives tenv tfd efd push) (MainTurn e # evs) s = Some s'"
  shows "as_owner s' = StopWaits"
  by (rule linux.stop_hangs [OF assms(1-5) _ assms(7)]) (simp add: linux_agent_def assms(6))

definition ex_failing :: pprof_answers where
  "ex_failing = \<lparr>pa_report = Err ''no samples'', pa_build = Ok ()\<rparr>"

lemma agent_stop_hangs_witness:
  "\<exists>s s'. agent_run ex_linux_agent [StopCall] (ex_running [] ex_pprof) = Some s
    \<and> agent_run ex_linux_agent [MainTurn (ex_orders, ex_failing), OwnerTurn, MainTurn (ex_orders, ex_answers), OwnerTurn] s = Some s'
    \<and> as_owner s' = StopWaits"
proof -
  have "case agent_run ex_linux_agent [StopCall] (ex_running [] ex_pprof) of None \<Rightarrow> False | Some s \<Rightarrow>
      as_owner s = StopWaits \<and> (case as_main s of MainRecv \<Rightarrow> True | _ \<Rightarrow> False) \<and> as_inbox s = [NextSnapshot 30, TerminateSignal]
      \<and> as_backend s = Mutex False (Some ex_pprof)
      \<and> agent_run ex_linux_agent [MainTurn (ex_orders, ex_failing), OwnerTurn, MainTurn (ex_orders, ex_answers), OwnerTurn] s \<noteq> None"
    unfolding option.simps(3) [symmetric] by code_simp
  then obtain s s' where s: "agent_run ex_linux_agent [StopCall] (ex_running [] ex_pprof) = Some s" "as_owner s = StopWaits"
    "as_main s = MainRecv" "as_inbox s = [NextSnapshot 30, TerminateSignal]"
    "agent_run ex_linux_agent [MainTurn (ex_orders, ex_failing), OwnerTurn, MainTurn (ex_orders, ex_answers), OwnerTurn] s = Some s'"
    "as_backend s = Mutex False (Some ex_pprof)"
    by (auto simp del: agent_run.simps split: option.splits main_phase.splits)
  have wf: "agent_wf s" by (rule linux.agent_wf_run [OF s(1) ex_running_wf]) simp
  have "\<exists>x b'. pprof_cycle (ex_orders, ex_failing) ex_pprof = (Err x, b')"
    by (simp add: pprof_cycle_def pprof_report_def pprof_dump_report_def ex_failing_def ex_pprof_def pprof_initialize_def
        pprof_new_def pprof_build_guard_def ex_answers_def)
  then obtain x b' where "pprof_cycle (ex_orders, ex_failing) ex_pprof = (Err x, b')" by blast
  from agent_stop_hangs [OF wf s(2-4,6) this s(5)] s(1,5) show ?thesis by blast
qed

section \<open>Shutdown\<close>



end
