(* ===== verification/FfiKit.thy ===== *)
theory FfiKit
  imports AgentClaims
begin

text \<open>
  The thread behind the foreign interfaces (\<open>src/ffikit.rs\<close>): it owns the agent, and the functions
  called from Python or Ruby send it signals through a static sender.
\<close>

section \<open>Signals and the static sender\<close>

datatype ffi_signal = KillSignal | AddThreadTag thread_id tag | RemoveThreadTag thread_id tag

text \<open>The thread waits for signals, waits in the agent's \<open>stop\<close>, or is not there.\<close>

datatype ffi_phase = FfiRecv | FfiStopping | FfiEnded

text \<open>\<open>fk_sender\<close> is the static: whether a sender is stored. There is at most one live receiver, the
  thread's; \<open>fk_agent\<close> is the agent that the thread owns or has owned last.\<close>

record ('b, 'p, 'k) ffi_sys =
  fk_sender :: "bool mutex"
  fk_inbox :: "ffi_signal list"
  fk_phase :: ffi_phase
  fk_agent :: "('b, 'p, 'k) agent_sys option"

definition ffi_init :: "('b, 'p, 'k) ffi_sys" where
  "ffi_init = \<lparr>fk_sender = mx_new False, fk_inbox = [], fk_phase = FfiEnded, fk_agent = None\<rparr>"

section \<open>Operations\<close>

text \<open>\<open>run\<close> holds the static's lock from beginning to end. \<open>build\<close> gives the built agent; \<open>rx\<close> is the
  number of the main thread's channel.\<close>

definition ffi_run ::
    "('b, 'p, 'k) agent_sys presult option \<Rightarrow> nat \<Rightarrow> ('b, 'p, 'k) ffi_sys \<Rightarrow> (unit presult \<times> ('b, 'p, 'k) ffi_sys) option" where
  "ffi_run build rx s =
     (case mx_lock (fk_sender s) of
        Err e \<Rightarrow> Some (Err e, s)
      | Panic \<Rightarrow> Some (Panic, s)
      | Ok True \<Rightarrow> Some (Err (pe_new ''FFI channel already initialized''), s)
      | Ok False \<Rightarrow>
          (case build of
             None \<Rightarrow> None
           | Some built \<Rightarrow>
               (case bind_res built (agent_start rx) of
                  Ok agent \<Rightarrow> Some (Ok (), s\<lparr>fk_sender := mx_store (fk_sender s) True, fk_inbox := [],
                                fk_phase := FfiRecv, fk_agent := Some agent\<rparr>)
                | Err e \<Rightarrow> Some (Err e, s)
                | Panic \<Rightarrow> Some (Panic, s\<lparr>fk_sender := Mutex True (mx_value (fk_sender s))\<rparr>))))"

definition ffi_send :: "ffi_signal \<Rightarrow> ('b, 'p, 'k) ffi_sys \<Rightarrow> unit presult \<times> ('b, 'p, 'k) ffi_sys" where
  "ffi_send g s =
     (case mx_lock (fk_sender s) of
        Err e \<Rightarrow> (Err e, s)
      | Panic \<Rightarrow> (Panic, s)
      | Ok False \<Rightarrow> (Err (pe_new ''FFI channel not initialized''), s)
      | Ok True \<Rightarrow>
          if fk_phase s = FfiEnded then (Err pe_from_send_error, s)
          else (Ok (), s\<lparr>fk_inbox := fk_inbox s @ [g]\<rparr>))"

text \<open>The end of the thread drops its receiver.\<close>

definition ffi_ends :: "('b, 'p, 'k) ffi_sys \<Rightarrow> ('b, 'p, 'k) ffi_sys" where
  "ffi_ends s = s\<lparr>fk_phase := FfiEnded, fk_inbox := []\<rparr>"

text \<open>A tag operation of the agent: an error is only logged, a panic ends the thread.\<close>

definition ffi_tag ::
    "(('b, 'p, 'k) agent_sys \<Rightarrow> unit presult \<times> ('b, 'p, 'k) agent_sys) \<Rightarrow> ('b, 'p, 'k) agent_sys
     \<Rightarrow> ('b, 'p, 'k) ffi_sys \<Rightarrow> ('b, 'p, 'k) ffi_sys" where
  "ffi_tag oper agent s =
     (case oper agent of
        (Panic, agent') \<Rightarrow> ffi_ends (s\<lparr>fk_agent := Some agent'\<rparr>)
      | (_, agent') \<Rightarrow> s\<lparr>fk_agent := Some agent'\<rparr>)"

text \<open>One step of the thread. \<open>stop\<close> waits for the agent to be ready again, lets go of it and only
  then clears the static; if it fails the static stays.\<close>

definition ffi_turn :: "('e, 'b, 'p, 'k) agent_env \<Rightarrow> ('b, 'p, 'k) ffi_sys \<Rightarrow> ('b, 'p, 'k) ffi_sys option" where
  "ffi_turn env s =
     (case (fk_phase s, fk_agent s) of
        (FfiRecv, Some agent) \<Rightarrow>
          (case fk_inbox s of
             [] \<Rightarrow> Some s
           | KillSignal # gs \<Rightarrow>
               map_option (\<lambda>agent'. s\<lparr>fk_inbox := gs, fk_phase := FfiStopping, fk_agent := Some agent'\<rparr>)
                 (agent_step env StopCall agent)
           | AddThreadTag tid t # gs \<Rightarrow> Some (ffi_tag (add_thread_tag (ae_ops env) tid t) agent (s\<lparr>fk_inbox := gs\<rparr>))
           | RemoveThreadTag tid t # gs \<Rightarrow> Some (ffi_tag (remove_thread_tag (ae_ops env) tid t) agent (s\<lparr>fk_inbox := gs\<rparr>)))
      | (FfiStopping, Some agent) \<Rightarrow>
          Some (case as_owner agent of
              OwnerReady \<Rightarrow>
                (case mx_lock (fk_sender s) of
                   Ok _ \<Rightarrow> ffi_ends (s\<lparr>fk_sender := mx_store (fk_sender s) False\<rparr>)
                 | _ \<Rightarrow> ffi_ends s)
            | OwnerLost e \<Rightarrow> ffi_ends s
            | OwnerPanicked \<Rightarrow> ffi_ends s
            | _ \<Rightarrow> s)
      | _ \<Rightarrow> Some s)"

text \<open>The agent's other threads, and its waiting owner, run on.\<close>

definition ffi_agent_turn :: "('e, 'b, 'p, 'k) agent_env \<Rightarrow> 'e agent_event \<Rightarrow> ('b, 'p, 'k) ffi_sys \<Rightarrow> ('b, 'p, 'k) ffi_sys option" where
  "ffi_agent_turn env ev s =
     (case fk_agent s of
        None \<Rightarrow> Some s
      | Some agent \<Rightarrow> map_option (\<lambda>agent'. s\<lparr>fk_agent := Some agent'\<rparr>) (agent_step env ev agent))"

section \<open>Runs\<close>

datatype ('e, 'b, 'p, 'k) ffi_event =
    FfiRun "('b, 'p, 'k) agent_sys presult option" nat
  | FfiSend ffi_signal
  | FfiTurn
  | AgentTurn "'e agent_event"

fun ffi_step :: "('e, 'b, 'p, 'k) agent_env \<Rightarrow> ('e, 'b, 'p, 'k) ffi_event \<Rightarrow> ('b, 'p, 'k) ffi_sys \<Rightarrow> ('b, 'p, 'k) ffi_sys option" where
  "ffi_step env (FfiRun build rx) s = map_option snd (ffi_run build rx s)"
| "ffi_step env (FfiSend g) s = Some (snd (ffi_send g s))"
| "ffi_step env FfiTurn s = ffi_turn env s"
| "ffi_step env (AgentTurn ev) s = ffi_agent_turn env ev s"

fun ffi_steps :: "('e, 'b, 'p, 'k) agent_env \<Rightarrow> ('e, 'b, 'p, 'k) ffi_event list \<Rightarrow> ('b, 'p, 'k) ffi_sys \<Rightarrow> ('b, 'p, 'k) ffi_sys option" where
  "ffi_steps env [] s = Some s"
| "ffi_steps env (ev # evs) s = (case ffi_step env ev s of None \<Rightarrow> None | Some s' \<Rightarrow> ffi_steps env evs s')"

lemma ffi_steps_invariant:
  assumes "ffi_steps env evs s = Some s'" and "P s" and "\<And>ev s s'. P s \<Longrightarrow> ffi_step env ev s = Some s' \<Longrightarrow> P s'"
  shows "P s'"
  using assms(1,2)
proof (induction evs arbitrary: s)
  case Nil
  then show ?case by simp
next
  case (Cons ev evs)
  then obtain s1 where "ffi_step env ev s = Some s1" "ffi_steps env evs s1 = Some s'" by (auto split: option.splits)
  with Cons assms(3) show ?case by blast
qed

lemma ffi_steps_append:
  "ffi_steps env (es @ fs) s = (case ffi_steps env es s of None \<Rightarrow> None | Some s' \<Rightarrow> ffi_steps env fs s')"
  by (induction es arbitrary: s) (auto split: option.splits)

lemma ffi_steps_agent:
  assumes "fk_agent s = Some agent"
  shows "ffi_steps env (map AgentTurn evs) s = map_option (\<lambda>agent'. s\<lparr>fk_agent := Some agent'\<rparr>) (agent_run env evs agent)"
  using assms
  by (induction evs arbitrary: s agent) (auto simp: ffi_agent_turn_def split: option.split)

section \<open>Properties\<close>

text \<open>C7: after a kill signal, and the rounds that \<open>stop\<close> needs, the thread has ended and the static is
  free: a new \<open>run\<close> is not refused.\<close>
theorem ffi_kill_releases:
  assumes "fk_phase s = FfiRecv" and "fk_inbox s = KillSignal # gs" and "fk_sender s = mx_new True" and "fk_agent s = Some agent"
    and "agent_wf agent" and "as_owner agent = OwnerRunning" and "\<not> main_done (as_main agent)"
    and "mg_end (as_manager agent) = ManagerWaiting" and "KillManager \<notin> set (mg_queue (as_manager agent))"
    and "length (mg_queue (as_manager agent)) \<le> 10" and "as_backend agent = Mutex False (Some b)" and "pyspy_inv b"
    and "\<And>x. push x \<noteq> Panic" and "\<And>k. clock_works (te_clock tenv k)"
    and "list_all (fair_round (\<lambda>(o', _). orders_ok o')) rounds" and "2 * length (as_inbox agent) + 5 \<le> length rounds"
  shows "\<exists>s'. ffi_steps (linux_agent ops pyspy_cycle pyspy_arrives tenv tfd efd push)
      (FfiTurn # map AgentTurn (concat rounds @ [OwnerTurn]) @ [FfiTurn]) s = Some s'
    \<and> fk_phase s' = FfiEnded \<and> fk_sender s' = mx_new False
    \<and> (\<forall>new rx. ffi_run (Some (Ok new)) rx s' = (case agent_start rx new of
          Ok started \<Rightarrow> Some (Ok (), s'\<lparr>fk_sender := mx_new True, fk_inbox := [], fk_phase := FfiRecv, fk_agent := Some started\<rparr>)
        | Err e \<Rightarrow> Some (Err e, s') | Panic \<Rightarrow> Some (Panic, s'\<lparr>fk_sender := Mutex True False\<rparr>)))"
proof -
  let ?env = "linux_agent ops pyspy_cycle pyspy_arrives tenv tfd efd push"
  obtain agent2 where run: "agent_run ?env (StopCall # concat rounds @ [OwnerTurn]) agent = Some agent2"
    using linux_run_returns [OF assms(14)] by blast
  then obtain agent1 where a1: "agent_step ?env StopCall agent = Some agent1" "agent_run ?env (concat rounds @ [OwnerTurn]) agent1 = Some agent2"
    by (auto simp del: agent_step.simps split: option.splits)
  let ?s1 = "s\<lparr>fk_inbox := gs, fk_phase := FfiStopping, fk_agent := Some agent1\<rparr>"
    and ?s2 = "s\<lparr>fk_inbox := gs, fk_phase := FfiStopping, fk_agent := Some agent2\<rparr>"
  have first: "ffi_turn ?env s = Some ?s1"
    using assms(1,2,4) a1(1) by (simp add: ffi_turn_def del: agent_step.simps)
  have turns: "ffi_steps ?env (map AgentTurn (concat rounds @ [OwnerTurn])) ?s1 = Some ?s2"
    by (simp add: ffi_steps_agent [where agent = agent1] a1(2) del: map_append)
  have "as_owner agent2 = OwnerReady"
    by (rule pyspy_live.stop_returns [OF assms(5-7) refl assms(8-12) _ _ assms(15,16) run, THEN conjunct1])
      (use assms(13,14) in \<open>simp_all add: linux_agent_def clock_works_iff\<close>)
  with assms(3) have last: "ffi_turn ?env ?s2 = Some (ffi_ends (?s2\<lparr>fk_sender := mx_new False\<rparr>))"
    by (simp add: ffi_turn_def mx_new_def mx_store_def mx_lock_def)
  have "ffi_steps ?env (FfiTurn # map AgentTurn (concat rounds @ [OwnerTurn]) @ [FfiTurn]) s
      = Some (ffi_ends (?s2\<lparr>fk_sender := mx_new False\<rparr>))"
    by (simp only: ffi_steps.simps ffi_step.simps ffi_steps_append first turns last option.case)
  then show ?thesis
    by (simp add: ffi_ends_def ffi_run_def mx_new_def mx_store_def mx_lock_def split: res.split)
qed

definition ex_ffi :: "(pyspy_backend, timer_phase, unit) ffi_sys" where
  "ex_ffi = \<lparr>fk_sender = mx_new True, fk_inbox = [KillSignal], fk_phase = FfiRecv, fk_agent = Some (ex_running [] ex_pyspy)\<rparr>"

lemma ffi_kill_releases_witness:
  "\<exists>s'. ffi_steps ex_pyspy_agent (FfiTurn # map AgentTurn (concat (replicate 5 ex_round) @ [OwnerTurn]) @ [FfiTurn]) ex_ffi = Some s'
    \<and> fk_sender s' = mx_new False"
proof -
  let ?evs = "FfiTurn # map AgentTurn (concat (replicate 5 ex_round) @ [OwnerTurn]) @ [FfiTurn]"
  have "\<exists>s'. ffi_steps ex_pyspy_agent ?evs ex_ffi = Some s' \<and> fk_phase s' = FfiEnded \<and> fk_sender s' = mx_new False
      \<and> (\<forall>new rx. ffi_run (Some (Ok new)) rx s' = (case agent_start rx new of
          Ok started \<Rightarrow> Some (Ok (), s'\<lparr>fk_sender := mx_new True, fk_inbox := [], fk_phase := FfiRecv, fk_agent := Some started\<rparr>)
        | Err e \<Rightarrow> Some (Err e, s') | Panic \<Rightarrow> Some (Panic, s'\<lparr>fk_sender := Mutex True False\<rparr>)))"
    by (rule ffi_kill_releases [OF _ _ _ _ ex_running_wf _ _ _ _ _ _ ex_backends(3)])
      (simp_all add: ex_ffi_def ex_running_def manager_new_def ex_clock_works list_all_iff ex_round_fair)
  then show ?thesis by blast
qed

text \<open>C28: if the agent is lost in \<open>stop\<close>, which then fails, the thread ends without clearing the static:
  from then on every signal and every new \<open>run\<close> is refused, for ever.\<close>
theorem ffi_stuck:
  fixes s s' :: "('b, 'p, 'k) ffi_sys"
  assumes "fk_phase s = FfiStopping" and "mx_value (fk_sender s)" and "fk_agent s = Some agent"
    and "as_owner agent = OwnerLost x" and "ffi_steps env (FfiTurn # evs) s = Some s'"
  shows "(\<forall>g. \<exists>e. fst (ffi_send g s') = Err e) \<and> (\<forall>build rx. \<exists>e. ffi_run build rx s' = Some (Err e, s'))"
proof -
  let ?P = "\<lambda>s. fk_phase s = FfiEnded \<and> mx_value (fk_sender s)"
  from assms have run: "ffi_steps env evs (ffi_ends s) = Some s'" by (simp add: ffi_turn_def)
  have refused: "ffi_run build rx t = Some (Err (if mx_poisoned (fk_sender t) then pe_from_poison
      else pe_new ''FFI channel already initialized''), t)" if "?P t" for build rx and t :: "('b, 'p, 'k) ffi_sys"
    using that by (simp add: ffi_run_def mx_lock_def)
  have "?P s'"
  proof (rule ffi_steps_invariant [where P = ?P, OF run])
    show "?P (ffi_ends s)" using assms(2) by (simp add: ffi_ends_def)
  next
    fix ev and t t' :: "('b, 'p, 'k) ffi_sys"
    assume P: "?P t" and "ffi_step env ev t = Some t'"
    then show "?P t'"
      by (cases ev) (auto simp: refused [OF P] ffi_send_def ffi_turn_def ffi_agent_turn_def mx_lock_def split: option.splits)
  qed
  then show ?thesis by (auto simp: refused ffi_send_def mx_lock_def)
qed

lemma ffi_stuck_witness:
  "\<exists>s'. ffi_steps ex_pyspy_agent [FfiTurn, FfiSend KillSignal, FfiTurn] (ex_ffi\<lparr>fk_phase := FfiStopping,
        fk_agent := Some ((ex_running [] ex_pyspy)\<lparr>as_owner := OwnerLost TimeSource\<rparr>)\<rparr>) = Some s'
    \<and> (\<exists>e. fst (ffi_send KillSignal s') = Err e)"
proof -
  let ?s = "ex_ffi\<lparr>fk_phase := FfiStopping, fk_agent := Some ((ex_running [] ex_pyspy)\<lparr>as_owner := OwnerLost TimeSource\<rparr>)\<rparr>"
  have "ffi_steps ex_pyspy_agent [FfiTurn, FfiSend KillSignal, FfiTurn] ?s \<noteq> None"
    by (simp add: ffi_turn_def ffi_ends_def ex_ffi_def ffi_send_def mx_lock_def mx_new_def)
  then obtain s' where s': "ffi_steps ex_pyspy_agent [FfiTurn, FfiSend KillSignal, FfiTurn] ?s = Some s'" by blast
  have "\<exists>e. fst (ffi_send KillSignal s') = Err e"
    using ffi_stuck [OF _ _ _ _ s'] by (simp add: ex_ffi_def)
  with s' show ?thesis by blast
qed

end
