(* ===== verification/Kindasafe.thy ===== *)
theory Kindasafe
  imports Bytes
begin

text \<open>
  Reading memory that may not be there: \<open>kit/kindasafe/src/lib.rs\<close>. The two routines that
  touch foreign memory are a few machine instructions each; when a load faults, the signal
  handler of \<open>kit/kindasafe_init\<close> recognises the program counter, stores the signal number
  in a register and resumes at the \<open>ret\<close>. Here are the memory, the interface that both
  architectures implement (the locale \<open>guarded_loads\<close>), and the safe wrappers \<open>u64\<close>,
  \<open>slice\<close> and \<open>str\<close> on top of it.
\<close>

section \<open>Memory\<close>

text \<open>A byte is readable or not; reading an unreadable byte raises the signal of its address.\<close>

record memory =
  mem_byte :: "u64 \<Rightarrow> u8 option"
  mem_signal :: "u64 \<Rightarrow> u32"

fun addrs :: "u64 \<Rightarrow> nat \<Rightarrow> u64 list" where
  "addrs at 0 = []"
| "addrs at (Suc n) = at # addrs (at + 1) n"

lemma addrs_3: "addrs a 3 = [a, a + 1, a + 2]"
  by (simp add: numeral_eq_Suc add.assoc)

lemma addrs_4: "addrs a 4 = [a, a + 1, a + 2, a + 3]"
  by (simp add: numeral_eq_Suc add.assoc)

lemma addrs_8: "addrs a 8 = [a, a + 1, a + 2, a + 3, a + 4, a + 5, a + 6, a + 7]"
  by (simp add: numeral_eq_Suc add.assoc)

text \<open>The first address of a range that cannot be read.\<close>

definition fault_addr :: "memory \<Rightarrow> u64 \<Rightarrow> nat \<Rightarrow> u64 option" where
  "fault_addr m at n = find (\<lambda>a. mem_byte m a = None) (addrs at n)"

definition mem_bytes :: "memory \<Rightarrow> u64 \<Rightarrow> nat \<Rightarrow> u8 list" where
  "mem_bytes m at n = map (\<lambda>a. the (mem_byte m a)) (addrs at n)"

text \<open>Signals are delivered with a number, and it is never zero.\<close>

definition signals_ok :: "memory \<Rightarrow> bool" where
  "signals_ok m \<longleftrightarrow> (\<forall>a. mem_byte m a = None \<longrightarrow> mem_signal m a \<noteq> 0)"

lemma length_addrs [simp]: "length (addrs at n) = n"
  by (induction "at" n rule: addrs.induct) simp_all

lemma length_mem_bytes [simp]: "length (mem_bytes m at n) = n"
  by (simp add: mem_bytes_def)

lemma fault_addr_0 [simp]: "fault_addr m at 0 = None"
  by (simp add: fault_addr_def)

lemma fault_addr_Suc:
  "fault_addr m at (Suc n) = (if mem_byte m at = None then Some at else fault_addr m (at + 1) n)"
  by (simp add: fault_addr_def)

lemma mem_bytes_0 [simp]: "mem_bytes m at 0 = []"
  by (simp add: mem_bytes_def)

lemma mem_bytes_Suc: "mem_bytes m at (Suc n) = the (mem_byte m at) # mem_bytes m (at + 1) n"
  by (simp add: mem_bytes_def)

lemma fault_addr_unreadable: "fault_addr m at n = Some a \<Longrightarrow> mem_byte m a = None"
  by (auto simp: fault_addr_def find_Some_iff)

text \<open>A memory that holds some bytes at an address.\<close>

definition bytes_memory :: "u64 \<Rightarrow> u8 list \<Rightarrow> memory" where
  "bytes_memory base bs = \<lparr>mem_byte = (\<lambda>a. if unat (a - base) < length bs then Some (bs ! unat (a - base)) else None),
     mem_signal = (\<lambda>a. 11)\<rparr>"

lemma bytes_memory_signals: "signals_ok (bytes_memory base bs)"
  by (simp add: signals_ok_def bytes_memory_def)

lemma addrs_upt: "addrs at n = map (\<lambda>i. at + word_of_nat i) [0..<n]"
proof (induction "at" n rule: addrs.induct)
  case (1 a)
  then show ?case by simp
next
  case (2 a n)
  have "[0..<Suc n] = 0 # map Suc [0..<n]" by (simp add: upt_conv_Cons map_Suc_upt del: upt_Suc)
  with 2 show ?case by (simp add: comp_def algebra_simps)
qed

lemma bytes_memory_reads:
  assumes "length bs < 2 ^ 64"
  shows "fault_addr (bytes_memory base bs) base (length bs) = None" "mem_bytes (bytes_memory base bs) base (length bs) = bs"
proof -
  have u: "unat (word_of_nat i :: u64) = i" if "i < length bs" for i
    using that assms by (simp add: unat_of_nat)
  then show "fault_addr (bytes_memory base bs) base (length bs) = None"
    by (auto simp: fault_addr_def addrs_upt bytes_memory_def find_None_iff)
  show "mem_bytes (bytes_memory base bs) base (length bs) = bs"
    by (rule nth_equalityI) (simp_all add: mem_bytes_def addrs_upt bytes_memory_def u)
qed

section \<open>The routines' results\<close>

datatype u64_res = U64Res (ur_value: u64) (ur_signal: u64)
datatype vec_result = VecResult (vr_signal: u64)
datatype read_mem_error = ReadMemError (rme_signal: u64)

text \<open>A routine either returns or the process is left to the handler that was there before.\<close>

datatype 'a outcome = Returned 'a | Fallback

text \<open>
  What the two routines promise, on any memory: a load of eight bytes and a copy of \<open>n\<close>
  bytes (below \<open>limit\<close>) into a buffer return, given that the code is \<open>linked\<close> sensibly; the signal is zero exactly when every byte
  could be read, and otherwise the signal of the first byte that could not.
\<close>

locale guarded_loads =
  fixes load64 :: "memory \<Rightarrow> u64 \<Rightarrow> u64_res outcome"
    and copy :: "memory \<Rightarrow> u8 list \<Rightarrow> u64 \<Rightarrow> u64 \<Rightarrow> (vec_result \<times> u8 list) outcome"
    and limit :: nat
    and linked :: bool
  assumes load64_readable: "linked \<Longrightarrow> fault_addr m at 8 = None \<Longrightarrow>
      load64 m at = Returned (U64Res (bytes_u64 (mem_bytes m at 8)) 0)"
    and load64_fault: "linked \<Longrightarrow> fault_addr m at 8 = Some a \<Longrightarrow>
      \<exists>v. load64 m at = Returned (U64Res v (scast (mem_signal m a)))"
    and copy_readable: "linked \<Longrightarrow> length buf < limit \<Longrightarrow> fault_addr m at (length buf) = None \<Longrightarrow>
      copy m buf at (word_of_nat (length buf)) = Returned (VecResult 0, mem_bytes m at (length buf))"
    and copy_fault: "linked \<Longrightarrow> length buf < limit \<Longrightarrow> fault_addr m at (length buf) = Some a \<Longrightarrow>
      \<exists>buf'. copy m buf at (word_of_nat (length buf)) = Returned (VecResult (scast (mem_signal m a)), buf')
        \<and> length buf' = length buf"

section \<open>The wrappers\<close>

text \<open>The wrappers take the routine of the architecture as an argument.\<close>

definition ks_u64 :: "(memory \<Rightarrow> u64 \<Rightarrow> u64_res outcome) \<Rightarrow> memory \<Rightarrow> u64 \<Rightarrow> (u64, read_mem_error) res outcome" where
  "ks_u64 arch_u64 m at =
     (case arch_u64 m at of
        Fallback \<Rightarrow> Fallback
      | Returned r \<Rightarrow> Returned (if ur_signal r = 0 then Ok (ur_value r) else Err (ReadMemError (ur_signal r))))"

type_synonym arch_slice = "memory \<Rightarrow> u8 list \<Rightarrow> u64 \<Rightarrow> u64 \<Rightarrow> (vec_result \<times> u8 list) outcome"

text \<open>The buffer is changed in place: the result comes with its contents.\<close>

definition ks_slice :: "arch_slice \<Rightarrow> memory \<Rightarrow> u8 list \<Rightarrow> u64 \<Rightarrow> ((unit, read_mem_error) res \<times> u8 list) outcome" where
  "ks_slice arch_slice m buf at =
     (case arch_slice m buf at (word_of_nat (length buf)) of
        Fallback \<Rightarrow> Fallback
      | Returned (r, buf') \<Rightarrow>
          Returned (if vr_signal r = 0 then Ok () else Err (ReadMemError (vr_signal r)), buf'))"

text \<open>\<open>for i in 0..buf.len()\<close> of \<open>str\<close>: up to the first zero byte. The validity of UTF-8 is
  the argument \<open>utf8\<close> (\<open>core::str::from_utf8\<close>).\<close>

fun ks_str_scan :: "(u8 list \<Rightarrow> bool) \<Rightarrow> u8 list \<Rightarrow> u8 list \<Rightarrow> (u8 list, read_mem_error) res" where
  "ks_str_scan utf8 seen [] = Err (ReadMemError 229)"
| "ks_str_scan utf8 seen (b # bs) =
     (if b = 0 then (if utf8 seen then Ok seen else Err (ReadMemError 228))
      else ks_str_scan utf8 (seen @ [b]) bs)"

definition ks_str ::
    "arch_slice \<Rightarrow> (u8 list \<Rightarrow> bool) \<Rightarrow> memory \<Rightarrow> u8 list \<Rightarrow> u64
     \<Rightarrow> ((u8 list, read_mem_error) res \<times> u8 list) outcome" where
  "ks_str arch_slice utf8 m buf at =
     (if at = 0 then Returned (Ok [], buf)
      else case arch_slice m buf at (word_of_nat (length buf)) of
        Fallback \<Rightarrow> Fallback
      | Returned (r, buf') \<Rightarrow>
          Returned (if vr_signal r \<noteq> 0 then Err (ReadMemError (vr_signal r)) else ks_str_scan utf8 [] buf', buf'))"

lemma ks_str_scan_zero:
  "0 \<notin> set s \<Longrightarrow> ks_str_scan utf8 seen (s @ 0 # rest) =
     (if utf8 (seen @ s) then Ok (seen @ s) else Err (ReadMemError 228))"
  by (induction s arbitrary: seen) auto

lemma ks_str_scan_none: "0 \<notin> set s \<Longrightarrow> ks_str_scan utf8 seen s = Err (ReadMemError 229)"
  by (induction s arbitrary: seen) auto

text \<open>What the wrappers mean, for every pair of routines that keep the promise.\<close>

definition read_u64 :: "memory \<Rightarrow> u64 \<Rightarrow> (u64, read_mem_error) res" where
  "read_u64 m at =
     (case fault_addr m at 8 of
        None \<Rightarrow> Ok (bytes_u64 (mem_bytes m at 8))
      | Some a \<Rightarrow> Err (ReadMemError (scast (mem_signal m a))))"

context guarded_loads begin

lemma signal_nonzero: "signals_ok m \<Longrightarrow> fault_addr m at n = Some a \<Longrightarrow> (scast (mem_signal m a) :: u64) \<noteq> 0"
  using fault_addr_unreadable [of m at n a] by (simp add: signals_ok_def)

lemma u64_total: "linked \<Longrightarrow> signals_ok m \<Longrightarrow> ks_u64 load64 m at = Returned (read_u64 m at)"
  using load64_readable [of m at] load64_fault [of m at] signal_nonzero [of m at 8]
  by (cases "fault_addr m at 8") (auto simp: ks_u64_def read_u64_def)

lemma slice_readable:
  assumes linked and "length buf < limit" and "fault_addr m at (length buf) = None"
  shows "ks_slice copy m buf at = Returned (Ok (), mem_bytes m at (length buf))"
  using copy_readable [OF assms(1-3)] by (simp add: ks_slice_def)

lemma slice_fault:
  assumes linked and "length buf < limit" and "fault_addr m at (length buf) = Some a" and "signals_ok m"
  shows "\<exists>buf'. ks_slice copy m buf at = Returned (Err (ReadMemError (scast (mem_signal m a))), buf')
    \<and> length buf' = length buf"
  using copy_fault [OF assms(1-3)] signal_nonzero [OF assms(4,3)] by (auto simp: ks_slice_def)

lemma str_null: "ks_str copy utf8 m buf 0 = Returned (Ok [], buf)"
  by (simp add: ks_str_def)

lemma str_found:
  assumes linked and "length buf < limit" and "at \<noteq> 0" and "fault_addr m at (length buf) = None"
    and "mem_bytes m at (length buf) = s @ 0 # rest" and "0 \<notin> set s"
  shows "ks_str copy utf8 m buf at =
    Returned (if utf8 s then Ok s else Err (ReadMemError 228), mem_bytes m at (length buf))"
  using copy_readable [OF assms(1,2,4)] assms(3,5,6) by (simp add: ks_str_def ks_str_scan_zero)

lemma str_unterminated:
  assumes linked and "length buf < limit" and "at \<noteq> 0" and "fault_addr m at (length buf) = None"
    and "0 \<notin> set (mem_bytes m at (length buf))"
  shows "ks_str copy utf8 m buf at = Returned (Err (ReadMemError 229), mem_bytes m at (length buf))"
  using copy_readable [OF assms(1,2,4)] assms(3,5) by (simp add: ks_str_def ks_str_scan_none)

end

end
