(* ===== verification/PythonOffsetsTypes.thy ===== *)
theory PythonOffsetsTypes
  imports Prelude
begin

text \<open>
  The layouts of CPython's \<open>_Py_DebugOffsets\<close> for 3.13 and 3.14
  (\<open>kit/python_offsets_types\<close>) and the conversion of the 3.14 layout to the 3.13 one.
\<close>

section \<open>CPython 3.13\<close>

record py313_runtime_state =
  p3rs_size :: u64
  p3rs_finalizing :: u64
  p3rs_interpreters_head :: u64

record py313_interpreter_state =
  p3is_size :: u64
  p3is_id :: u64
  p3is_next :: u64
  p3is_threads_head :: u64
  p3is_gc :: u64
  p3is_imports_modules :: u64
  p3is_sysdict :: u64
  p3is_builtins :: u64
  p3is_ceval_gil :: u64
  p3is_gil_runtime_state :: u64
  p3is_gil_runtime_state_enabled :: u64
  p3is_gil_runtime_state_locked :: u64
  p3is_gil_runtime_state_holder :: u64

record py313_thread_state =
  p3ts_size :: u64
  p3ts_prev :: u64
  p3ts_next :: u64
  p3ts_interp :: u64
  p3ts_current_frame :: u64
  p3ts_thread_id :: u64
  p3ts_native_thread_id :: u64
  p3ts_datastack_chunk :: u64
  p3ts_status :: u64

record py313_interpreter_frame =
  p3if_size :: u64
  p3if_previous :: u64
  p3if_executable :: u64
  p3if_instr_ptr :: u64
  p3if_localsplus :: u64
  p3if_owner :: u64

record py313_code_object =
  p3co_size :: u64
  p3co_filename :: u64
  p3co_name :: u64
  p3co_qualname :: u64
  p3co_linetable :: u64
  p3co_firstlineno :: u64
  p3co_argcount :: u64
  p3co_localsplusnames :: u64
  p3co_localspluskinds :: u64
  p3co_co_code_adaptive :: u64

record py313_pyobject =
  p3po_size :: u64
  p3po_ob_type :: u64

record py313_type_object =
  p3to_size :: u64
  p3to_tp_name :: u64
  p3to_tp_repr :: u64
  p3to_tp_flags :: u64

record py313_tuple_object =
  p3tu_size :: u64
  p3tu_ob_item :: u64
  p3tu_ob_size :: u64

record py313_list_object =
  p3lo_size :: u64
  p3lo_ob_item :: u64
  p3lo_ob_size :: u64

record py313_dict_object =
  p3di_size :: u64
  p3di_ma_keys :: u64
  p3di_ma_values :: u64

record py313_float_object =
  p3fo_size :: u64
  p3fo_ob_fval :: u64

record py313_long_object =
  p3ln_size :: u64
  p3ln_lv_tag :: u64
  p3ln_ob_digit :: u64

record py313_bytes_object =
  p3bo_size :: u64
  p3bo_ob_size :: u64
  p3bo_ob_sval :: u64

record py313_unicode_object =
  p3uo_size :: u64
  p3uo_state :: u64
  p3uo_length :: u64
  p3uo_asciiobject_size :: u64

record py313_gc =
  p3gc_size :: u64
  p3gc_collecting :: u64

record py313_debug_offsets =
  p3do_cookie :: "u8 list"
  p3do_version :: u64
  p3do_free_threaded :: u64
  p3do_runtime_state :: py313_runtime_state
  p3do_interpreter_state :: py313_interpreter_state
  p3do_thread_state :: py313_thread_state
  p3do_interpreter_frame :: py313_interpreter_frame
  p3do_code_object :: py313_code_object
  p3do_pyobject :: py313_pyobject
  p3do_type_object :: py313_type_object
  p3do_tuple_object :: py313_tuple_object
  p3do_list_object :: py313_list_object
  p3do_dict_object :: py313_dict_object
  p3do_float_object :: py313_float_object
  p3do_long_object :: py313_long_object
  p3do_bytes_object :: py313_bytes_object
  p3do_unicode_object :: py313_unicode_object
  p3do_gc :: py313_gc

section \<open>CPython 3.14\<close>

record py314_runtime_state =
  p4rs_size :: u64
  p4rs_finalizing :: u64
  p4rs_interpreters_head :: u64

record py314_interpreter_state =
  p4is_size :: u64
  p4is_id :: u64
  p4is_next :: u64
  p4is_threads_head :: u64
  p4is_threads_main :: u64
  p4is_gc :: u64
  p4is_imports_modules :: u64
  p4is_sysdict :: u64
  p4is_builtins :: u64
  p4is_ceval_gil :: u64
  p4is_gil_runtime_state :: u64
  p4is_gil_runtime_state_enabled :: u64
  p4is_gil_runtime_state_locked :: u64
  p4is_gil_runtime_state_holder :: u64
  p4is_code_object_generation :: u64
  p4is_tlbc_generation :: u64

record py314_thread_state =
  p4ts_size :: u64
  p4ts_prev :: u64
  p4ts_next :: u64
  p4ts_interp :: u64
  p4ts_current_frame :: u64
  p4ts_thread_id :: u64
  p4ts_native_thread_id :: u64
  p4ts_datastack_chunk :: u64
  p4ts_status :: u64

record py314_interpreter_frame =
  p4if_size :: u64
  p4if_previous :: u64
  p4if_executable :: u64
  p4if_instr_ptr :: u64
  p4if_localsplus :: u64
  p4if_owner :: u64
  p4if_stackpointer :: u64
  p4if_tlbc_index :: u64

record py314_code_object =
  p4co_size :: u64
  p4co_filename :: u64
  p4co_name :: u64
  p4co_qualname :: u64
  p4co_linetable :: u64
  p4co_firstlineno :: u64
  p4co_argcount :: u64
  p4co_localsplusnames :: u64
  p4co_localspluskinds :: u64
  p4co_co_code_adaptive :: u64
  p4co_co_tlbc :: u64

record py314_pyobject =
  p4po_size :: u64
  p4po_ob_type :: u64

record py314_type_object =
  p4to_size :: u64
  p4to_tp_name :: u64
  p4to_tp_repr :: u64
  p4to_tp_flags :: u64

record py314_tuple_object =
  p4tu_size :: u64
  p4tu_ob_item :: u64
  p4tu_ob_size :: u64

record py314_list_object =
  p4lo_size :: u64
  p4lo_ob_item :: u64
  p4lo_ob_size :: u64

record py314_set_object =
  p4so_size :: u64
  p4so_used :: u64
  p4so_table :: u64
  p4so_mask :: u64

record py314_dict_object =
  p4di_size :: u64
  p4di_ma_keys :: u64
  p4di_ma_values :: u64

record py314_float_object =
  p4fo_size :: u64
  p4fo_ob_fval :: u64

record py314_long_object =
  p4ln_size :: u64
  p4ln_lv_tag :: u64
  p4ln_ob_digit :: u64

record py314_bytes_object =
  p4bo_size :: u64
  p4bo_ob_size :: u64
  p4bo_ob_sval :: u64

record py314_unicode_object =
  p4uo_size :: u64
  p4uo_state :: u64
  p4uo_length :: u64
  p4uo_asciiobject_size :: u64

record py314_gc =
  p4gc_size :: u64
  p4gc_collecting :: u64

record py314_gen_object =
  p4go_size :: u64
  p4go_gi_name :: u64
  p4go_gi_iframe :: u64
  p4go_gi_frame_state :: u64

record py314_llist_node =
  p4ll_next :: u64
  p4ll_prev :: u64

record py314_debugger_support =
  p4ds_eval_breaker :: u64
  p4ds_remote_debugger_support :: u64
  p4ds_remote_debugging_enabled :: u64
  p4ds_debugger_pending_call :: u64
  p4ds_debugger_script_path :: u64
  p4ds_debugger_script_path_size :: u64

record py314_asyncio_task_object =
  p4at_size :: u64
  p4at_task_name :: u64
  p4at_task_awaited_by :: u64
  p4at_task_is_task :: u64
  p4at_task_awaited_by_is_set :: u64
  p4at_task_coro :: u64
  p4at_task_node :: u64

record py314_asyncio_interpreter_state =
  p4ai_size :: u64
  p4ai_asyncio_tasks_head :: u64

record py314_asyncio_thread_state =
  p4ah_size :: u64
  p4ah_asyncio_running_loop :: u64
  p4ah_asyncio_running_task :: u64
  p4ah_asyncio_tasks_head :: u64

record py314_debug_offsets =
  p4do_cookie :: "u8 list"
  p4do_version :: u64
  p4do_free_threaded :: u64
  p4do_runtime_state :: py314_runtime_state
  p4do_interpreter_state :: py314_interpreter_state
  p4do_thread_state :: py314_thread_state
  p4do_interpreter_frame :: py314_interpreter_frame
  p4do_code_object :: py314_code_object
  p4do_pyobject :: py314_pyobject
  p4do_type_object :: py314_type_object
  p4do_tuple_object :: py314_tuple_object
  p4do_list_object :: py314_list_object
  p4do_set_object :: py314_set_object
  p4do_dict_object :: py314_dict_object
  p4do_float_object :: py314_float_object
  p4do_long_object :: py314_long_object
  p4do_bytes_object :: py314_bytes_object
  p4do_unicode_object :: py314_unicode_object
  p4do_gc :: py314_gc
  p4do_gen_object :: py314_gen_object
  p4do_llist_node :: py314_llist_node
  p4do_debugger_support :: py314_debugger_support

record py314_asyncio_offsets =
  p4ao_asyncio_task_object :: py314_asyncio_task_object
  p4ao_asyncio_interpreter_state :: py314_asyncio_interpreter_state
  p4ao_asyncio_thread_state :: py314_asyncio_thread_state

section \<open>The common denominator\<close>

text \<open>\<open>From<&py314::_Py_DebugOffsets> for py313::_Py_DebugOffsets\<close>: field by field.\<close>

definition py313_of_py314 :: "py314_debug_offsets \<Rightarrow> py313_debug_offsets" where
  "py313_of_py314 v =
     \<lparr>p3do_cookie = p4do_cookie v,
      p3do_version = p4do_version v,
      p3do_free_threaded = p4do_free_threaded v,
      p3do_runtime_state = \<lparr>p3rs_size = p4rs_size (p4do_runtime_state v),
         p3rs_finalizing = p4rs_finalizing (p4do_runtime_state v),
         p3rs_interpreters_head = p4rs_interpreters_head (p4do_runtime_state v)\<rparr>,
      p3do_interpreter_state = \<lparr>p3is_size = p4is_size (p4do_interpreter_state v),
         p3is_id = p4is_id (p4do_interpreter_state v),
         p3is_next = p4is_next (p4do_interpreter_state v),
         p3is_threads_head = p4is_threads_head (p4do_interpreter_state v),
         p3is_gc = p4is_gc (p4do_interpreter_state v),
         p3is_imports_modules = p4is_imports_modules (p4do_interpreter_state v),
         p3is_sysdict = p4is_sysdict (p4do_interpreter_state v),
         p3is_builtins = p4is_builtins (p4do_interpreter_state v),
         p3is_ceval_gil = p4is_ceval_gil (p4do_interpreter_state v),
         p3is_gil_runtime_state = p4is_gil_runtime_state (p4do_interpreter_state v),
         p3is_gil_runtime_state_enabled = p4is_gil_runtime_state_enabled (p4do_interpreter_state v),
         p3is_gil_runtime_state_locked = p4is_gil_runtime_state_locked (p4do_interpreter_state v),
         p3is_gil_runtime_state_holder = p4is_gil_runtime_state_holder (p4do_interpreter_state v)\<rparr>,
      p3do_thread_state = \<lparr>p3ts_size = p4ts_size (p4do_thread_state v),
         p3ts_prev = p4ts_prev (p4do_thread_state v),
         p3ts_next = p4ts_next (p4do_thread_state v),
         p3ts_interp = p4ts_interp (p4do_thread_state v),
         p3ts_current_frame = p4ts_current_frame (p4do_thread_state v),
         p3ts_thread_id = p4ts_thread_id (p4do_thread_state v),
         p3ts_native_thread_id = p4ts_native_thread_id (p4do_thread_state v),
         p3ts_datastack_chunk = p4ts_datastack_chunk (p4do_thread_state v),
         p3ts_status = p4ts_status (p4do_thread_state v)\<rparr>,
      p3do_interpreter_frame = \<lparr>p3if_size = p4if_size (p4do_interpreter_frame v),
         p3if_previous = p4if_previous (p4do_interpreter_frame v),
         p3if_executable = p4if_executable (p4do_interpreter_frame v),
         p3if_instr_ptr = p4if_instr_ptr (p4do_interpreter_frame v),
         p3if_localsplus = p4if_localsplus (p4do_interpreter_frame v),
         p3if_owner = p4if_owner (p4do_interpreter_frame v)\<rparr>,
      p3do_code_object = \<lparr>p3co_size = p4co_size (p4do_code_object v),
         p3co_filename = p4co_filename (p4do_code_object v),
         p3co_name = p4co_name (p4do_code_object v),
         p3co_qualname = p4co_qualname (p4do_code_object v),
         p3co_linetable = p4co_linetable (p4do_code_object v),
         p3co_firstlineno = p4co_firstlineno (p4do_code_object v),
         p3co_argcount = p4co_argcount (p4do_code_object v),
         p3co_localsplusnames = p4co_localsplusnames (p4do_code_object v),
         p3co_localspluskinds = p4co_localspluskinds (p4do_code_object v),
         p3co_co_code_adaptive = p4co_co_code_adaptive (p4do_code_object v)\<rparr>,
      p3do_pyobject = \<lparr>p3po_size = p4po_size (p4do_pyobject v),
         p3po_ob_type = p4po_ob_type (p4do_pyobject v)\<rparr>,
      p3do_type_object = \<lparr>p3to_size = p4to_size (p4do_type_object v),
         p3to_tp_name = p4to_tp_name (p4do_type_object v),
         p3to_tp_repr = p4to_tp_repr (p4do_type_object v),
         p3to_tp_flags = p4to_tp_flags (p4do_type_object v)\<rparr>,
      p3do_tuple_object = \<lparr>p3tu_size = p4tu_size (p4do_tuple_object v),
         p3tu_ob_item = p4tu_ob_item (p4do_tuple_object v),
         p3tu_ob_size = p4tu_ob_size (p4do_tuple_object v)\<rparr>,
      p3do_list_object = \<lparr>p3lo_size = p4lo_size (p4do_list_object v),
         p3lo_ob_item = p4lo_ob_item (p4do_list_object v),
         p3lo_ob_size = p4lo_ob_size (p4do_list_object v)\<rparr>,
      p3do_dict_object = \<lparr>p3di_size = p4di_size (p4do_dict_object v),
         p3di_ma_keys = p4di_ma_keys (p4do_dict_object v),
         p3di_ma_values = p4di_ma_values (p4do_dict_object v)\<rparr>,
      p3do_float_object = \<lparr>p3fo_size = p4fo_size (p4do_float_object v),
         p3fo_ob_fval = p4fo_ob_fval (p4do_float_object v)\<rparr>,
      p3do_long_object = \<lparr>p3ln_size = p4ln_size (p4do_long_object v),
         p3ln_lv_tag = p4ln_lv_tag (p4do_long_object v),
         p3ln_ob_digit = p4ln_ob_digit (p4do_long_object v)\<rparr>,
      p3do_bytes_object = \<lparr>p3bo_size = p4bo_size (p4do_bytes_object v),
         p3bo_ob_size = p4bo_ob_size (p4do_bytes_object v),
         p3bo_ob_sval = p4bo_ob_sval (p4do_bytes_object v)\<rparr>,
      p3do_unicode_object = \<lparr>p3uo_size = p4uo_size (p4do_unicode_object v),
         p3uo_state = p4uo_state (p4do_unicode_object v),
         p3uo_length = p4uo_length (p4do_unicode_object v),
         p3uo_asciiobject_size = p4uo_asciiobject_size (p4do_unicode_object v)\<rparr>,
      p3do_gc = \<lparr>p3gc_size = p4gc_size (p4do_gc v),
         p3gc_collecting = p4gc_collecting (p4do_gc v)\<rparr>\<rparr>"

end
