(* ===== verification/PythonUnwind.thy ===== *)
theory PythonUnwind
  imports Kindasafe PythonOffsetsTypes
begin

text \<open>
  Walking CPython's frame chain in a signal handler (\<open>kit/python_unwind/src/lib.rs\<close>). Memory
  is read through \<open>kindasafe::u64\<close>, the argument \<open>rd\<close>. The loop is a partial function: for a
  memory on which it does not end its value is \<open>None\<close>.
\<close>

type_synonym reader = "u64 \<Rightarrow> (u64, read_mem_error) res"

definition FRAME_SKIP_OWNER_MIN :: u64 where "FRAME_SKIP_OWNER_MIN = 3"
definition MAX_DEPTH :: nat where "MAX_DEPTH = 128"

record type_addrs =
  ta_code_type :: u64

record raw_frame =
  rf_code_object :: u64
  rf_instr_offset :: u64

text \<open>The result: the depth, the buffer, and the mismatches of the type check that were
  reported, as (code object, type) pairs.\<close>

type_synonym unwound = "nat \<times> raw_frame list \<times> (u64 \<times> u64) list"

definition type_mismatch ::
    "reader \<Rightarrow> py314_debug_offsets \<Rightarrow> type_addrs \<Rightarrow> u64 \<Rightarrow> (u64 \<times> u64) list" where
  "type_mismatch rd offs ta code_obj =
     (if ta_code_type ta \<noteq> 0
      then (case rd (code_obj + p4po_ob_type (p4do_pyobject offs)) of
              Ok ob_type \<Rightarrow> if ob_type \<noteq> ta_code_type ta then [(code_obj, ob_type)] else []
            | _ \<Rightarrow> [])
      else [])"

partial_function (option) unwind_loop ::
    "reader \<Rightarrow> py314_debug_offsets \<Rightarrow> type_addrs \<Rightarrow> nat \<Rightarrow> u64 \<Rightarrow> u64 \<Rightarrow> nat \<Rightarrow> raw_frame list
     \<Rightarrow> (u64 \<times> u64) list \<Rightarrow> unwound option" where
  "unwind_loop rd offs ta mx frame_ptr prev_frame depth buf log =
     (if frame_ptr \<noteq> 0 \<and> frame_ptr \<noteq> prev_frame \<and> depth < mx then
        (case rd (frame_ptr + p4if_owner (p4do_interpreter_frame offs)) of
           Ok v \<Rightarrow>
             (if FRAME_SKIP_OWNER_MIN \<le> v AND 0xFF then
                (case rd (frame_ptr + p4if_previous (p4do_interpreter_frame offs)) of
                   Ok next \<Rightarrow> unwind_loop rd offs ta mx next frame_ptr depth buf log
                 | _ \<Rightarrow> Some (depth, buf, log))
              else
                (case rd (frame_ptr + p4if_executable (p4do_interpreter_frame offs)) of
                   Ok code_obj \<Rightarrow>
                     (if code_obj = 0 then Some (depth, buf, log)
                      else
                        (let log' = log @ type_mismatch rd offs ta code_obj in
                         case rd (frame_ptr + p4if_instr_ptr (p4do_interpreter_frame offs)) of
                           Ok instr_ptr \<Rightarrow>
                             (let buf' = buf[depth := \<lparr>rf_code_object = code_obj, rf_instr_offset = instr_ptr\<rparr>] in
                              case rd (frame_ptr + p4if_previous (p4do_interpreter_frame offs)) of
                                Ok next \<Rightarrow> unwind_loop rd offs ta mx next frame_ptr (depth + 1) buf' log'
                              | _ \<Rightarrow> Some (depth + 1, buf', log'))
                         | _ \<Rightarrow> Some (depth, buf, log')))
                 | _ \<Rightarrow> Some (depth, buf, log)))
         | _ \<Rightarrow> Some (depth, buf, log))
      else Some (depth, buf, log))"

definition unwind_limit :: "raw_frame list \<Rightarrow> nat" where
  "unwind_limit buf = (if length buf < MAX_DEPTH then length buf else MAX_DEPTH)"

definition unwind ::
    "reader \<Rightarrow> u64 \<Rightarrow> py314_debug_offsets \<Rightarrow> type_addrs \<Rightarrow> raw_frame list \<Rightarrow> unwound option" where
  "unwind rd tstate offs ta buf =
     (case rd (tstate + p4ts_current_frame (p4do_thread_state offs)) of
        Ok frame_ptr \<Rightarrow>
          (if frame_ptr = 0 then Some (0, buf, [])
           else unwind_loop rd offs ta (unwind_limit buf) frame_ptr 0 0 buf [])
      | _ \<Rightarrow> Some (0, buf, []))"

section \<open>Bounds\<close>

text \<open>Whatever the memory holds, a walk that ends stays within the buffer.\<close>

definition loop_ok :: "nat \<Rightarrow> nat \<Rightarrow> raw_frame list \<Rightarrow> unwound \<Rightarrow> bool" where
  "loop_ok mx depth buf = (\<lambda>(d, buf', log). depth \<le> d \<and> d \<le> max mx depth \<and> length buf' = length buf
     \<and> take depth buf' = take depth buf \<and> drop d buf' = drop d buf)"

lemma loop_ok_refl: "loop_ok mx depth buf (depth, buf, log)"
  by (simp add: loop_ok_def)

lemma loop_ok_write:
  "depth < mx \<Longrightarrow> loop_ok mx (depth + 1) (buf[depth := f]) r \<Longrightarrow> loop_ok mx depth buf r"
  unfolding loop_ok_def
  by (auto split: prod.splits simp: take_Suc_conv_app_nth dest: arg_cong [of _ _ "take depth"])

lemma unwind_loop_bounds:
  assumes "unwind_loop rd offs ta mx frame_ptr prev_frame depth buf log = Some r"
  shows "loop_ok mx depth buf r"
proof (rule unwind_loop.raw_induct [where P = "\<lambda>rd offs ta mx fp prev depth buf log r. loop_ok mx depth buf r",
      OF _ assms], goal_cases)
  case (1 f rd offs ta mx fp prev depth buf log r)
  note IH = 1(1)
  have rec: "loop_ok mx depth buf r" if "f rd offs ta mx fp' prev' depth buf log' = Some r" for fp' prev' log'
    using IH [OF that] .
  have rec_write: "loop_ok mx depth buf r"
    if "f rd offs ta mx fp' prev' (Suc depth) (buf[depth := x]) log' = Some r" "depth < mx" for fp' prev' log' x
    using loop_ok_write [OF that(2)] IH [OF that(1)] by simp
  have stop_write: "loop_ok mx depth buf (Suc depth, buf[depth := x], log')" if "depth < mx" for x log'
    by (rule loop_ok_write [OF that, of _ x]) (simp add: loop_ok_refl)
  from 1(2) show ?case
    by (simp add: Let_def split: if_splits res.splits)
      (auto simp: loop_ok_refl intro: rec rec_write stop_write)
qed

lemma unwind_bounds:
  assumes "unwind rd tstate offs ta buf = Some (d, buf', log)"
  shows "d \<le> length buf \<and> d \<le> MAX_DEPTH \<and> length buf' = length buf \<and> drop d buf' = drop d buf"
proof -
  have "loop_ok (unwind_limit buf) 0 buf (d, buf', log)"
    using assms unwind_loop_bounds
    by (fastforce simp: unwind_def loop_ok_refl split: res.splits if_splits)
  then show ?thesis
    by (auto simp: loop_ok_def unwind_limit_def split: if_splits)
qed

section \<open>Well-formed chains\<close>

text \<open>A frame as the interpreter keeps it, and a chain of frames ended by a null pointer.\<close>

record py_frame =
  fr_addr :: u64
  fr_owner :: u64
  fr_code :: u64
  fr_instr :: u64

definition fr_visible :: "py_frame \<Rightarrow> bool" where
  "fr_visible x \<longleftrightarrow> fr_owner x AND 0xFF < FRAME_SKIP_OWNER_MIN"

fun frame_chain :: "reader \<Rightarrow> py314_debug_offsets \<Rightarrow> u64 \<Rightarrow> u64 \<Rightarrow> py_frame list \<Rightarrow> bool" where
  "frame_chain rd offs prev fp [] \<longleftrightarrow> fp = 0"
| "frame_chain rd offs prev fp (x # xs) \<longleftrightarrow> fp = fr_addr x \<and> fp \<noteq> 0 \<and> fp \<noteq> prev
     \<and> rd (fp + p4if_owner (p4do_interpreter_frame offs)) = Ok (fr_owner x)
     \<and> (fr_visible x \<longrightarrow> fr_code x \<noteq> 0
          \<and> rd (fp + p4if_executable (p4do_interpreter_frame offs)) = Ok (fr_code x)
          \<and> rd (fp + p4if_instr_ptr (p4do_interpreter_frame offs)) = Ok (fr_instr x))
     \<and> (\<exists>next. rd (fp + p4if_previous (p4do_interpreter_frame offs)) = Ok next
          \<and> frame_chain rd offs fp next xs)"

definition fr_raw :: "py_frame \<Rightarrow> raw_frame" where
  "fr_raw x = \<lparr>rf_code_object = fr_code x, rf_instr_offset = fr_instr x\<rparr>"

text \<open>What the walk ought to collect: the visible frames, innermost first, up to the limit.\<close>

definition visible_frames :: "nat \<Rightarrow> py_frame list \<Rightarrow> raw_frame list" where
  "visible_frames n xs = take n (map fr_raw (filter fr_visible xs))"

lemma unwind_loop_chain:
  assumes "frame_chain rd offs prev fp xs" and "depth \<le> mx" and "mx \<le> length buf"
  shows "\<exists>log'. unwind_loop rd offs ta mx fp prev depth buf log =
    (let fs = visible_frames (mx - depth) xs
     in Some (depth + length fs, take depth buf @ fs @ drop (depth + length fs) buf, log'))"
  using assms
proof (induction xs arbitrary: prev fp depth buf log)
  case Nil
  then show ?case by (subst unwind_loop.simps) (simp add: visible_frames_def)
next
  case (Cons x xs)
  obtain next_ptr where nx: "rd (fp + p4if_previous (p4do_interpreter_frame offs)) = Ok next_ptr"
    "frame_chain rd offs fp next_ptr xs"
    using Cons.prems(1) by auto
  show ?case
  proof (cases "depth = mx")
    case True
    then show ?thesis by (subst unwind_loop.simps) (simp add: visible_frames_def)
  next
    case False
    with Cons.prems(2) have lt: "depth < mx" by simp
    show ?thesis
    proof (cases "fr_visible x")
      case True
      let ?buf = "buf[depth := fr_raw x]"
      let ?log = "log @ type_mismatch rd offs ta (fr_code x)"
      have "unwind_loop rd offs ta mx fp prev depth buf log =
          unwind_loop rd offs ta mx next_ptr fp (depth + 1) ?buf ?log"
        using Cons.prems(1) nx True lt
        by (subst unwind_loop.simps) (auto simp: fr_visible_def fr_raw_def Let_def not_le)
      moreover obtain log' where "unwind_loop rd offs ta mx next_ptr fp (depth + 1) ?buf ?log =
          (let fs = visible_frames (mx - (depth + 1)) xs
           in Some (depth + 1 + length fs, take (depth + 1) ?buf @ fs @ drop (depth + 1 + length fs) ?buf, log'))"
        using Cons.IH [of fp next_ptr "depth + 1" ?buf ?log] nx(2) lt Cons.prems(3) by auto
      moreover have "visible_frames (mx - depth) (x # xs) = fr_raw x # visible_frames (mx - (depth + 1)) xs"
        using True lt by (simp add: visible_frames_def Suc_diff_Suc [OF lt, symmetric])
      moreover have "take (depth + 1) ?buf = take depth buf @ [fr_raw x]"
        using lt Cons.prems(3) by (simp add: take_Suc_conv_app_nth)
      ultimately show ?thesis by (simp add: Let_def)
    next
      case hidden: False
      have "unwind_loop rd offs ta mx fp prev depth buf log =
          unwind_loop rd offs ta mx next_ptr fp depth buf log"
        using Cons.prems(1) nx hidden lt
        by (subst unwind_loop.simps) (auto simp: fr_visible_def not_less)
      with Cons.IH [of fp next_ptr depth buf log] nx(2) Cons.prems(2,3) hidden show ?thesis
        by (simp add: visible_frames_def)
    qed
  qed
qed

lemma unwind_chain:
  assumes "rd (tstate + p4ts_current_frame (p4do_thread_state offs)) = Ok fp" and "frame_chain rd offs 0 fp xs"
  shows "\<exists>log. unwind rd tstate offs ta buf =
    (let fs = visible_frames (unwind_limit buf) xs in Some (length fs, fs @ drop (length fs) buf, log))"
proof (cases "fp = 0")
  case True
  with assms(2) have "xs = []" by (cases xs) auto
  with True assms(1) show ?thesis by (simp add: unwind_def visible_frames_def)
next
  case False
  have "unwind_limit buf \<le> length buf" by (simp add: unwind_limit_def)
  from unwind_loop_chain [OF assms(2) le0 this, of ta "[]"] False assms(1) show ?thesis
    by (simp add: unwind_def Let_def)
qed

text \<open>C17: on a well-formed chain of frames the walk ends and collects the frames of the program,
  innermost first, skipping the interpreter's own, up to the size of the buffer and the maximal
  depth; the rest of the buffer keeps its contents.\<close>
theorem unwind_collects_frames:
  assumes "rd (tstate + p4ts_current_frame (p4do_thread_state offs)) = Ok fp" and "frame_chain rd offs 0 fp xs"
  shows "\<exists>log. unwind rd tstate offs ta buf =
    (let fs = visible_frames (min (length buf) MAX_DEPTH) xs in Some (length fs, fs @ drop (length fs) buf, log))"
proof -
  have "unwind_limit buf = min (length buf) MAX_DEPTH" by (simp add: unwind_limit_def min_def)
  with unwind_chain [OF assms, of ta buf] show ?thesis by simp
qed

text \<open>An example: offsets of a small interpreter, and a memory with three frames, the middle one
  a shim of the interpreter.\<close>

definition ex_offsets :: py314_debug_offsets where
  "ex_offsets =
     \<lparr>p4do_cookie = [], p4do_version = 0, p4do_free_threaded = 0,
      p4do_runtime_state = \<lparr>p4rs_size = 0, p4rs_finalizing = 0, p4rs_interpreters_head = 0\<rparr>,
      p4do_interpreter_state = \<lparr>p4is_size = 0, p4is_id = 0, p4is_next = 0, p4is_threads_head = 0, p4is_threads_main = 0,
        p4is_gc = 0, p4is_imports_modules = 0, p4is_sysdict = 0, p4is_builtins = 0,
        p4is_ceval_gil = 0, p4is_gil_runtime_state = 0, p4is_gil_runtime_state_enabled = 0,
        p4is_gil_runtime_state_locked = 0, p4is_gil_runtime_state_holder = 0,
        p4is_code_object_generation = 0, p4is_tlbc_generation = 0\<rparr>,
      p4do_thread_state = \<lparr>p4ts_size = 0, p4ts_prev = 0, p4ts_next = 0, p4ts_interp = 0, p4ts_current_frame = 0,
        p4ts_thread_id = 0, p4ts_native_thread_id = 0, p4ts_datastack_chunk = 0, p4ts_status = 0\<rparr>,
      p4do_interpreter_frame = \<lparr>p4if_size = 0, p4if_previous = 8, p4if_executable = 0, p4if_instr_ptr = 16,
        p4if_localsplus = 0, p4if_owner = 24, p4if_stackpointer = 0, p4if_tlbc_index = 0\<rparr>,
      p4do_code_object = \<lparr>p4co_size = 0, p4co_filename = 0, p4co_name = 24, p4co_qualname = 16, p4co_linetable = 0,
        p4co_firstlineno = 0, p4co_argcount = 0, p4co_localsplusnames = 0, p4co_localspluskinds = 0,
        p4co_co_code_adaptive = 0, p4co_co_tlbc = 0\<rparr>,
      p4do_pyobject = \<lparr>p4po_size = 0, p4po_ob_type = 8\<rparr>,
      p4do_type_object = \<lparr>p4to_size = 0, p4to_tp_name = 0, p4to_tp_repr = 0, p4to_tp_flags = 0\<rparr>,
      p4do_tuple_object = \<lparr>p4tu_size = 0, p4tu_ob_item = 0, p4tu_ob_size = 0\<rparr>,
      p4do_list_object = \<lparr>p4lo_size = 0, p4lo_ob_item = 0, p4lo_ob_size = 0\<rparr>,
      p4do_set_object = \<lparr>p4so_size = 0, p4so_used = 0, p4so_table = 0, p4so_mask = 0\<rparr>,
      p4do_dict_object = \<lparr>p4di_size = 0, p4di_ma_keys = 0, p4di_ma_values = 0\<rparr>,
      p4do_float_object = \<lparr>p4fo_size = 0, p4fo_ob_fval = 0\<rparr>,
      p4do_long_object = \<lparr>p4ln_size = 0, p4ln_lv_tag = 0, p4ln_ob_digit = 0\<rparr>,
      p4do_bytes_object = \<lparr>p4bo_size = 0, p4bo_ob_size = 0, p4bo_ob_sval = 0\<rparr>,
      p4do_unicode_object = \<lparr>p4uo_size = 0, p4uo_state = 16, p4uo_length = 8, p4uo_asciiobject_size = 24\<rparr>,
      p4do_gc = \<lparr>p4gc_size = 0, p4gc_collecting = 0\<rparr>,
      p4do_gen_object = \<lparr>p4go_size = 0, p4go_gi_name = 0, p4go_gi_iframe = 0, p4go_gi_frame_state = 0\<rparr>,
      p4do_llist_node = \<lparr>p4ll_next = 0, p4ll_prev = 0\<rparr>,
      p4do_debugger_support = \<lparr>p4ds_eval_breaker = 0, p4ds_remote_debugger_support = 0, p4ds_remote_debugging_enabled = 0,
        p4ds_debugger_pending_call = 0, p4ds_debugger_script_path = 0,
        p4ds_debugger_script_path_size = 0\<rparr>\<rparr>"

definition mem_reader :: "(u64 \<times> u64) list \<Rightarrow> reader" where
  "mem_reader cells a = (case map_of cells a of None \<Rightarrow> Err (ReadMemError 11) | Some v \<Rightarrow> Ok v)"

definition ex_cells :: "(u64 \<times> u64) list" where
  "ex_cells = [(0x10, 0x100), (0x100, 0x1000), (0x108, 0x200), (0x110, 0x1004), (0x118, 0),
     (0x208, 0x300), (0x218, 3), (0x300, 0x2000), (0x308, 0), (0x310, 0x2008), (0x318, 1)]"

definition ex_chain :: "py_frame list" where
  "ex_chain = [\<lparr>fr_addr = 0x100, fr_owner = 0, fr_code = 0x1000, fr_instr = 0x1004\<rparr>,
     \<lparr>fr_addr = 0x200, fr_owner = 3, fr_code = 0, fr_instr = 0\<rparr>,
     \<lparr>fr_addr = 0x300, fr_owner = 1, fr_code = 0x2000, fr_instr = 0x2008\<rparr>]"

lemma ex_chain_ok:
  "mem_reader ex_cells (0x10 + p4ts_current_frame (p4do_thread_state ex_offsets)) = Ok 0x100"
  "frame_chain (mem_reader ex_cells) ex_offsets 0 0x100 ex_chain"
  by (simp_all add: mem_reader_def ex_cells_def ex_offsets_def ex_chain_def fr_visible_def FRAME_SKIP_OWNER_MIN_def)

lemma ex_chain_visible:
  "visible_frames 128 ex_chain = [\<lparr>rf_code_object = 0x1000, rf_instr_offset = 0x1004\<rparr>,
     \<lparr>rf_code_object = 0x2000, rf_instr_offset = 0x2008\<rparr>]"
  by (simp add: visible_frames_def ex_chain_def fr_visible_def FRAME_SKIP_OWNER_MIN_def fr_raw_def)

lemma unwind_collects_frames_witness:
  "\<exists>buf log. unwind (mem_reader ex_cells) 0x10 ex_offsets \<lparr>ta_code_type = 0\<rparr>
      (replicate 200 \<lparr>rf_code_object = 7, rf_instr_offset = 7\<rparr>) = Some (2, buf, log)
    \<and> map rf_code_object (take 3 buf) = [0x1000, 0x2000, 7]"
  using unwind_collects_frames [OF ex_chain_ok, of "\<lparr>ta_code_type = 0\<rparr>"
      "replicate 200 \<lparr>rf_code_object = 7, rf_instr_offset = 7\<rparr>"]
  by (auto simp: MAX_DEPTH_def ex_chain_visible Let_def take_Cons')

section \<open>A chain that never ends\<close>

text \<open>Two frames that are skipped and point at each other: the check for a repeated pointer
  looks one step back only, and the depth does not grow.\<close>

definition shim_cycle :: "reader \<Rightarrow> py314_debug_offsets \<Rightarrow> u64 \<Rightarrow> u64 \<Rightarrow> bool" where
  "shim_cycle rd offs a b \<longleftrightarrow> a \<noteq> 0 \<and> b \<noteq> 0 \<and> a \<noteq> b \<and> (\<forall>(x, y) \<in> {(a, b), (b, a)}.
     (\<exists>v. rd (x + p4if_owner (p4do_interpreter_frame offs)) = Ok v \<and> FRAME_SKIP_OWNER_MIN \<le> v AND 0xFF)
     \<and> rd (x + p4if_previous (p4do_interpreter_frame offs)) = Ok y)"

lemma unwind_loop_diverges:
  assumes "shim_cycle rd offs a b" and "depth < mx"
  shows "unwind_loop rd offs ta mx a b depth buf log = None"
proof -
  define Q where "Q = (\<lambda>rd' offs' (ta' :: type_addrs) mx' fp prev d (buf' :: raw_frame list) (log' :: (u64 \<times> u64) list) (r :: unwound).
    rd' = rd \<longrightarrow> offs' = offs \<longrightarrow> mx' = mx \<longrightarrow> d = depth \<longrightarrow> (fp, prev) \<notin> {(a, b), (b, a)})"
  have "Q rd offs ta mx a b depth buf log r" if "unwind_loop rd offs ta mx a b depth buf log = Some r" for r
  proof (rule unwind_loop.raw_induct [where P = Q, OF _ that], goal_cases)
    case (1 f rd' offs' ta' mx' fp prev d buf' log' r)
    note IH = 1(1)
    show ?case
      using 1(2) assms unfolding Q_def
      by (auto simp: shim_cycle_def dest!: IH split: if_splits) (simp_all add: Q_def)
  qed
  then show ?thesis
    by (cases "unwind_loop rd offs ta mx a b depth buf log") (auto simp: Q_def)
qed

text \<open>Where the frame chain is a cycle of two frames that are skipped, the walk, and with it
  the signal handler, never ends.\<close>
theorem unwind_diverges:
  assumes "rd (tstate + p4ts_current_frame (p4do_thread_state offs)) = Ok a" and "shim_cycle rd offs a b"
    and "buf \<noteq> []"
  shows "unwind rd tstate offs ta buf = None"
proof -
  have lim: "0 < unwind_limit buf"
    using assms(3) by (auto simp: unwind_limit_def MAX_DEPTH_def)
  have "unwind_loop rd offs ta (unwind_limit buf) a 0 0 buf [] =
      unwind_loop rd offs ta (unwind_limit buf) b a 0 buf []"
    using assms(2) lim by (subst unwind_loop.simps) (auto simp: shim_cycle_def)
  also have "\<dots> = None"
    using assms(2) lim by (intro unwind_loop_diverges) (auto simp: shim_cycle_def)
  finally show ?thesis
    using assms(1,2) by (simp add: unwind_def shim_cycle_def)
qed

lemma unwind_diverges_witness:
  "unwind (mem_reader [(0x10, 0x100), (0x118, 3), (0x108, 0x200), (0x218, 4), (0x208, 0x100)]) 0x10 ex_offsets
     \<lparr>ta_code_type = 0\<rparr> [\<lparr>rf_code_object = 0, rf_instr_offset = 0\<rparr>] = None"
  by (rule unwind_diverges [where a = "0x100" and b = "0x200"])
    (simp_all add: mem_reader_def ex_offsets_def shim_cycle_def FRAME_SKIP_OWNER_MIN_def)

end
