(* ===== verification/SigRing.thy ===== *)
theory SigRing
  imports PythonUnwind Bytes
begin

text \<open>
  The records that the signal handler passes to the reader thread through a byte queue
  (\<open>kit/sig_ring/src/lib.rs\<close>). The queue is bbqueue's; the only thing the code needs of it
  is a grant: a buffer of the requested length, or nothing when the queue is full.
\<close>

definition RING_SIZE :: nat where "RING_SIZE = 256 * 1024"
definition DEFAULT_NOTIFY_INTERVAL :: u32 where "DEFAULT_NOTIFY_INTERVAL = 32"
definition HEADER_SIZE :: nat where "HEADER_SIZE = 8"
definition FRAME_SIZE :: nat where "FRAME_SIZE = 16"

lemmas ring_sizes = HEADER_SIZE_def FRAME_SIZE_def

text \<open>The length of a record, in the arithmetic of \<open>usize\<close>.\<close>

definition record_len :: "nat \<Rightarrow> nat" where
  "record_len depth = unat (word_of_nat (HEADER_SIZE + depth * FRAME_SIZE) :: usize)"

text \<open>\<open>RawFrame\<close> in memory: two little-endian words, no padding.\<close>

definition raw_frame_bytes :: "raw_frame \<Rightarrow> u8 list" where
  "raw_frame_bytes f = u64_bytes (rf_code_object f) @ u64_bytes (rf_instr_offset f)"

text \<open>\<open>write\<close>: \<open>grant\<close> is the answer to the request for \<open>record_len depth\<close> bytes. The result is
  the record committed, \<open>None\<close> when the queue is full, or a panic of a slice operation.\<close>

definition sr_write ::
    "(nat \<Rightarrow> u8 list option) \<Rightarrow> u32 \<Rightarrow> raw_frame list \<Rightarrow> nat \<Rightarrow> (u8 list option, unit) res" where
  "sr_write grant tid frames depth =
     (let len = record_len depth in
      case grant len of
        None \<Rightarrow> Ok None
      | Some g0 \<Rightarrow>
          bind_res (copy_at g0 0 4 (u32_bytes tid)) (\<lambda>g1.
          bind_res (copy_at g1 4 8 (u32_bytes (word_of_nat depth))) (\<lambda>g2.
          bind_res (slice_of frames 0 depth) (\<lambda>frames_src.
          let src_bytes = concat (map raw_frame_bytes frames_src) in
          bind_res (copy_at g2 HEADER_SIZE (HEADER_SIZE + length src_bytes) src_bytes) (\<lambda>g3.
          Ok (Some (take len g3)))))))"

record record_view =
  rv_tid :: u32
  rv_depth :: u32
  rv_buf :: "u8 list"

text \<open>\<open>RecordView::frame\<close>: the two slices may panic; the words are then read unaligned, which
  the caller keeps within the buffer (\<open>None\<close>-free only for an index below the depth).\<close>

definition rv_frame :: "record_view \<Rightarrow> nat \<Rightarrow> (raw_frame, unit) res" where
  "rv_frame v i =
     (let offset = HEADER_SIZE + i * FRAME_SIZE in
      bind_res (slice_of (rv_buf v) offset (length (rv_buf v))) (\<lambda>code_ptr.
      bind_res (slice_of (rv_buf v) (offset + 8) (length (rv_buf v))) (\<lambda>instr_ptr.
      Ok \<lparr>rf_code_object = bytes_u64 (take 8 code_ptr), rf_instr_offset = bytes_u64 (take 8 instr_ptr)\<rparr>)))"

definition parse_record :: "u8 list \<Rightarrow> record_view option" where
  "parse_record buf =
     (if length buf < HEADER_SIZE then None
      else
        let tid = bytes_u32 (take 4 buf);
            depth = bytes_u32 (take 4 (drop 4 buf));
            expected_len = record_len (unat depth)
        in if length buf < expected_len then None
           else Some \<lparr>rv_tid = tid, rv_depth = depth, rv_buf = buf\<rparr>)"

text \<open>What is asked of a grant.\<close>

definition grant_ok :: "(nat \<Rightarrow> u8 list option) \<Rightarrow> bool" where
  "grant_ok grant \<longleftrightarrow> (\<forall>n g. grant n = Some g \<longrightarrow> length g = n)"

section \<open>Correctness\<close>

lemma length_raw_frame_bytes [simp]: "length (raw_frame_bytes f) = 16"
  by (simp add: raw_frame_bytes_def)

lemma length_frames_bytes [simp]: "length (concat (map raw_frame_bytes fs)) = 16 * length fs"
  by (induction fs) simp_all

lemma record_len_small: "depth < 2 ^ 32 \<Longrightarrow> record_len depth = 8 + 16 * depth"
  unfolding record_len_def unat_of_nat ring_sizes by simp

definition record_bytes :: "u32 \<Rightarrow> raw_frame list \<Rightarrow> u8 list" where
  "record_bytes tid fs = u32_bytes tid @ u32_bytes (word_of_nat (length fs)) @ concat (map raw_frame_bytes fs)"

text \<open>What is committed is the header and the frames, and nothing of the grant's old contents.\<close>

lemma sr_write_ok:
  assumes "grant_ok grant" and "depth \<le> length frames" and "depth < 2 ^ 32"
    and "grant (record_len depth) = Some g"
  shows "sr_write grant tid frames depth = Ok (Some (record_bytes tid (take depth frames)))"
proof -
  have len: "record_len depth = 8 + 16 * depth" using assms(3) by (rule record_len_small)
  then have g: "length g = 8 + 16 * depth" using assms(1,4) by (auto simp: grant_ok_def)
  have "copy_at g 0 4 (u32_bytes tid) = (Ok (u32_bytes tid @ drop 4 g) :: (u8 list, unit) res)"
    using g by (simp add: copy_at_def)
  moreover have "copy_at (u32_bytes tid @ drop 4 g) 4 8 (u32_bytes (word_of_nat depth)) =
      (Ok (u32_bytes tid @ u32_bytes (word_of_nat depth) @ drop 8 g) :: (u8 list, unit) res)"
    using g by (simp add: copy_at_def)
  moreover have "slice_of frames 0 depth = (Ok (take depth frames) :: (raw_frame list, unit) res)"
    using assms(2) by (simp add: slice_of_def)
  moreover have "copy_at (u32_bytes tid @ u32_bytes (word_of_nat depth) @ drop 8 g) 8 (8 + 16 * depth)
      (concat (map raw_frame_bytes (take depth frames))) =
      (Ok (record_bytes tid (take depth frames)) :: (u8 list, unit) res)"
    using g assms(2) by (simp add: copy_at_def record_bytes_def min_absorb2)
  moreover have "take (8 + 16 * depth) (record_bytes tid (take depth frames)) = record_bytes tid (take depth frames)"
    using assms(2) by (intro take_all) (simp add: record_bytes_def min_absorb2)
  ultimately show ?thesis
    using assms(2,4) by (simp add: sr_write_def Let_def len ring_sizes min_absorb2)
qed

lemma length_record_bytes [simp]: "length (record_bytes tid fs) = 8 + 16 * length fs"
  by (simp add: record_bytes_def)

lemma parse_record_bytes:
  assumes "length fs < 2 ^ 32"
  shows "parse_record (record_bytes tid fs) =
    Some \<lparr>rv_tid = tid, rv_depth = word_of_nat (length fs), rv_buf = record_bytes tid fs\<rparr>"
proof -
  have "take 4 (record_bytes tid fs) = u32_bytes tid"
    "take 4 (drop 4 (record_bytes tid fs)) = u32_bytes (word_of_nat (length fs))"
    by (simp_all add: record_bytes_def)
  moreover have "unat (word_of_nat (length fs) :: u32) = length fs"
    using assms by (simp add: unat_of_nat)
  moreover have "record_len (length fs) = 8 + 16 * length fs"
    using assms by (rule record_len_small)
  ultimately show ?thesis by (simp add: parse_record_def Let_def ring_sizes)
qed

lemma drop_frames: "i \<le> length fs \<Longrightarrow> drop (16 * i) (concat (map raw_frame_bytes fs)) = concat (map raw_frame_bytes (drop i fs))"
proof (induction fs arbitrary: i)
  case Nil
  then show ?case by simp
next
  case (Cons f fs)
  then show ?case by (cases i) simp_all
qed

lemma rv_frame_bytes:
  assumes "rv_buf v = record_bytes tid fs" and "i < length fs"
  shows "rv_frame v i = Ok (fs ! i)"
proof -
  obtain f rest where rest: "drop i fs = f # rest" "f = fs ! i"
    using assms(2) by (metis Cons_nth_drop_Suc)
  have "drop (8 + 16 * i) (record_bytes tid fs) = concat (map raw_frame_bytes (drop i fs))"
    using assms(2) drop_frames [of i fs] by (simp add: record_bytes_def)
  with rest have bytes: "drop (8 + 16 * i) (record_bytes tid fs) =
      u64_bytes (rf_code_object f) @ u64_bytes (rf_instr_offset f) @ concat (map raw_frame_bytes rest)"
    by (simp add: raw_frame_bytes_def)
  moreover have "drop (8 + 16 * i + 8) (record_bytes tid fs) = drop 8 (drop (8 + 16 * i) (record_bytes tid fs))"
    by (simp only: drop_drop add.commute)
  ultimately have "drop (8 + 16 * i + 8) (record_bytes tid fs) =
      u64_bytes (rf_instr_offset f) @ concat (map raw_frame_bytes rest)"
    by simp
  with bytes assms rest(2) show ?thesis
    by (simp add: rv_frame_def Let_def slice_of_def ring_sizes mult.commute [of _ 16])
qed

text \<open>C37: whatever bytes the reader finds, every index below the depth of a record that
  \<open>parse_record\<close> accepts can be read, and lies within the buffer.\<close>
theorem parse_record_frames:
  assumes "parse_record buf = Some v" and "i < unat (rv_depth v)"
  shows "\<exists>f. rv_frame v i = Ok f \<and> 8 + 16 * i + 16 \<le> length (rv_buf v)"
proof -
  have "record_len (unat (rv_depth v)) = 8 + 16 * unat (rv_depth v)"
    using unat_u32_less [of "rv_depth v"] by (intro record_len_small) simp
  with assms have "8 + 16 * unat (rv_depth v) \<le> length (rv_buf v)"
    by (auto simp: parse_record_def Let_def split: if_splits)
  with assms(2) show ?thesis
    by (simp add: rv_frame_def Let_def slice_of_def ring_sizes mult.commute [of _ 16])
qed

lemma parse_record_frames_witness:
  "\<exists>v f. parse_record (replicate 4 0 @ [1, 0, 0, 0] @ replicate 20 5) = Some v \<and> rv_frame v 0 = Ok f"
proof -
  let ?buf = "replicate 4 0 @ [1, 0, 0, 0] @ replicate 20 5 :: u8 list"
  have "bytes_u32 (take 4 (drop 4 ?buf)) = 1" by (simp add: bytes_u32_def)
  then obtain v where v: "parse_record ?buf = Some v" "rv_depth v = 1"
    by (simp add: parse_record_def ring_sizes record_len_def Let_def)
  with parse_record_frames [of ?buf v 0] show ?thesis by auto
qed

text \<open>C19: what the handler writes is what the reader reads: given a grant, \<open>write\<close> commits a
  record from which \<open>parse_record\<close> and \<open>frame\<close> recover the thread and every frame; without a
  grant nothing is committed. Neither panics.\<close>
theorem ring_roundtrip:
  assumes "grant_ok grant" and "depth \<le> length frames" and "depth < 2 ^ 32"
  shows "case grant (record_len depth) of
      None \<Rightarrow> sr_write grant tid frames depth = Ok None
    | Some g \<Rightarrow> (\<exists>r v. sr_write grant tid frames depth = Ok (Some r) \<and> parse_record r = Some v
        \<and> rv_tid v = tid \<and> unat (rv_depth v) = depth \<and> (\<forall>i < depth. rv_frame v i = Ok (frames ! i)))"
proof (cases "grant (record_len depth)")
  case None
  then show ?thesis by (simp add: sr_write_def Let_def)
next
  case (Some g)
  let ?fs = "take depth frames"
  have len: "length ?fs = depth" using assms(2) by simp
  let ?v = "\<lparr>rv_tid = tid, rv_depth = word_of_nat depth, rv_buf = record_bytes tid ?fs\<rparr>"
  have "parse_record (record_bytes tid ?fs) = Some ?v"
    using parse_record_bytes [of ?fs tid] assms(2,3) by (simp add: min_absorb2)
  moreover have "rv_frame ?v i = Ok (frames ! i)" if "i < depth" for i
    using rv_frame_bytes [of ?v tid ?fs i] that len by simp
  moreover have "unat (word_of_nat depth :: u32) = depth" using assms(3) by (simp add: unat_of_nat)
  ultimately show ?thesis using sr_write_ok [OF assms Some, of tid] Some by auto
qed

lemma ring_roundtrip_witness:
  "\<exists>r v. sr_write (\<lambda>n. Some (replicate n 9)) 42 [\<lparr>rf_code_object = 5, rf_instr_offset = 6\<rparr>] 1 = Ok (Some r)
    \<and> parse_record r = Some v \<and> rv_tid v = 42 \<and> rv_frame v 0 = Ok \<lparr>rf_code_object = 5, rf_instr_offset = 6\<rparr>"
proof -
  have "grant_ok (\<lambda>n. Some (replicate n 9))" by (simp add: grant_ok_def)
  from ring_roundtrip [OF this, of 1 "[\<lparr>rf_code_object = 5, rf_instr_offset = 6\<rparr>]" 42] show ?thesis by auto
qed

end
