(* ===== verification/CrashHandler.thy ===== *)
theory CrashHandler
  imports Kindasafe
begin

text \<open>
  The places where a load may fault (\<open>crash_points\<close> of \<open>kit/kindasafe/src/lib.rs\<close>, for both
  architectures) and the signal handler that resumes there (\<open>crash_handler\<close> of
  \<open>kit/kindasafe_init/src/lib.rs\<close>).
\<close>

record crash_point =
  cp_pc :: u64
  cp_signal_reg :: nat
  cp_skip :: u64

text \<open>Where the linker put the two routines.\<close>

record code_layout =
  u64_at :: u64
  slice_at :: u64

section \<open>x86-64\<close>

text \<open>The indices of \<open>gregs\<close> in libc's machine context.\<close>

definition reg_rdi :: nat where "reg_rdi = 8"
definition reg_rsi :: nat where "reg_rsi = 9"
definition reg_rdx :: nat where "reg_rdx = 12"
definition reg_rax :: nat where "reg_rax = 13"
definition reg_rcx :: nat where "reg_rcx = 14"
definition reg_rip :: nat where "reg_rip = 16"

lemmas x86_regs = reg_rdi_def reg_rsi_def reg_rdx_def reg_rax_def reg_rcx_def reg_rip_def

type_synonym gregs = "nat \<Rightarrow> u64"

definition x86_crash_points :: "code_layout \<Rightarrow> crash_point list" where
  "x86_crash_points L =
     [\<lparr>cp_pc = u64_at L, cp_signal_reg = reg_rdx, cp_skip = 5\<rparr>,
      \<lparr>cp_pc = slice_at L + 2, cp_signal_reg = reg_rax, cp_skip = 4\<rparr>]"

text \<open>\<open>for x in crash_points\<close>: the first crash point at the program counter resumes the
  routine, with none the signal goes to the fallback (\<open>None\<close>).\<close>

fun x86_crash_handler :: "crash_point list \<Rightarrow> u32 \<Rightarrow> gregs \<Rightarrow> gregs option" where
  "x86_crash_handler [] sig g = None"
| "x86_crash_handler (x # xs) sig g =
     (let pc = g reg_rip in
      if cp_pc x = pc then Some (g(reg_rip := pc + cp_skip x, cp_signal_reg x := scast sig))
      else x86_crash_handler xs sig g)"

section \<open>AArch64\<close>

record arm_context =
  arm_regs :: "nat \<Rightarrow> u64"
  arm_pc :: u64

definition arm_crash_points :: "code_layout \<Rightarrow> crash_point list" where
  "arm_crash_points L =
     [\<lparr>cp_pc = u64_at L, cp_signal_reg = 1, cp_skip = 8\<rparr>,
      \<lparr>cp_pc = slice_at L + 4, cp_signal_reg = 0, cp_skip = 20\<rparr>]"

fun arm_crash_handler :: "crash_point list \<Rightarrow> u32 \<Rightarrow> arm_context \<Rightarrow> arm_context option" where
  "arm_crash_handler [] sig c = None"
| "arm_crash_handler (x # xs) sig c =
     (let pc = arm_pc c in
      if cp_pc x = pc
      then Some (c\<lparr>arm_pc := pc + cp_skip x, arm_regs := (arm_regs c)(cp_signal_reg x := scast sig)\<rparr>)
      else arm_crash_handler xs sig c)"

text \<open>Anywhere else the handler leaves the context alone.\<close>

lemma x86_crash_handler_other:
  "g reg_rip \<notin> cp_pc ` set xs \<Longrightarrow> x86_crash_handler xs sig g = None"
  by (induction xs) auto

lemma arm_crash_handler_other:
  "arm_pc c \<notin> cp_pc ` set xs \<Longrightarrow> arm_crash_handler xs sig c = None"
  by (induction xs) auto

section \<open>Fetching instructions\<close>

text \<open>Code is a list of instructions with their sizes in bytes.\<close>

fun fetch_at :: "u64 \<Rightarrow> ('i \<times> u64) list \<Rightarrow> u64 \<Rightarrow> ('i \<times> u64) option" where
  "fetch_at base [] pc = None"
| "fetch_at base ((i, n) # is) pc = (if pc = base then Some (i, n) else fetch_at (base + n) is pc)"

text \<open>The two routines do not overlap.\<close>

definition layout_ok :: "nat \<Rightarrow> nat \<Rightarrow> code_layout \<Rightarrow> bool" where
  "layout_ok a b L \<longleftrightarrow> set (addrs (u64_at L) a) \<inter> set (addrs (slice_at L) b) = {}"

lemma addrs_mem: "i < n \<Longrightarrow> a + word_of_nat i \<in> set (addrs a n)"
proof (induction a n arbitrary: i rule: addrs.induct)
  case (1 a)
  then show ?case by simp
next
  case (2 a n)
  then show ?case by (cases i) (auto simp: add.assoc)
qed

lemma addrs_mem_numeral [simp]:
  "a \<in> set (addrs a (numeral n))" "numeral i < (numeral n :: nat) \<Longrightarrow> a + numeral i \<in> set (addrs a (numeral n))"
  using addrs_mem [of 0 "numeral n" a] addrs_mem [of "numeral i" "numeral n" a] by simp_all

text \<open>One step of a machine: go on, return, a load that faults, or a store outside the buffer.\<close>

datatype 's machine_step = Next 's | Done 's | Fault u32 | Wild

text \<open>A layout, for the examples.\<close>

definition ex_layout :: code_layout where
  "ex_layout = \<lparr>u64_at = 0x1000, slice_at = 0x2000\<rparr>"

lemma ex_layout_ok: "layout_ok 6 7 ex_layout" "layout_ok 12 28 ex_layout"
  by code_simp+

end
