(* ===== verification/KindasafeX86.thy ===== *)
theory KindasafeX86
  imports CrashHandler
begin

text \<open>
  The x86-64 routines of \<open>kit/kindasafe/src/lib.rs\<close>, instruction by instruction, with the
  signal handler run at every fault: they keep the promise of \<open>guarded_loads\<close> for buffers
  below 4 GiB (\<open>mov ecx, edx\<close> takes the low half of the length).
\<close>

datatype x86_instr = MovRaxDerefRdi | XorEdxEdx | XorEaxEax | MovEcxEdx | RepMovsb | RetX86

definition x86_u64_code :: "(x86_instr \<times> u64) list" where
  "x86_u64_code = [(MovRaxDerefRdi, 3), (XorEdxEdx, 2), (RetX86, 1)]"

definition x86_slice_code :: "(x86_instr \<times> u64) list" where
  "x86_slice_code = [(MovEcxEdx, 2), (RepMovsb, 2), (XorEaxEax, 2), (RetX86, 1)]"

record x86_state =
  gr :: gregs
  xbuf :: "u8 list"

text \<open>
  One step. A repeated \<open>movsb\<close> is one iteration per step, so that a fault leaves the
  registers of the iteration that faulted. \<open>dst\<close> is the address of the destination buffer;
  the source range does not overlap it. A store outside the buffer is \<open>Wild\<close>.
\<close>

definition x86_fetch :: "code_layout \<Rightarrow> u64 \<Rightarrow> (x86_instr \<times> u64) option" where
  "x86_fetch L pc =
     (case fetch_at (u64_at L) x86_u64_code pc of
        Some i \<Rightarrow> Some i
      | None \<Rightarrow> fetch_at (slice_at L) x86_slice_code pc)"

definition x86_exec :: "memory \<Rightarrow> u64 \<Rightarrow> x86_instr \<Rightarrow> u64 \<Rightarrow> x86_state \<Rightarrow> x86_state machine_step" where
  "x86_exec m dst i n s =
     (let g = gr s; next = g(reg_rip := g reg_rip + n) in
      case i of
        MovRaxDerefRdi \<Rightarrow>
          (case fault_addr m (g reg_rdi) 8 of
             Some a \<Rightarrow> Fault (mem_signal m a)
           | None \<Rightarrow> Next (s\<lparr>gr := next(reg_rax := bytes_u64 (mem_bytes m (g reg_rdi) 8))\<rparr>))
      | XorEdxEdx \<Rightarrow> Next (s\<lparr>gr := next(reg_rdx := 0)\<rparr>)
      | XorEaxEax \<Rightarrow> Next (s\<lparr>gr := next(reg_rax := 0)\<rparr>)
      | MovEcxEdx \<Rightarrow> Next (s\<lparr>gr := next(reg_rcx := take_bit 32 (g reg_rdx))\<rparr>)
      | RepMovsb \<Rightarrow>
          if g reg_rcx = 0 then Next (s\<lparr>gr := next\<rparr>)
          else (case mem_byte m (g reg_rsi) of
                  None \<Rightarrow> Fault (mem_signal m (g reg_rsi))
                | Some b \<Rightarrow>
                    let k = unat (g reg_rdi - dst) in
                    if k < length (xbuf s)
                    then Next \<lparr>gr = g(reg_rcx := g reg_rcx - 1, reg_rsi := g reg_rsi + 1,
                                     reg_rdi := g reg_rdi + 1), xbuf = (xbuf s)[k := b]\<rparr>
                    else Wild)
      | RetX86 \<Rightarrow> Done s)"

definition x86_step :: "code_layout \<Rightarrow> memory \<Rightarrow> u64 \<Rightarrow> x86_state \<Rightarrow> x86_state machine_step" where
  "x86_step L m dst s =
     (case x86_fetch L (gr s reg_rip) of None \<Rightarrow> Wild | Some (i, n) \<Rightarrow> x86_exec m dst i n s)"

text \<open>Running with the handler installed; fuel counts instructions.\<close>

fun x86_run :: "code_layout \<Rightarrow> memory \<Rightarrow> u64 \<Rightarrow> nat \<Rightarrow> x86_state \<Rightarrow> x86_state outcome option" where
  "x86_run L m dst 0 s = None"
| "x86_run L m dst (Suc fuel) s =
     (case x86_step L m dst s of
        Next s' \<Rightarrow> x86_run L m dst fuel s'
      | Done s' \<Rightarrow> Some (Returned s')
      | Wild \<Rightarrow> Some Fallback
      | Fault sig \<Rightarrow>
          (case x86_crash_handler (x86_crash_points L) sig (gr s) of
             None \<Rightarrow> Some Fallback
           | Some g \<Rightarrow> x86_run L m dst fuel (s\<lparr>gr := g\<rparr>)))"

text \<open>The two calls, in the System V convention: arguments in rdi, rsi, rdx and results in
  rax, rdx. \<open>g\<close> holds what the other registers happen to contain. Straight-line code takes at
  most four instructions, the copy one more per byte.\<close>

definition x86_u64 :: "code_layout \<Rightarrow> gregs \<Rightarrow> memory \<Rightarrow> u64 \<Rightarrow> u64_res outcome" where
  "x86_u64 L g m at =
     (case x86_run L m 0 4 \<lparr>gr = g(reg_rip := u64_at L, reg_rdi := at), xbuf = []\<rparr> of
        Some (Returned s) \<Rightarrow> Returned (U64Res (gr s reg_rax) (gr s reg_rdx))
      | _ \<Rightarrow> Fallback)"

definition x86_slice :: "code_layout \<Rightarrow> gregs \<Rightarrow> u64 \<Rightarrow> arch_slice" where
  "x86_slice L g dst m buf at n =
     (case x86_run L m dst (unat n + 5)
             \<lparr>gr = g(reg_rip := slice_at L, reg_rdi := dst, reg_rsi := at, reg_rdx := n), xbuf = buf\<rparr> of
        Some (Returned s) \<Rightarrow> Returned (VecResult (gr s reg_rax), xbuf s)
      | _ \<Rightarrow> Fallback)"

section \<open>Correctness\<close>

lemma x86_fetch_u64:
  "x86_fetch L (u64_at L) = Some (MovRaxDerefRdi, 3)"
  "x86_fetch L (u64_at L + 3) = Some (XorEdxEdx, 2)"
  "x86_fetch L (u64_at L + 5) = Some (RetX86, 1)"
  by (simp_all add: x86_fetch_def x86_u64_code_def)

lemma x86_fetch_slice:
  assumes "layout_ok 6 7 L" and "i \<in> {0, 2, 4, 6}"
  shows "x86_fetch L (slice_at L + i) = fetch_at (slice_at L) x86_slice_code (slice_at L + i)"
proof -
  have "slice_at L + i \<in> set (addrs (slice_at L) 7)"
    using assms(2) by auto
  moreover have "{u64_at L, u64_at L + 3, u64_at L + 5} \<subseteq> set (addrs (u64_at L) 6)"
    by simp
  ultimately have "slice_at L + i \<notin> {u64_at L, u64_at L + 3, u64_at L + 5}"
    using assms(1) unfolding layout_ok_def by blast
  then show ?thesis by (simp add: x86_fetch_def x86_u64_code_def add.assoc)
qed

lemma x86_u64_readable:
  assumes "fault_addr m at 8 = None"
  shows "x86_u64 L g m at = Returned (U64Res (bytes_u64 (mem_bytes m at 8)) 0)"
  using assms by (simp add: x86_u64_def numeral_eq_Suc x86_step_def x86_exec_def x86_fetch_u64 x86_regs Let_def add.assoc)

lemma x86_u64_fault:
  assumes "fault_addr m at 8 = Some a"
  shows "\<exists>v. x86_u64 L g m at = Returned (U64Res v (scast (mem_signal m a)))"
  using assms
  by (simp add: x86_u64_def numeral_eq_Suc x86_step_def x86_exec_def x86_fetch_u64 x86_regs Let_def add.assoc
      x86_crash_points_def)

lemma x86_fetch_slice_simps:
  assumes "layout_ok 6 7 L"
  shows "x86_fetch L (slice_at L) = Some (MovEcxEdx, 2)" "x86_fetch L (slice_at L + 2) = Some (RepMovsb, 2)"
    "x86_fetch L (slice_at L + 4) = Some (XorEaxEax, 2)" "x86_fetch L (slice_at L + 6) = Some (RetX86, 1)"
  using x86_fetch_slice [OF assms, of 0] x86_fetch_slice [OF assms, of 2]
    x86_fetch_slice [OF assms, of 4] x86_fetch_slice [OF assms, of 6]
  by (simp_all add: x86_slice_code_def)

lemma slice_not_u64:
  assumes "layout_ok 6 7 L"
  shows "u64_at L \<noteq> slice_at L + 2"
proof -
  have "u64_at L \<in> set (addrs (u64_at L) 6)" "slice_at L + 2 \<in> set (addrs (slice_at L) 7)"
    by simp_all
  with assms show ?thesis unfolding layout_ok_def by (metis disjoint_iff)
qed

text \<open>The copy from its \<open>rep movsb\<close> on, with \<open>k\<close> bytes left and \<open>i\<close> copied.\<close>

lemma x86_rep_movsb:
  assumes ok: "layout_ok 6 7 L" and "k < 2 ^ 32" and "i + k \<le> length buf" and "length buf < 2 ^ 32"
    and "g reg_rip = slice_at L + 2" and "g reg_rcx = word_of_nat k" and "g reg_rsi = src"
    and "g reg_rdi = dst + word_of_nat i"
  shows "\<exists>s. x86_run L m dst (Suc (Suc (Suc (Suc k)))) \<lparr>gr = g, xbuf = buf\<rparr> = Some (Returned s) \<and> length (xbuf s) = length buf \<and>
    (case fault_addr m src k of
       None \<Rightarrow> gr s reg_rax = 0 \<and> xbuf s = take i buf @ mem_bytes m src k @ drop (i + k) buf
     | Some a \<Rightarrow> gr s reg_rax = scast (mem_signal m a))"
  using assms(2-)
proof (induction k arbitrary: i buf g src)
  case 0
  from 0(4-) show ?case
    by (simp add: x86_step_def x86_exec_def x86_fetch_slice_simps [OF ok] x86_regs Let_def add.assoc)
next
  case (Suc k)
  have nz: "(word_of_nat (Suc k) :: u64) \<noteq> 0"
    using Suc.prems(1) by (simp add: word_unat_eq_iff unat_of_nat del: of_nat_Suc)
  have idx: "unat (word_of_nat i :: u64) = i"
    using Suc.prems(2,3) by (simp add: unat_of_nat)
  show ?case
  proof (cases "mem_byte m src")
    case None
    then show ?thesis
      using Suc.prems(4-) nz slice_not_u64 [OF ok]
      by (simp add: fault_addr_Suc x86_step_def x86_exec_def x86_fetch_slice_simps [OF ok]
          x86_regs Let_def add.assoc x86_crash_points_def del: of_nat_Suc)
  next
    case (Some b)
    let ?g = "g(reg_rcx := g reg_rcx - 1, reg_rsi := src + 1, reg_rdi := dst + word_of_nat (Suc i))"
    have "\<exists>s. x86_run L m dst (Suc (Suc (Suc (Suc k)))) \<lparr>gr = ?g, xbuf = buf[i := b]\<rparr> = Some (Returned s) \<and>
      length (xbuf s) = length (buf[i := b]) \<and>
      (case fault_addr m (src + 1) k of
         None \<Rightarrow> gr s reg_rax = 0 \<and>
           xbuf s = take (Suc i) (buf[i := b]) @ mem_bytes m (src + 1) k @ drop (Suc i + k) (buf[i := b])
       | Some a \<Rightarrow> gr s reg_rax = scast (mem_signal m a))"
      using Suc.prems by (intro Suc.IH) (simp_all add: x86_regs)
    moreover have "x86_step L m dst \<lparr>gr = g, xbuf = buf\<rparr> = Next \<lparr>gr = ?g, xbuf = buf[i := b]\<rparr>"
      using Suc.prems(2,4-) nz idx Some
      by (simp add: x86_step_def x86_exec_def x86_fetch_slice_simps [OF ok] Let_def del: of_nat_Suc)
        (simp add: algebra_simps)
    then have "x86_run L m dst (Suc (Suc (Suc (Suc (Suc k))))) \<lparr>gr = g, xbuf = buf\<rparr> =
        x86_run L m dst (Suc (Suc (Suc (Suc k)))) \<lparr>gr = ?g, xbuf = buf[i := b]\<rparr>"
      by (simp only: x86_run.simps(2) machine_step.case)
    moreover have "take (Suc i) (buf[i := b]) = take i buf @ [b]"
      using Suc.prems(2) by (simp add: take_Suc_conv_app_nth)
    ultimately show ?thesis
      using Some Suc.prems(2) by (auto simp: fault_addr_Suc mem_bytes_Suc split: option.splits)
  qed
qed

lemma x86_slice_run:
  assumes ok: "layout_ok 6 7 L" and "length buf < 2 ^ 32"
  shows "\<exists>v buf'. x86_slice L g dst m buf at (word_of_nat (length buf)) = Returned (VecResult v, buf')
    \<and> length buf' = length buf \<and>
    (case fault_addr m at (length buf) of
       None \<Rightarrow> v = 0 \<and> buf' = mem_bytes m at (length buf)
     | Some a \<Rightarrow> v = scast (mem_signal m a))"
proof -
  let ?n = "word_of_nat (length buf) :: u64"
  have n: "unat ?n = length buf" using assms(2) by (simp add: unat_of_nat)
  have low: "take_bit 32 ?n = ?n"
    using assms(2) n by (simp add: word_unat_eq_iff unsigned_take_bit_eq take_bit_nat_eq_self)
  let ?h = "g(reg_rip := slice_at L, reg_rdi := dst, reg_rsi := at, reg_rdx := ?n)"
  let ?g = "?h(reg_rip := slice_at L + 2, reg_rcx := ?n)"
  have "x86_step L m dst \<lparr>gr = ?h, xbuf = buf\<rparr> = Next \<lparr>gr = ?g, xbuf = buf\<rparr>"
    using low by (simp add: x86_step_def x86_exec_def x86_fetch_slice_simps [OF ok] x86_regs Let_def)
  then have run: "x86_run L m dst (Suc (Suc (Suc (Suc (Suc (length buf)))))) \<lparr>gr = ?h, xbuf = buf\<rparr> =
      x86_run L m dst (Suc (Suc (Suc (Suc (length buf))))) \<lparr>gr = ?g, xbuf = buf\<rparr>"
    by (simp only: x86_run.simps(2) machine_step.case)
  have "\<exists>s. x86_run L m dst (Suc (Suc (Suc (Suc (length buf))))) \<lparr>gr = ?g, xbuf = buf\<rparr> = Some (Returned s)
      \<and> length (xbuf s) = length buf \<and>
    (case fault_addr m at (length buf) of
       None \<Rightarrow> gr s reg_rax = 0 \<and> xbuf s = take 0 buf @ mem_bytes m at (length buf) @ drop (0 + length buf) buf
     | Some a \<Rightarrow> gr s reg_rax = scast (mem_signal m a))"
    using assms(2) by (intro x86_rep_movsb [OF ok]) (simp_all add: x86_regs)
  then obtain s where s: "x86_run L m dst (Suc (Suc (Suc (Suc (length buf))))) \<lparr>gr = ?g, xbuf = buf\<rparr> = Some (Returned s)"
    "length (xbuf s) = length buf"
    "case fault_addr m at (length buf) of
       None \<Rightarrow> gr s reg_rax = 0 \<and> xbuf s = take 0 buf @ mem_bytes m at (length buf) @ drop (0 + length buf) buf
     | Some a \<Rightarrow> gr s reg_rax = scast (mem_signal m a)"
    by blast
  have fuel: "unat ?n + 5 = Suc (Suc (Suc (Suc (Suc (length buf)))))" using n by simp
  have "x86_slice L g dst m buf at ?n = Returned (VecResult (gr s reg_rax), xbuf s)"
    unfolding x86_slice_def fuel run s(1) by simp
  with s(2,3) show ?thesis by (intro exI [of _ "gr s reg_rax"] exI [of _ "xbuf s"]) (simp split: option.splits)
qed

interpretation x86: guarded_loads "x86_u64 L g" "x86_slice L g dst" "2 ^ 32" "layout_ok 6 7 L" for L g dst
proof (standard, goal_cases)
  case (1 m at)
  then show ?case by (simp add: x86_u64_readable)
next
  case (2 m at a)
  then show ?case by (simp add: x86_u64_fault)
next
  case (3 buf m at)
  with x86_slice_run [OF 3(1,2), of g dst m at] show ?case by auto
next
  case (4 buf m at a)
  with x86_slice_run [OF 4(1,2), of g dst m at] show ?case by auto
qed

end
