(* ===== verification/PySymbols.thy ===== *)
theory PySymbols
  imports Utf8 PythonUnwind KindasafeX86
begin

text \<open>
  Names of Python functions (\<open>read_pyunicode\<close>, \<open>read_ucs1/2/4_to_utf8\<close> and
  \<open>resolve_function_name\<close> of \<open>kit/pysignalprof/src/lib.rs\<close>): reading CPython's compact
  unicode objects out of foreign memory into UTF-8.
\<close>

section \<open>The memory operations\<close>

text \<open>The three readers of \<open>kindasafe\<close>; the latter two fill a buffer in place.\<close>

record ks_ops =
  ko_u64 :: reader
  ko_slice :: "u8 list \<Rightarrow> u64 \<Rightarrow> (unit, read_mem_error) res \<times> u8 list"
  ko_str :: "u8 list \<Rightarrow> u64 \<Rightarrow> (u8 list, read_mem_error) res \<times> u8 list"

fun returned :: "'b \<Rightarrow> 'a outcome \<Rightarrow> ('a \<Rightarrow> 'b) \<Rightarrow> 'b" where
  "returned d (Returned x) f = f x"
| "returned d Fallback f = d"

text \<open>The operations on a memory, by the x86-64 routines (the profiler is x86-64 only).\<close>

definition x86_ops :: "code_layout \<Rightarrow> gregs \<Rightarrow> u64 \<Rightarrow> memory \<Rightarrow> ks_ops" where
  "x86_ops L g dst m =
     \<lparr>ko_u64 = (\<lambda>a. returned Panic (ks_u64 (x86_u64 L g) m a) (\<lambda>r. r)),
      ko_slice = (\<lambda>buf a. returned (Panic, buf) (ks_slice (x86_slice L g dst) m buf a) (\<lambda>r. r)),
      ko_str = (\<lambda>buf a. returned (Panic, buf) (ks_str (x86_slice L g dst) utf8_valid m buf a) (\<lambda>r. r))\<rparr>"

fun res_ok :: "('a, 'e) res \<Rightarrow> 'a option" where
  "res_ok (Ok x) = Some x"
| "res_ok (Err e) = None"
| "res_ok Panic = None"

section \<open>Encoding code points\<close>

text \<open>\<open>c.encode_utf8(&mut buf[out..])\<close>\<close>

definition put_utf8 :: "nat \<Rightarrow> u8 list \<Rightarrow> nat \<Rightarrow> u8 list" where
  "put_utf8 out buf c = take out buf @ utf8_encode c @ drop (out + len_utf8 c) buf"

text \<open>The loop that the three readers share: values that are no characters are skipped, the
  first character that does not fit ends it.\<close>

fun ucs_loop :: "nat \<Rightarrow> u8 list \<Rightarrow> nat list \<Rightarrow> nat \<times> u8 list" where
  "ucs_loop out buf [] = (out, buf)"
| "ucs_loop out buf (cp # cps) =
     (case char_from_u32 cp of
        Some c \<Rightarrow>
          if length buf < out + len_utf8 c then (out, buf)
          else ucs_loop (out + len_utf8 c) (put_utf8 out buf c) cps
      | None \<Rightarrow> ucs_loop out buf cps)"

definition ucs_finish :: "nat \<times> u8 list \<Rightarrow> u8 list option \<times> u8 list" where
  "ucs_finish = (\<lambda>(out, buf).
     (if out = 0 then None else if utf8_valid (take out buf) then Some (take out buf) else None, buf))"

definition read_ucs1_to_utf8 :: "ks_ops \<Rightarrow> u8 list \<Rightarrow> u64 \<Rightarrow> usize \<Rightarrow> u8 list option \<times> u8 list" where
  "read_ucs1_to_utf8 ops buf data_addr len =
     (let max_read = min (unat len) 128 in
      case ko_slice ops (replicate max_read 0) data_addr of
        (Ok _, raw) \<Rightarrow> ucs_finish (ucs_loop 0 buf (map unat raw))
      | _ \<Rightarrow> (None, buf))"

definition u16_at :: "u8 list \<Rightarrow> nat \<Rightarrow> nat" where
  "u16_at raw i = bytes_nat [raw ! (i * 2), raw ! (i * 2 + 1)]"

definition read_ucs2_to_utf8 :: "ks_ops \<Rightarrow> u8 list \<Rightarrow> u64 \<Rightarrow> usize \<Rightarrow> u8 list option \<times> u8 list" where
  "read_ucs2_to_utf8 ops buf data_addr len =
     (let max_read = min (unat len) 128 in
      case ko_slice ops (replicate (max_read * 2) 0) data_addr of
        (Ok _, raw) \<Rightarrow> ucs_finish (ucs_loop 0 buf (map (u16_at raw) [0..<max_read]))
      | _ \<Rightarrow> (None, buf))"

definition u32_at :: "u8 list \<Rightarrow> nat \<Rightarrow> nat" where
  "u32_at raw i = bytes_nat [raw ! (i * 4), raw ! (i * 4 + 1), raw ! (i * 4 + 2), raw ! (i * 4 + 3)]"

definition read_ucs4_to_utf8 :: "ks_ops \<Rightarrow> u8 list \<Rightarrow> u64 \<Rightarrow> usize \<Rightarrow> u8 list option \<times> u8 list" where
  "read_ucs4_to_utf8 ops buf data_addr len =
     (let max_read = min (unat len) 64 in
      case ko_slice ops (replicate (max_read * 4) 0) data_addr of
        (Ok _, raw) \<Rightarrow> ucs_finish (ucs_loop 0 buf (map (u32_at raw) [0..<max_read]))
      | _ \<Rightarrow> (None, buf))"

section \<open>Unicode objects\<close>

text \<open>The flags of a string: whether it is ASCII, and its kind.\<close>

definition pyunicode_flags :: "bool \<Rightarrow> u32 \<Rightarrow> bool \<times> u32" where
  "pyunicode_flags free_threaded state_raw =
     (if free_threaded
      then (drop_bit 12 state_raw AND 1 \<noteq> 0, drop_bit 8 state_raw AND 7)
      else (drop_bit 6 state_raw AND 1 \<noteq> 0, drop_bit 2 state_raw AND 7))"

definition nonempty_str :: "(u8 list, read_mem_error) res \<times> u8 list \<Rightarrow> u8 list option \<times> u8 list" where
  "nonempty_str = (\<lambda>(r, buf). (case res_ok r of None \<Rightarrow> None | Some s \<Rightarrow> if s = [] then None else Some s, buf))"

definition read_pyunicode ::
    "ks_ops \<Rightarrow> u8 list \<Rightarrow> u64 \<Rightarrow> py314_unicode_object \<Rightarrow> bool \<Rightarrow> u8 list option \<times> u8 list" where
  "read_pyunicode ops buf obj_ptr uo free_threaded =
     (if obj_ptr = 0 then (None, buf)
      else case res_ok (ko_u64 ops (obj_ptr + p4uo_state uo)) of
        None \<Rightarrow> (None, buf)
      | Some w \<Rightarrow>
          let (ascii, kind) = pyunicode_flags free_threaded (ucast w) in
          if ascii then nonempty_str (ko_str ops buf (obj_ptr + p4uo_asciiobject_size uo))
          else
            let utf8_ptr_addr = obj_ptr + p4uo_asciiobject_size uo + 8;
                utf8_ptr = (case res_ok (ko_u64 ops utf8_ptr_addr) of None \<Rightarrow> 0 | Some v \<Rightarrow> v) in
            if utf8_ptr \<noteq> 0 then nonempty_str (ko_str ops buf utf8_ptr)
            else case res_ok (ko_u64 ops (obj_ptr + p4uo_length uo)) of
              None \<Rightarrow> (None, buf)
            | Some len \<Rightarrow>
                if len = 0 then (None, buf)
                else
                  let data_addr = obj_ptr + p4uo_asciiobject_size uo + 16 in
                  if kind = 1 then read_ucs1_to_utf8 ops buf data_addr len
                  else if kind = 2 then read_ucs2_to_utf8 ops buf data_addr len
                  else if kind = 4 then read_ucs4_to_utf8 ops buf data_addr len
                  else (None, buf))"

definition string_of_utf8 :: "u8 list \<Rightarrow> string" where
  "string_of_utf8 bs = map (\<lambda>b. char_of (unat b)) bs"

definition resolve_function_name :: "ks_ops \<Rightarrow> u64 \<Rightarrow> py314_debug_offsets \<Rightarrow> string" where
  "resolve_function_name ops code_object offs =
     (let name_buf = replicate 256 0;
          free_threaded = (p4do_free_threaded offs \<noteq> 0);
          try = (\<lambda>addr buf. case res_ok (ko_u64 ops addr) of
                   None \<Rightarrow> (None, buf)
                 | Some p \<Rightarrow> read_pyunicode ops buf p (p4do_unicode_object offs) free_threaded)
      in case try (code_object + p4co_qualname (p4do_code_object offs)) name_buf of
           (Some name, _) \<Rightarrow> string_of_utf8 name
         | (None, buf1) \<Rightarrow>
             (case try (code_object + p4co_name (p4do_code_object offs)) buf1 of
                (Some name, _) \<Rightarrow> string_of_utf8 name
              | (None, _) \<Rightarrow> ''<unknown>''))"

section \<open>Correctness of the encoding loop\<close>

text \<open>The characters that the loop writes: the longest prefix of the characters that fits.\<close>

fun fit_chars :: "nat \<Rightarrow> nat list \<Rightarrow> nat list" where
  "fit_chars room [] = []"
| "fit_chars room (cp # cps) =
     (if scalar cp then (if room < len_utf8 cp then [] else cp # fit_chars (room - len_utf8 cp) cps)
      else fit_chars room cps)"

definition utf8_text :: "nat list \<Rightarrow> u8 list" where
  "utf8_text cs = concat (map utf8_encode cs)"

lemma fit_chars_scalar: "list_all scalar (fit_chars room cps)"
  by (induction room cps rule: fit_chars.induct) simp_all

lemma fit_chars_length: "length (utf8_text (fit_chars room cps)) \<le> room"
  by (induction room cps rule: fit_chars.induct) (auto simp: utf8_text_def)

lemma put_utf8_length:
  "out + len_utf8 c \<le> length buf \<Longrightarrow> length (put_utf8 out buf c) = length buf"
  by (simp add: put_utf8_def)

lemma ucs_loop_text:
  assumes "out \<le> length buf"
  shows "ucs_loop out buf cps =
    (let t = utf8_text (fit_chars (length buf - out) cps)
     in (out + length t, take out buf @ t @ drop (out + length t) buf))"
  using assms
proof (induction out buf cps rule: ucs_loop.induct)
  case (1 out buf)
  then show ?case by (simp add: utf8_text_def)
next
  case (2 out buf cp cps)
  show ?case
  proof (cases "scalar cp \<and> out + len_utf8 cp \<le> length buf")
    case True
    let ?b = "put_utf8 out buf cp"
    have len: "length ?b = length buf" using True put_utf8_length by blast
    have room: "length buf - out - len_utf8 cp = length buf - (out + len_utf8 cp)" by simp
    have "ucs_loop (out + len_utf8 cp) ?b cps =
      (let t = utf8_text (fit_chars (length buf - (out + len_utf8 cp)) cps)
       in (out + len_utf8 cp + length t, take (out + len_utf8 cp) ?b @ t @ drop (out + len_utf8 cp + length t) ?b))"
      using "2.IH" True len by (simp add: char_from_u32_def)
    moreover have "take (out + len_utf8 cp) ?b = take out buf @ utf8_encode cp"
      using True "2.prems" by (simp add: put_utf8_def)
    moreover have "drop (out + len_utf8 cp + n) ?b = drop (out + len_utf8 cp + n) buf" for n
      using True "2.prems" by (simp add: put_utf8_def add.commute [of n])
    ultimately show ?thesis
      using True by (auto simp: char_from_u32_def Let_def utf8_text_def room add.assoc)
  next
    case False
    then show ?thesis
      using "2.IH" "2.prems" by (auto simp: char_from_u32_def utf8_text_def not_le)
  qed
qed

lemma ucs_finish_text:
  "fst (ucs_finish (ucs_loop 0 buf cps)) =
     (let cs = fit_chars (length buf) cps in if cs = [] then None else Some (utf8_text cs))"
proof -
  let ?cs = "fit_chars (length buf) cps"
  have "length (utf8_text ?cs) = 0 \<longleftrightarrow> ?cs = []"
    by (cases ?cs) (simp_all add: utf8_text_def len_utf8_bounds)
  moreover have "utf8_valid (utf8_text ?cs)"
    using fit_chars_scalar utf8_valid_encode by (simp add: utf8_text_def)
  ultimately show ?thesis
    by (simp add: ucs_loop_text ucs_finish_def Let_def)
qed

section \<open>The operations on a memory\<close>

lemma ks_str_scan_OkD:
  "ks_str_scan utf8 seen bs = Ok s \<Longrightarrow> utf8 s \<and> length s \<le> length seen + length bs"
  by (induction bs arbitrary: seen) (fastforce split: if_splits)+

lemma x86_ops_u64:
  "layout_ok 6 7 L \<Longrightarrow> signals_ok m \<Longrightarrow> ko_u64 (x86_ops L g dst m) a = read_u64 m a"
  by (simp add: x86_ops_def x86.u64_total)

lemma x86_ops_str:
  assumes "layout_ok 6 7 L" and "length buf < 2 ^ 32" and "ko_str (x86_ops L g dst m) buf a = (r, buf')"
    and "utf8_valid []"
  shows "length buf' = length buf" and "r = Ok s \<Longrightarrow> utf8_valid s \<and> length s \<le> length buf"
proof -
  from x86_slice_run [OF assms(1,2), of g dst m a] obtain v buf2 where
    s: "x86_slice L g dst m buf a (word_of_nat (length buf)) = Returned (VecResult v, buf2)" "length buf2 = length buf"
    by auto
  then have "(r, buf') = (if a = 0 then (Ok [], buf)
      else (if v \<noteq> 0 then Err (ReadMemError v) else ks_str_scan utf8_valid [] buf2, buf2))"
    using assms(3) by (auto simp: x86_ops_def ks_str_def split: if_splits)
  with s(2) assms(4) show "length buf' = length buf" "r = Ok s \<Longrightarrow> utf8_valid s \<and> length s \<le> length buf"
    by (auto split: if_splits dest: ks_str_scan_OkD [OF sym])
qed

lemma utf8_valid_Nil [simp]: "utf8_valid []"
  by (simp add: utf8_valid_def utf8_decode.simps)

lemma x86_ops_slice:
  assumes "layout_ok 6 7 L" and "length buf < 2 ^ 32" and "fault_addr m a (length buf) = None"
  shows "ko_slice (x86_ops L g dst m) buf a = (Ok (), mem_bytes m a (length buf))"
  using x86.slice_readable [OF assms, of g dst] by (simp add: x86_ops_def)

section \<open>Every name is valid UTF-8\<close>

definition good_name :: "u8 list option \<times> u8 list \<Rightarrow> nat \<Rightarrow> bool" where
  "good_name r n \<longleftrightarrow> length (snd r) = n
     \<and> (case fst r of None \<Rightarrow> True | Some s \<Rightarrow> s \<noteq> [] \<and> utf8_valid s \<and> length s \<le> n)"

lemma good_name_None [simp]: "good_name (None, buf) (length buf)"
  by (simp add: good_name_def)

lemma ucs_finish_good: "good_name (ucs_finish (ucs_loop 0 buf cps)) (length buf)"
proof -
  have "length (snd (ucs_finish (ucs_loop 0 buf cps))) = length buf"
    using fit_chars_length [of "length buf" cps] by (simp add: ucs_finish_def ucs_loop_text Let_def)
  then show ?thesis
    using utf8_valid_encode [OF fit_chars_scalar [of "length buf" cps]] fit_chars_length [of "length buf" cps]
    by (cases "fit_chars (length buf) cps") (auto simp: good_name_def ucs_finish_text Let_def utf8_text_def)
qed

lemma read_ucs_good:
  "good_name (read_ucs1_to_utf8 ops buf a n) (length buf)"
  "good_name (read_ucs2_to_utf8 ops buf a n) (length buf)"
  "good_name (read_ucs4_to_utf8 ops buf a n) (length buf)"
  by (auto simp: read_ucs1_to_utf8_def read_ucs2_to_utf8_def read_ucs4_to_utf8_def Let_def ucs_finish_good
      split: prod.splits res.splits)

lemma nonempty_str_good:
  assumes "layout_ok 6 7 L" and "length buf < 2 ^ 32"
  shows "good_name (nonempty_str (ko_str (x86_ops L g dst m) buf a)) (length buf)"
proof -
  obtain r buf' where e: "ko_str (x86_ops L g dst m) buf a = (r, buf')"
    by (cases "ko_str (x86_ops L g dst m) buf a")
  from x86_ops_str [OF assms e utf8_valid_Nil] show ?thesis
    by (cases r) (auto simp: e nonempty_str_def good_name_def)
qed

lemma read_pyunicode_good:
  assumes "layout_ok 6 7 L" and "length buf < 2 ^ 32"
  shows "good_name (read_pyunicode (x86_ops L g dst m) buf obj uo ft) (length buf)"
  using nonempty_str_good [OF assms] read_ucs_good
  by (simp add: read_pyunicode_def Let_def split: option.split prod.split)

lemma resolve_function_name_good:
  assumes "layout_ok 6 7 L"
  shows "\<exists>bs. resolve_function_name (x86_ops L g dst m) code offs = string_of_utf8 bs \<and> bs \<noteq> []
    \<and> utf8_valid bs \<and> length bs \<le> 256"
proof -
  let ?ops = "x86_ops L g dst m" and ?uo = "p4do_unicode_object offs" and ?ft = "p4do_free_threaded offs \<noteq> 0"
  define attempt where "attempt = (\<lambda>addr buf. case res_ok (ko_u64 ?ops addr) of
                   None \<Rightarrow> (None, buf) | Some p \<Rightarrow> read_pyunicode ?ops buf p ?uo ?ft)"
  have good: "good_name (attempt addr buf) (length buf)" if "length buf = 256" for addr buf
    using read_pyunicode_good [OF assms, of buf] that good_name_None [of buf]
    by (simp add: attempt_def split: option.split)
  obtain r1 b1 where a1: "attempt (code + p4co_qualname (p4do_code_object offs)) (replicate 256 0) = (r1, b1)"
    by (cases "attempt (code + p4co_qualname (p4do_code_object offs)) (replicate 256 0)")
  have g1: "length b1 = 256" "r1 = Some s \<Longrightarrow> s \<noteq> [] \<and> utf8_valid s \<and> length s \<le> 256" for s
    using good [of "replicate 256 0" "code + p4co_qualname (p4do_code_object offs)"] a1
    by (auto simp: good_name_def)
  obtain r2 b2 where a2: "attempt (code + p4co_name (p4do_code_object offs)) b1 = (r2, b2)"
    by (cases "attempt (code + p4co_name (p4do_code_object offs)) b1")
  have g2: "r2 = Some s \<Longrightarrow> s \<noteq> [] \<and> utf8_valid s \<and> length s \<le> 256" for s
    using good [OF g1(1), of "code + p4co_name (p4do_code_object offs)"] a2 g1(1)
    by (auto simp: good_name_def)
  have eq: "resolve_function_name ?ops code offs = (case r1 of Some s \<Rightarrow> string_of_utf8 s
      | None \<Rightarrow> (case r2 of Some s \<Rightarrow> string_of_utf8 s | None \<Rightarrow> ''<unknown>''))"
    using a1 a2 by (simp add: resolve_function_name_def Let_def attempt_def split: option.split)
  have "''<unknown>'' = string_of_utf8 [60, 117, 110, 107, 110, 111, 119, 110, 62]"
    by code_simp
  moreover have "utf8_valid [60, 117, 110, 107, 110, 111, 119, 110, 62]"
    using utf8_valid_encode [of "[60, 117, 110, 107, 110, 111, 119, 110, 62]"]
    by (simp add: scalar_def utf8_encode_def byte_def)
  ultimately show ?thesis
    using eq g1(2) g2 by (cases r1; cases r2) (auto intro: exI [of _ "[60, 117, 110, 107, 110, 111, 119, 110, 62]"])
qed

section \<open>Strings without a cached encoding\<close>

text \<open>A compact string of kind \<open>k\<close> (1, 2 or 4 bytes per character) in memory, not ASCII and
  without cached UTF-8.\<close>

definition kind_bytes :: "nat \<Rightarrow> nat list \<Rightarrow> u8 list" where
  "kind_bytes k cps = concat (map (nat_bytes k) cps)"

definition ucs_object ::
    "memory \<Rightarrow> py314_unicode_object \<Rightarrow> bool \<Rightarrow> u64 \<Rightarrow> nat \<Rightarrow> nat list \<Rightarrow> bool" where
  "ucs_object m uo ft obj k cps \<longleftrightarrow> obj \<noteq> 0 \<and> k \<in> {1, 2, 4} \<and> cps \<noteq> [] \<and> length cps < 2 ^ 62
     \<and> (\<forall>c \<in> set cps. c < 256 ^ k)
     \<and> (\<exists>w. read_u64 m (obj + p4uo_state uo) = Ok w \<and> pyunicode_flags ft (ucast w) = (False, word_of_nat k))
     \<and> read_u64 m (obj + p4uo_asciiobject_size uo + 8) = Ok 0
     \<and> read_u64 m (obj + p4uo_length uo) = Ok (word_of_nat (length cps))
     \<and> fault_addr m (obj + p4uo_asciiobject_size uo + 16) (k * length cps) = None
     \<and> mem_bytes m (obj + p4uo_asciiobject_size uo + 16) (k * length cps) = kind_bytes k cps"

lemma fault_addr_mono: "fault_addr m a n = None \<Longrightarrow> i \<le> n \<Longrightarrow> fault_addr m a i = None"
proof (induction n arbitrary: a i)
  case 0
  then show ?case by simp
next
  case (Suc n)
  then show ?case by (cases i) (auto simp: fault_addr_Suc split: if_splits)
qed

lemma mem_bytes_take: "i \<le> n \<Longrightarrow> mem_bytes m a i = take i (mem_bytes m a n)"
proof (induction n arbitrary: a i)
  case 0
  then show ?case by simp
next
  case (Suc n)
  show ?case
  proof (cases i)
    case (Suc j)
    with Suc.prems Suc.IH [of j "a + 1"] show ?thesis by (simp add: mem_bytes_Suc)
  qed simp
qed

lemma length_kind_bytes [simp]: "length (kind_bytes k cps) = k * length cps"
  by (induction cps) (simp_all add: kind_bytes_def)

lemma kind_bytes_take: "take (k * i) (kind_bytes k cps) = kind_bytes k (take i cps)"
proof (induction cps arbitrary: i)
  case Nil
  then show ?case by (simp add: kind_bytes_def)
next
  case (Cons c cps)
  then show ?case by (cases i) (simp_all add: kind_bytes_def)
qed

lemma kind_bytes_nth:
  assumes "i < length cps"
  shows "take k (drop (k * i) (kind_bytes k cps)) = nat_bytes k (cps ! i)"
  using assms
proof (induction cps arbitrary: i)
  case Nil
  then show ?case by simp
next
  case (Cons c cps)
  then show ?case by (cases i) (simp_all add: kind_bytes_def)
qed

lemma take_drop_nths:
  "i + 2 \<le> length xs \<Longrightarrow> take 2 (drop i xs) = [xs ! i, xs ! (i + 1)]"
  "i + 4 \<le> length xs \<Longrightarrow> take 4 (drop i xs) = [xs ! i, xs ! (i + 1), xs ! (i + 2), xs ! (i + 3)]"
proof -
  have d: "drop j xs = xs ! j # drop (j + 1) xs" if "j < length xs" for j
    using Cons_nth_drop_Suc [OF that] by simp
  show "take 2 (drop i xs) = [xs ! i, xs ! (i + 1)]" if "i + 2 \<le> length xs"
    using that d [of i] d [of "i + 1"] by simp
  show "take 4 (drop i xs) = [xs ! i, xs ! (i + 1), xs ! (i + 2), xs ! (i + 3)]" if "i + 4 \<le> length xs"
    using that d [of i] d [of "i + 1"] d [of "i + 2"] d [of "i + 3"] by (simp add: eval_nat_numeral)
qed

lemma kind_values:
  assumes "\<forall>c \<in> set cps. c < 256 ^ k"
  shows "k = 1 \<Longrightarrow> map unat (kind_bytes k cps) = cps"
    "k = 2 \<Longrightarrow> map (u16_at (kind_bytes k cps)) [0..<length cps] = cps"
    "k = 4 \<Longrightarrow> map (u32_at (kind_bytes k cps)) [0..<length cps] = cps"
proof -
  show "map unat (kind_bytes k cps) = cps" if "k = 1"
    using assms that by (induction cps) (simp_all add: kind_bytes_def unat_u8_of_nat)
  have v: "bytes_nat (take k (drop (k * i) (kind_bytes k cps))) = cps ! i" if "i < length cps" for i
    using kind_bytes_nth [OF that, of k] that assms by (simp add: bytes_nat_of_nat)
  show "map (u16_at (kind_bytes k cps)) [0..<length cps] = cps" if "k = 2"
  proof (rule nth_equalityI)
    fix i assume "i < length (map (u16_at (kind_bytes k cps)) [0..<length cps])"
    then have i: "i < length cps" by simp
    then have "2 * i + 2 \<le> length (kind_bytes k cps)" using that by simp
    from take_drop_nths(1) [OF this] v [OF i] that i
    show "map (u16_at (kind_bytes k cps)) [0..<length cps] ! i = cps ! i"
      by (simp add: u16_at_def mult.commute)
  qed simp
  show "map (u32_at (kind_bytes k cps)) [0..<length cps] = cps" if "k = 4"
  proof (rule nth_equalityI)
    fix i assume "i < length (map (u32_at (kind_bytes k cps)) [0..<length cps])"
    then have i: "i < length cps" by simp
    then have "4 * i + 4 \<le> length (kind_bytes k cps)" using that by simp
    from take_drop_nths(2) [OF this] v [OF i] that i
    show "map (u32_at (kind_bytes k cps)) [0..<length cps] ! i = cps ! i"
      by (simp add: u32_at_def mult.commute)
  qed simp
qed

text \<open>At most 128 characters are read (64 of the widest kind), then as many as fit.\<close>

definition max_chars :: "nat \<Rightarrow> nat" where
  "max_chars k = (if k = 4 then 64 else 128)"

lemma read_pyunicode_ucs:
  assumes L: "layout_ok 6 7 L" and m: "signals_ok m" and obj: "ucs_object m uo ft obj k cps"
  shows "fst (read_pyunicode (x86_ops L g dst m) buf obj uo ft) =
    (let cs = fit_chars (length buf) (take (max_chars k) cps) in if cs = [] then None else Some (utf8_text cs))"
proof -
  let ?ops = "x86_ops L g dst m" and ?data = "obj + p4uo_asciiobject_size uo + 16"
  let ?n = "min (length cps) (max_chars k)"
  note rd = x86_ops_u64 [OF L m, of g dst]
  from obj obtain w where w: "read_u64 m (obj + p4uo_state uo) = Ok w"
    "pyunicode_flags ft (ucast w) = (False, word_of_nat k)" "obj \<noteq> 0" "k = 1 \<or> k = 2 \<or> k = 4" "cps \<noteq> []"
    "length cps < 2 ^ 62" "\<forall>c \<in> set cps. c < 256 ^ k"
    "read_u64 m (obj + p4uo_asciiobject_size uo + 8) = Ok 0"
    "read_u64 m (obj + p4uo_length uo) = Ok (word_of_nat (length cps))"
    and f: "fault_addr m ?data (k * length cps) = None"
    and b: "mem_bytes m ?data (k * length cps) = kind_bytes k cps"
    by (auto simp: ucs_object_def)
  have len: "unat (word_of_nat (length cps) :: u64) = length cps" using w(6) by (simp add: unat_of_nat)
  then have nz: "(word_of_nat (length cps) :: u64) \<noteq> 0" using w(5) by (metis length_0_conv unsigned_0)
  have kn: "k * ?n \<le> k * length cps" by simp
  have small: "k * ?n < 2 ^ 32" using w(4) by (auto simp: max_chars_def min_def)
  have raw: "ko_slice ?ops (replicate (k * ?n) 0) ?data = (Ok (), kind_bytes k (take ?n cps))"
    using x86_ops_slice [OF L, of "replicate (k * ?n) 0" m ?data g dst] fault_addr_mono [OF f kn] small
      mem_bytes_take [OF kn, of m ?data] b kind_bytes_take [of k ?n cps] by simp
  have vals: "\<forall>c \<in> set (take ?n cps). c < 256 ^ k" using w(7) by (meson in_set_takeD)
  have tk: "take ?n cps = take (max_chars k) cps" by (simp add: min_def)
  have l: "length (take ?n cps) = ?n" by simp
  have "fst (read_pyunicode ?ops buf obj uo ft) = fst (ucs_finish (ucs_loop 0 buf (take ?n cps)))"
    using w(4)
  proof (elim disjE)
    assume k: "k = 1"
    with raw kind_values(1) [OF vals k] w nz show ?thesis
      by (simp add: read_pyunicode_def rd Let_def read_ucs1_to_utf8_def len max_chars_def)
  next
    assume k: "k = 2"
    with raw kind_values(2) [OF vals k] w nz l show ?thesis
      by (simp add: read_pyunicode_def rd Let_def read_ucs2_to_utf8_def len max_chars_def mult.commute)
  next
    assume k: "k = 4"
    with raw kind_values(3) [OF vals k] w nz l show ?thesis
      by (simp add: read_pyunicode_def rd Let_def read_ucs4_to_utf8_def len max_chars_def mult.commute)
  qed
  then show ?thesis by (simp only: tk ucs_finish_text)
qed

section \<open>Names\<close>

text \<open>An ASCII string ends with a zero byte; all of the reader's buffer must be readable.\<close>

definition ascii_object :: "memory \<Rightarrow> py314_unicode_object \<Rightarrow> bool \<Rightarrow> u64 \<Rightarrow> u8 list \<Rightarrow> bool" where
  "ascii_object m uo ft obj bs \<longleftrightarrow> obj \<noteq> 0
     \<and> (\<exists>w. read_u64 m (obj + p4uo_state uo) = Ok w \<and> fst (pyunicode_flags ft (ucast w)))
     \<and> obj + p4uo_asciiobject_size uo \<noteq> 0
     \<and> fault_addr m (obj + p4uo_asciiobject_size uo) 256 = None
     \<and> (\<exists>rest. mem_bytes m (obj + p4uo_asciiobject_size uo) 256 = bs @ 0 # rest)
     \<and> 0 \<notin> set bs \<and> bs \<noteq> [] \<and> (\<forall>b \<in> set bs. b < 128)"

lemma ascii_valid: "\<forall>b \<in> set bs. b < (128 :: u8) \<Longrightarrow> utf8_valid bs"
proof -
  assume a: "\<forall>b \<in> set bs. b < (128 :: u8)"
  have "utf8_encode (unat b) = [b]" if "b \<in> set bs" for b
    using a that by (simp add: utf8_encode_def word_less_nat_alt)
  then have "concat (map utf8_encode (map unat bs)) = bs"
    by (induction bs) simp_all
  moreover have "list_all scalar (map unat bs)"
    using a by (auto simp: list_all_iff scalar_def word_less_nat_alt)
  ultimately show ?thesis using utf8_valid_encode by metis
qed

lemma read_pyunicode_ascii:
  assumes L: "layout_ok 6 7 L" and m: "signals_ok m" and obj: "ascii_object m uo ft obj bs" and "length buf = 256"
  shows "fst (read_pyunicode (x86_ops L g dst m) buf obj uo ft) = Some bs"
proof -
  from obj obtain w rest where w: "read_u64 m (obj + p4uo_state uo) = Ok w" "fst (pyunicode_flags ft (ucast w))"
    "mem_bytes m (obj + p4uo_asciiobject_size uo) 256 = bs @ 0 # rest"
    by (auto simp: ascii_object_def)
  have "length buf < 2 ^ 32" using assms(4) by simp
  from x86.str_found [OF L this, of "obj + p4uo_asciiobject_size uo" m bs rest g dst utf8_valid] obj w(3) assms(4)
  have "ko_str (x86_ops L g dst m) buf (obj + p4uo_asciiobject_size uo) = (Ok bs, bs @ 0 # rest)"
    using ascii_valid [of bs] by (simp add: ascii_object_def x86_ops_def)
  with obj w(1,2) x86_ops_u64 [OF L m] show ?thesis
    by (auto simp: read_pyunicode_def ascii_object_def nonempty_str_def Let_def split: prod.split)
qed

text \<open>The text of a name, as the reader may give it.\<close>

definition name_text :: "memory \<Rightarrow> py314_debug_offsets \<Rightarrow> u64 \<Rightarrow> u8 list \<Rightarrow> bool" where
  "name_text m offs obj bs \<longleftrightarrow> bs \<noteq> [] \<and>
     (ascii_object m (p4do_unicode_object offs) (p4do_free_threaded offs \<noteq> 0) obj bs
      \<or> (\<exists>k cps. ucs_object m (p4do_unicode_object offs) (p4do_free_threaded offs \<noteq> 0) obj k cps
            \<and> bs = utf8_text (fit_chars 256 (take (max_chars k) cps))))"

text \<open>C23: the name of a function is the qualified name of its code object: the whole text of an
  ASCII string, and of a wider string the characters that fit into the reader's limits, in UTF-8.\<close>
theorem resolve_qualified_name:
  assumes "layout_ok 6 7 L" and "signals_ok m"
    and "read_u64 m (code + p4co_qualname (p4do_code_object offs)) = Ok obj" and "name_text m offs obj bs"
  shows "resolve_function_name (x86_ops L g dst m) code offs = string_of_utf8 bs"
proof -
  have "fst (read_pyunicode (x86_ops L g dst m) (replicate 256 0) obj (p4do_unicode_object offs)
      (p4do_free_threaded offs \<noteq> 0)) = Some bs"
    using assms(4) unfolding name_text_def
  proof (elim conjE disjE exE)
    fix k cps
    assume "bs \<noteq> []" "bs = utf8_text (fit_chars 256 (take (max_chars k) cps))"
      and u: "ucs_object m (p4do_unicode_object offs) (p4do_free_threaded offs \<noteq> 0) obj k cps"
    with read_pyunicode_ucs [OF assms(1,2) u, of g dst "replicate 256 0"] show ?thesis
      by (auto simp: Let_def utf8_text_def)
  qed (simp add: read_pyunicode_ascii [OF assms(1,2)])
  then obtain buf where "read_pyunicode (x86_ops L g dst m) (replicate 256 0) obj (p4do_unicode_object offs)
      (p4do_free_threaded offs \<noteq> 0) = (Some bs, buf)"
    by (metis prod.collapse)
  with assms(3) x86_ops_u64 [OF assms(1,2)] show ?thesis
    by (simp add: resolve_function_name_def Let_def)
qed

text \<open>A memory with a code object at \<open>0x800\<close> whose qualified name is a string of two characters,
  two bytes each.\<close>

definition ex_name_cells :: "(u64 \<times> u8) list" where
  "ex_name_cells =
     [(0x810, 0x0), (0x811, 0x10), (0x812, 0x0), (0x813, 0x0), (0x814, 0x0), (0x815, 0x0), (0x816, 0x0), (0x817, 0x0),
      (0x1008, 0x2), (0x1009, 0x0), (0x100a, 0x0), (0x100b, 0x0), (0x100c, 0x0), (0x100d, 0x0), (0x100e, 0x0), (0x100f, 0x0),
      (0x1010, 0x8), (0x1011, 0x0), (0x1012, 0x0), (0x1013, 0x0), (0x1014, 0x0), (0x1015, 0x0), (0x1016, 0x0), (0x1017, 0x0),
      (0x1020, 0x0), (0x1021, 0x0), (0x1022, 0x0), (0x1023, 0x0), (0x1024, 0x0), (0x1025, 0x0), (0x1026, 0x0), (0x1027, 0x0),
      (0x1028, 0xe9), (0x1029, 0x0), (0x102a, 0x2d), (0x102b, 0x4e)]"

definition ex_name_memory :: memory where
  "ex_name_memory = \<lparr>mem_byte = map_of ex_name_cells, mem_signal = (\<lambda>a. 11)\<rparr>"

lemma ex_name_reads:
  "read_u64 ex_name_memory 0x810 = Ok 0x1000" "read_u64 ex_name_memory 0x1008 = Ok 2"
  "read_u64 ex_name_memory 0x1010 = Ok 8" "read_u64 ex_name_memory 0x1020 = Ok 0"
  "fault_addr ex_name_memory 0x1028 4 = None" "mem_bytes ex_name_memory 0x1028 4 = [0xe9, 0, 0x2d, 0x4e]"
  by (simp_all add: read_u64_def fault_addr_def mem_bytes_def addrs_8 addrs_4 ex_name_memory_def ex_name_cells_def
      bytes_u64_def)

lemma ex_offsets_ft: "(p4do_free_threaded ex_offsets \<noteq> 0) = False"
  by (simp add: ex_offsets_def)

lemma ex_name_object: "ucs_object ex_name_memory (p4do_unicode_object ex_offsets) False 0x1000 2 [0xe9, 0x4e2d]"
proof -
  have "kind_bytes (Suc (Suc 0)) [0xe9, 0x4e2d] = [0xe9, 0, 0x2d, 0x4e]" by (simp add: kind_bytes_def)
  then have "kind_bytes 2 [0xe9, 0x4e2d] = [0xe9, 0, 0x2d, 0x4e]" by (simp only: numeral_2_eq_2)
  with ex_name_reads show ?thesis by (simp add: ucs_object_def ex_offsets_def pyunicode_flags_def)
qed

lemma resolve_qualified_name_witness:
  "resolve_function_name (x86_ops ex_layout (\<lambda>_. 0) 0 ex_name_memory) 0x800 ex_offsets
     = string_of_utf8 [0xc3, 0xa9, 0xe4, 0xb8, 0xad]"
proof (rule resolve_qualified_name [OF ex_layout_ok(1)])
  have utf: "utf8_text (fit_chars 256 (take (max_chars 2) [0xe9, 0x4e2d])) = [0xc3, 0xa9, 0xe4, 0xb8, 0xad]"
    by (simp add: max_chars_def scalar_def len_utf8_def utf8_text_def utf8_encode_def byte_def cont_byte_def)
  show "name_text ex_name_memory ex_offsets 0x1000 [0xc3, 0xa9, 0xe4, 0xb8, 0xad]"
    unfolding name_text_def ex_offsets_ft using ex_name_object utf [symmetric] by blast
qed (use ex_name_reads in \<open>simp_all add: signals_ok_def ex_name_memory_def ex_offsets_def\<close>)

text \<open>C39: on any memory \<open>resolve_function_name\<close> gives a name: non-empty valid UTF-8 of at most 256
  bytes.\<close>
theorem resolve_total:
  assumes "layout_ok 6 7 L"
  shows "\<exists>bs. resolve_function_name (x86_ops L g dst m) code offs = string_of_utf8 bs \<and> bs \<noteq> []
    \<and> utf8_valid bs \<and> length bs \<le> 256"
  using resolve_function_name_good [OF assms] .

lemma resolve_total_witness:
  "\<exists>bs. resolve_function_name (x86_ops ex_layout (\<lambda>_. 0) 0 ex_name_memory) 0x900 ex_offsets = string_of_utf8 bs
    \<and> utf8_valid bs"
  using resolve_total [OF ex_layout_ok(1), of "\<lambda>_. 0" 0 ex_name_memory "0x900" ex_offsets] by blast

end
