(* ===== verification/PprofEnc.thy ===== *)
theory PprofEnc
  imports Interning
begin

text \<open>
  The profiler's own pprof builder, \<open>kit/pprof_enc/src/lib.rs\<close>: the messages, the string
  table, and \<open>ProfileBuilder\<close> with its interning of functions and locations, its merging of
  equal stacks, \<open>encode\<close> and \<open>reset\<close>. The protobuf serialisation (prost's
  \<open>encode_to_vec\<close>) is a parameter.
\<close>

section \<open>Messages\<close>

record evalue_type =
  ev_type :: i64
  ev_unit :: i64

record esample =
  es_location_id :: "u64 list"
  es_value :: "i64 list"

record eline =
  el_function_id :: u64
  el_line :: i64

record elocation =
  eo_id :: u64
  eo_line :: "eline list"

record efunction =
  ef_id :: u64
  ef_name :: i64
  ef_filename :: i64
  ef_start_line :: i64

record eprofile =
  ep_sample_type :: "evalue_type list"
  ep_sample :: "esample list"
  ep_location :: "elocation list"
  ep_function :: "efunction list"
  ep_string_table :: "string list"
  ep_time_nanos :: i64
  ep_duration_nanos :: i64
  ep_period_type :: "evalue_type option"
  ep_period :: i64

section \<open>The string table\<close>

record string_table =
  sx_strings :: "string list"
  sx_index :: "(string, i64) hmap"

definition sx_intern :: "string_table \<Rightarrow> string \<Rightarrow> i64 \<times> string_table" where
  "sx_intern t s =
     (case hm_get (sx_index t) s of
        Some idx \<Rightarrow> (idx, t)
      | None \<Rightarrow>
          let idx = word_of_nat (length (sx_strings t))
          in (idx, t\<lparr>sx_strings := sx_strings t @ [s], sx_index := hm_insert (sx_index t) s idx\<rparr>))"

definition sx_new :: string_table where
  "sx_new = snd (sx_intern \<lparr>sx_strings = [], sx_index = []\<rparr> [])"

section \<open>The profile builder\<close>

datatype eframe = EFrame (function_name: string) (ef_file: string) (first_line: i64)

record profile_builder =
  pv_st :: string_table
  pv_functions :: "efunction list"
  pv_func_index :: "(i64 \<times> i64 \<times> i64, u64) hmap"
  pv_locations :: "elocation list"
  pv_loc_index :: "(u64, u64) hmap"
  pv_samples :: "esample list"
  pv_sample_index :: "(u64 list, nat) hmap"
  pv_time_nanos :: i64
  pv_duration_nanos :: i64
  pv_period :: i64

definition pv_new :: "i64 \<Rightarrow> i64 \<Rightarrow> i64 \<Rightarrow> profile_builder" where
  "pv_new time_nanos duration_nanos period =
     \<lparr>pv_st = sx_new, pv_functions = [], pv_func_index = [], pv_locations = [], pv_loc_index = [],
      pv_samples = [], pv_sample_index = [], pv_time_nanos = time_nanos,
      pv_duration_nanos = duration_nanos, pv_period = period\<rparr>"

definition pv_reset :: "profile_builder \<Rightarrow> i64 \<Rightarrow> i64 \<Rightarrow> profile_builder" where
  "pv_reset b time_nanos duration_nanos =
     b\<lparr>pv_st := sx_new, pv_functions := [], pv_func_index := [], pv_locations := [], pv_loc_index := [],
       pv_samples := [], pv_sample_index := [], pv_time_nanos := time_nanos,
       pv_duration_nanos := duration_nanos\<rparr>"

definition pv_len :: "profile_builder \<Rightarrow> nat" where
  "pv_len b = length (pv_samples b)"

definition pv_is_empty :: "profile_builder \<Rightarrow> bool" where
  "pv_is_empty b \<longleftrightarrow> pv_samples b = []"

text \<open>The second half of \<open>intern_function\<close>: the lookup of a key in the table of functions.\<close>

definition pv_func_entry :: "profile_builder \<Rightarrow> i64 \<times> i64 \<times> i64 \<Rightarrow> u64 \<times> profile_builder" where
  "pv_func_entry b key =
     (case hm_get (pv_func_index b) key of
        Some i \<Rightarrow> (i, b)
      | None \<Rightarrow>
          let i = word_of_nat (length (pv_functions b) + 1);
              f = \<lparr>ef_id = i, ef_name = fst key, ef_filename = fst (snd key),
                   ef_start_line = snd (snd key)\<rparr>
          in (i, b\<lparr>pv_functions := pv_functions b @ [f],
                   pv_func_index := hm_insert (pv_func_index b) key i\<rparr>))"

definition pv_intern_function :: "profile_builder \<Rightarrow> eframe \<Rightarrow> u64 \<times> profile_builder" where
  "pv_intern_function b frame =
     (let (name_idx, st1) = sx_intern (pv_st b) (function_name frame);
          (filename_idx, st2) = sx_intern st1 (ef_file frame)
      in pv_func_entry (b\<lparr>pv_st := st2\<rparr>) (name_idx, filename_idx, first_line frame))"

definition pv_intern_location :: "i64 \<Rightarrow> profile_builder \<Rightarrow> u64 \<Rightarrow> u64 \<times> profile_builder" where
  "pv_intern_location line b func_id =
     (case hm_get (pv_loc_index b) func_id of
        Some i \<Rightarrow> (i, b)
      | None \<Rightarrow>
          let i = word_of_nat (length (pv_locations b) + 1);
              l = \<lparr>eo_id = i, eo_line = [\<lparr>el_function_id = func_id, el_line = line\<rparr>]\<rparr>
          in (i, b\<lparr>pv_locations := pv_locations b @ [l],
                   pv_loc_index := hm_insert (pv_loc_index b) func_id i\<rparr>))"

text \<open>\<open>for frame in frames\<close>\<close>

fun pv_locate :: "profile_builder \<Rightarrow> eframe list \<Rightarrow> u64 list \<times> profile_builder" where
  "pv_locate b [] = ([], b)"
| "pv_locate b (frame # frames) =
     (let (func_id, b1) = pv_intern_function b frame;
          (loc_id, b2) = pv_intern_location (first_line frame) b1 func_id;
          (ids, b3) = pv_locate b2 frames
      in (loc_id # ids, b3))"

text \<open>\<open>self.samples[idx].value[0] += value\<close> panics on an index out of range. The indices come
  from \<open>Vec::len\<close>, which does not exceed \<open>isize::MAX\<close>, and are naturals.\<close>

definition pv_bump_value :: "esample list \<Rightarrow> nat \<Rightarrow> i64 \<Rightarrow> (esample list, unit) res" where
  "pv_bump_value samples idx v =
     (if idx < length samples
      then (case es_value (samples ! idx) of
              [] \<Rightarrow> Panic
            | x # xs \<Rightarrow> Ok (samples[idx := (samples ! idx)\<lparr>es_value := (x + v) # xs\<rparr>]))
      else Panic)"

definition pv_add_sample ::
    "profile_builder \<Rightarrow> eframe list \<Rightarrow> i64 \<Rightarrow> (profile_builder, unit) res" where
  "pv_add_sample b frames cnt =
     (let (location_ids, b1) = pv_locate b frames;
          v = cnt * pv_period b1
      in case hm_get (pv_sample_index b1) location_ids of
           Some idx \<Rightarrow> bind_res (pv_bump_value (pv_samples b1) idx v) (\<lambda>ss. Ok (b1\<lparr>pv_samples := ss\<rparr>))
         | None \<Rightarrow>
             let idx = length (pv_samples b1)
             in Ok (b1\<lparr>pv_samples := pv_samples b1 @ [\<lparr>es_location_id = location_ids, es_value = [v]\<rparr>],
                       pv_sample_index := hm_insert (pv_sample_index b1) location_ids idx\<rparr>))"

definition pv_encode :: "(eprofile \<Rightarrow> u8 list) \<Rightarrow> profile_builder \<Rightarrow> u8 list \<times> profile_builder" where
  "pv_encode encode_to_vec b =
     (let (cpu_type_idx, st1) = sx_intern (pv_st b) ''cpu'';
          (nanos_idx, st2) = sx_intern st1 ''nanoseconds'';
          vt = \<lparr>ev_type = cpu_type_idx, ev_unit = nanos_idx\<rparr>;
          p = \<lparr>ep_sample_type = [vt], ep_sample = pv_samples b, ep_location = pv_locations b,
               ep_function = pv_functions b, ep_string_table = sx_strings st2,
               ep_time_nanos = pv_time_nanos b, ep_duration_nanos = pv_duration_nanos b,
               ep_period_type = Some vt, ep_period = pv_period b\<rparr>
      in (encode_to_vec p,
          b\<lparr>pv_samples := [], pv_locations := [], pv_functions := [], pv_st := st2\<lparr>sx_strings := []\<rparr>\<rparr>))"

text \<open>A window of the profiler: the calls to \<open>add_sample\<close> between two encodings.\<close>

fun pv_add_samples :: "profile_builder \<Rightarrow> (eframe list \<times> i64) list \<Rightarrow> (profile_builder, unit) res" where
  "pv_add_samples b [] = Ok b"
| "pv_add_samples b ((frames, cnt) # ps) =
     bind_res (pv_add_sample b frames cnt) (\<lambda>b'. pv_add_samples b' ps)"

end
