(* ===== verification/PySignalProf.thy ===== *)
theory PySignalProf
  imports SigRing PySymbols PprofEnc
begin

text \<open>
  The profiler of \<open>kit/pysignalprof/src/lib.rs\<close> at run time: the SIGPROF handler, which
  unwinds the interrupted thread into a ring buffer, and the reader thread, which drains the
  buffers, names the functions and builds profiles.
\<close>

section \<open>State\<close>

text \<open>A shard is behind a spin lock; its queue is bbqueue's, first in, first out, a list of
  committed records. The consumer's end of the queue is read by the reader thread only.\<close>

record shard =
  sh_locked :: bool
  sh_frame_buffer :: "raw_frame list"
  sh_queue :: "u8 list list"

record handler_state =
  hs_debug_offsets :: py314_debug_offsets
  hs_type_addrs :: type_addrs
  hs_asyncio_offsets :: "py314_asyncio_offsets option"
  hs_shards :: "shard list"
  hs_eventfd :: nat
  hs_samples_since_notify :: u32
  hs_num_shards :: usize
  hs_notify_interval :: u32
  hs_app_name :: string
  hs_server_url :: "string option"
  hs_tags :: "(string \<times> string) list"

text \<open>bbqueue's answer to a request for a number of bytes, given what is in the queue.\<close>

type_synonym bbqueue_grant = "u8 list list \<Rightarrow> nat \<Rightarrow> u8 list option"

text \<open>One delivery of the signal: what \<open>_PyThreadState_GetCurrent\<close> returns, the thread id, and
  the memory.\<close>

record signal_env =
  se_tstate :: u64
  se_tid :: u32
  se_rd :: reader

section \<open>The signal handler\<close>

text \<open>\<open>for attempt in 0..3\<close>: the first shard that is free.\<close>

fun try_shards :: "shard list \<Rightarrow> usize \<Rightarrow> usize \<Rightarrow> usize list \<Rightarrow> (nat option, unit) res" where
  "try_shards shards num_shards base [] = Ok None"
| "try_shards shards num_shards base (attempt # as) =
     (let idx = unat ((base + attempt) mod num_shards) in
      bind_res (index_of shards idx) (\<lambda>s.
      if sh_locked s then try_shards shards num_shards base as else Ok (Some idx)))"

text \<open>The handler from the unwinding on, with shard \<open>idx\<close> locked; the lock is released when the
  guard goes out of scope. The result of \<open>sig_ring::write\<close> is ignored.\<close>

definition sample_shard ::
    "bbqueue_grant \<Rightarrow> signal_env \<Rightarrow> nat \<Rightarrow> handler_state \<Rightarrow> (handler_state, unit) res option" where
  "sample_shard grant e idx st =
     (let sh = hs_shards st ! idx in
      case unwind (se_rd e) (se_tstate e) (hs_debug_offsets st) (hs_type_addrs st) (sh_frame_buffer sh) of
        None \<Rightarrow> None
      | Some (depth, buf, _) \<Rightarrow>
          let sh1 = sh\<lparr>sh_frame_buffer := buf\<rparr> in
          if depth = 0 then Some (Ok (st\<lparr>hs_shards := (hs_shards st)[idx := sh1]\<rparr>))
          else
            Some (bind_res (sr_write (grant (sh_queue sh1)) (se_tid e) buf depth) (\<lambda>written.
              let sh2 = (case written of None \<Rightarrow> sh1 | Some r \<Rightarrow> sh1\<lparr>sh_queue := sh_queue sh1 @ [r]\<rparr>);
                  total = hs_samples_since_notify st;
                  st1 = st\<lparr>hs_shards := (hs_shards st)[idx := sh2], hs_samples_since_notify := total + 1\<rparr>
              in if hs_notify_interval st = 0 then Panic
                 else if total mod hs_notify_interval st = 0
                 then Ok (st1\<lparr>hs_eventfd := hs_eventfd st1 + 1\<rparr>)
                 else Ok st1)))"

definition on_sigprof ::
    "bbqueue_grant \<Rightarrow> signal_env \<Rightarrow> handler_state option \<Rightarrow> (handler_state option, unit) res option" where
  "on_sigprof grant e state =
     (case state of
        None \<Rightarrow> Some (Ok None)
      | Some st \<Rightarrow>
          if se_tstate e = 0 then Some (Ok (Some st))
          else if hs_num_shards st = 0 then Some Panic
          else
            (let base = ucast (se_tid e) mod hs_num_shards st in
             case try_shards (hs_shards st) (hs_num_shards st) base [0, 1, 2] of
               Ok None \<Rightarrow> Some (Ok (Some st))
             | Ok (Some idx) \<Rightarrow> map_option (\<lambda>r. bind_res r (\<lambda>s. Ok (Some s))) (sample_shard grant e idx st)
             | Err x \<Rightarrow> Some (Err x)
             | Panic \<Rightarrow> Some Panic))"

section \<open>The reader thread\<close>

type_synonym symbol_cache = "(u64, string) hmap"

text \<open>\<open>for i in 0..depth\<close>, twice: the names of all frames go into the cache, then the frames are
  built from it. \<open>name_of\<close> is \<open>resolve_function_name\<close> on the memory at that time.\<close>

fun cache_names :: "(u64 \<Rightarrow> string) \<Rightarrow> record_view \<Rightarrow> symbol_cache \<Rightarrow> nat list \<Rightarrow> (symbol_cache, unit) res" where
  "cache_names name_of v cache [] = Ok cache"
| "cache_names name_of v cache (i # is) =
     bind_res (rv_frame v i) (\<lambda>raw.
     let c = rf_code_object raw;
         cache' = (case hm_get cache c of Some _ \<Rightarrow> cache | None \<Rightarrow> hm_insert cache c (name_of c))
     in cache_names name_of v cache' is)"

fun cached_frames :: "record_view \<Rightarrow> symbol_cache \<Rightarrow> nat list \<Rightarrow> (eframe list, unit) res" where
  "cached_frames v cache [] = Ok []"
| "cached_frames v cache (i # is) =
     bind_res (rv_frame v i) (\<lambda>raw.
     case hm_get cache (rf_code_object raw) of
       None \<Rightarrow> Panic
     | Some name \<Rightarrow> bind_res (cached_frames v cache is) (\<lambda>fs. Ok (EFrame name [] 0 # fs)))"

definition read_record ::
    "(u64 \<Rightarrow> string) \<Rightarrow> symbol_cache \<times> profile_builder \<Rightarrow> u8 list \<Rightarrow> (symbol_cache \<times> profile_builder, unit) res" where
  "read_record name_of = (\<lambda>(cache, builder) grant.
     case parse_record grant of
       None \<Rightarrow> Ok (cache, builder)
     | Some v \<Rightarrow>
         let depth = unat (rv_depth v) in
         bind_res (cache_names name_of v cache [0..<depth]) (\<lambda>cache'.
         bind_res (cached_frames v cache' [0..<depth]) (\<lambda>frames.
         bind_res (pv_add_sample builder frames 1) (\<lambda>builder'.
         Ok (cache', builder')))))"

text \<open>\<open>while let Some(grant) = consumer.read()\<close>: every record, released after it was read.\<close>

fun drain_queue ::
    "(u64 \<Rightarrow> string) \<Rightarrow> symbol_cache \<times> profile_builder \<Rightarrow> u8 list list
     \<Rightarrow> (symbol_cache \<times> profile_builder, unit) res" where
  "drain_queue name_of cb [] = Ok cb"
| "drain_queue name_of cb (r # rs) = bind_res (read_record name_of cb r) (\<lambda>cb'. drain_queue name_of cb' rs)"

text \<open>\<open>for shard_idx in 0..num_shards\<close>. The reader waits for the lock of a shard; waiting is
  \<open>None\<close>.\<close>

fun drain_shards ::
    "(u64 \<Rightarrow> string) \<Rightarrow> symbol_cache \<times> profile_builder \<Rightarrow> shard list \<Rightarrow> nat list
     \<Rightarrow> (shard list \<times> symbol_cache \<times> profile_builder, unit) res option" where
  "drain_shards name_of cb shards [] = Some (Ok (shards, cb))"
| "drain_shards name_of cb shards (idx # is) =
     (case index_of shards idx of
        Ok sh \<Rightarrow>
          (if sh_locked sh then None
           else (case drain_queue name_of cb (sh_queue sh) of
               Ok cb' \<Rightarrow> drain_shards name_of cb' (shards[idx := sh\<lparr>sh_queue := []\<rparr>]) is
             | Err x \<Rightarrow> Some (Err x)
             | Panic \<Rightarrow> Some Panic))
      | Err x \<Rightarrow> Some (Err x)
      | Panic \<Rightarrow> Some Panic)"

text \<open>Times are in nanoseconds. The clock readings of one turn of the loop: the monotonic clock
  before the flush and after it, and the system clock's time since the epoch (zero when it is
  before the epoch) at the request and at the reset.\<close>

record reader_times =
  rt_check :: nat
  rt_after :: nat
  rt_now_request :: nat
  rt_now_reset :: nat

definition FLUSH_INTERVAL :: nat where "FLUSH_INTERVAL = 15 * 1000000000"
definition PERIOD :: i64 where "PERIOD = 10000000"

datatype ingest_request =
  IngestRequest (iq_url: string) (iq_app: string) (iq_tags: "(string \<times> string) list")
    (iq_pprof: "u8 list") (iq_from: nat) (iq_until: nat)

text \<open>\<open>flush_pprof\<close>: the requests sent (none or one), and the builder for the next window. What
  becomes of the request is only logged.\<close>

definition flush_pprof ::
    "(eprofile \<Rightarrow> u8 list) \<Rightarrow> handler_state \<Rightarrow> reader_times \<Rightarrow> profile_builder
     \<Rightarrow> ingest_request list \<times> profile_builder" where
  "flush_pprof encode_to_vec st ts builder =
     (if pv_is_empty builder then ([], builder)
      else
        let (pprof, b1) = pv_encode encode_to_vec builder;
            requests = (case hs_server_url st of
              None \<Rightarrow> []
            | Some url \<Rightarrow>
                let now_secs = rt_now_request ts div 1000000000;
                    from_secs = now_secs - 15
                in [IngestRequest url (hs_app_name st) (hs_tags st) pprof from_secs now_secs])
        in (requests, pv_reset b1 (word_of_nat (rt_now_reset ts)) 15000000000))"

record reader_state =
  re_builder :: profile_builder
  re_cache :: symbol_cache
  re_last_flush :: nat

definition reader_init :: "nat \<Rightarrow> reader_state" where
  "reader_init now = \<lparr>re_builder = pv_new 0 (word_of_nat FLUSH_INTERVAL) PERIOD, re_cache = [],
     re_last_flush = now\<rparr>"

text \<open>The timeout of the wait: what is left of the interval, in milliseconds.\<close>

definition wait_timeout_ms :: "reader_state \<Rightarrow> nat \<Rightarrow> u32" where
  "wait_timeout_ms rs now = word_of_nat ((FLUSH_INTERVAL - (now - re_last_flush rs)) div 1000000)"

text \<open>A turn of the reader's loop after the wait.\<close>

definition reader_turn ::
    "(eprofile \<Rightarrow> u8 list) \<Rightarrow> (u64 \<Rightarrow> string) \<Rightarrow> reader_times \<Rightarrow> handler_state \<Rightarrow> reader_state
     \<Rightarrow> (ingest_request list \<times> handler_state \<times> reader_state, unit) res option" where
  "reader_turn encode_to_vec name_of ts st rs =
     map_option (\<lambda>r. bind_res r (\<lambda>(shards, cache, builder).
       let st1 = st\<lparr>hs_shards := shards\<rparr> in
       if FLUSH_INTERVAL \<le> rt_check ts - re_last_flush rs
       then (let (requests, b') = flush_pprof encode_to_vec st1 ts builder
             in Ok (requests, st1, \<lparr>re_builder = b', re_cache = [], re_last_flush = rt_after ts\<rparr>))
       else Ok ([], st1, \<lparr>re_builder = builder, re_cache = cache, re_last_flush = re_last_flush rs\<rparr>)))
     (drain_shards name_of (re_cache rs, re_builder rs) (hs_shards st) [0..<unat (hs_num_shards st)])"

end
