(* ===== verification/PprofEncCorrect.thy ===== *)
theory PprofEncCorrect
  imports PprofEnc
begin

text \<open>
  The builder against its abstract counterpart: a map from stacks (their names, files and
  lines) to the time spent in them. The builder's tables are interning tables, every sequence
  of \<open>add_sample\<close> returns, and the profile it encodes reads as the abstract map, entry for
  entry.
\<close>

section \<open>Invariant\<close>

abbreviation (input) epos :: "nat \<Rightarrow> u64" where
  "epos n \<equiv> word_of_nat (n + 1)"

definition fun_key :: "efunction \<Rightarrow> i64 \<times> i64 \<times> i64" where
  "fun_key f = (ef_name f, ef_filename f, ef_start_line f)"

definition loc_key :: "elocation \<Rightarrow> u64" where
  "loc_key l = el_function_id (hd (eo_line l))"

definition sx_inv :: "string_table \<Rightarrow> bool" where
  "sx_inv t \<longleftrightarrow> distinct (sx_strings t) \<and> sx_index t = indexed word_of_nat (sx_strings t)"

definition fun_inv :: "profile_builder \<Rightarrow> bool" where
  "fun_inv b \<longleftrightarrow> distinct (map fun_key (pv_functions b))
     \<and> pv_func_index b = indexed epos (map fun_key (pv_functions b))
     \<and> map ef_id (pv_functions b) = map epos [0..<length (pv_functions b)]"

definition loc_inv :: "profile_builder \<Rightarrow> bool" where
  "loc_inv b \<longleftrightarrow> distinct (map loc_key (pv_locations b))
     \<and> pv_loc_index b = indexed epos (map loc_key (pv_locations b))
     \<and> map eo_id (pv_locations b) = map epos [0..<length (pv_locations b)]
     \<and> (\<forall>l \<in> set (pv_locations b). length (eo_line l) = 1)"

interpretation sx_tab: interner "\<lambda>t s. Ok (sx_intern t s)" sx_strings word_of_nat sx_inv
proof (standard, goal_cases)
  case (1 s)
  then show ?case by (simp add: sx_inv_def)
next
  case (2 s n)
  then show ?case by (simp add: sx_inv_def sx_intern_def hm_get_indexed_hit)
next
  case (3 s k)
  then show ?case by (simp add: sx_inv_def sx_intern_def Let_def hm_get_indexed_miss hm_insert_indexed)
qed

interpretation func_tab: interner "\<lambda>b k. Ok (pv_func_entry b k)" "\<lambda>b. map fun_key (pv_functions b)" epos fun_inv
proof (standard, goal_cases)
  case (1 s)
  then show ?case by (simp add: fun_inv_def)
next
  case (2 s n)
  then have "hm_get (pv_func_index s) (map fun_key (pv_functions s) ! n) = Some (epos n)"
    by (simp only: fun_inv_def hm_get_indexed_hit)
  then show ?case by (simp add: pv_func_entry_def)
next
  case (3 s k)
  then show ?case
    using hm_insert_indexed [of k "map fun_key (pv_functions s)" epos]
    by (simp add: fun_inv_def pv_func_entry_def Let_def hm_get_indexed_miss)
      (simp add: fun_key_def)
qed

interpretation loc_tab: interner "\<lambda>b k. Ok (pv_intern_location line b k)" "\<lambda>b. map loc_key (pv_locations b)"
  epos loc_inv for line
proof (standard, goal_cases)
  case (1 s)
  then show ?case by (simp add: loc_inv_def)
next
  case (2 s n)
  then have "hm_get (pv_loc_index s) (map loc_key (pv_locations s) ! n) = Some (epos n)"
    by (simp only: loc_inv_def hm_get_indexed_hit)
  then show ?case by (simp add: pv_intern_location_def)
next
  case (3 s k)
  then show ?case
    using hm_insert_indexed [of k "map loc_key (pv_locations s)" epos]
    by (simp add: loc_inv_def pv_intern_location_def Let_def hm_get_indexed_miss)
      (simp add: loc_key_def)
qed

section \<open>Reading the profile\<close>

definition ep_string :: "eprofile \<Rightarrow> i64 \<Rightarrow> string option" where
  "ep_string q i = (if unat i < length (ep_string_table q) then Some (ep_string_table q ! unat i) else None)"

type_synonym frame_id = "string option \<times> string option \<times> i64"

text \<open>The name, the file and the line that a location id stands for.\<close>

definition ep_resolve :: "eprofile \<Rightarrow> u64 \<Rightarrow> frame_id option" where
  "ep_resolve q lid =
     (case find (\<lambda>l. eo_id l = lid) (ep_location q) of
        None \<Rightarrow> None
      | Some l \<Rightarrow> (case find (\<lambda>f. ef_id f = el_function_id (hd (eo_line l))) (ep_function q) of
            None \<Rightarrow> None
          | Some f \<Rightarrow> Some (ep_string q (ef_name f), ep_string q (ef_filename f), el_line (hd (eo_line l)))))"

definition eframe_view :: "eframe \<Rightarrow> frame_id" where
  "eframe_view f = (Some (function_name f), Some (ef_file f), first_line f)"

definition ep_view :: "eprofile \<Rightarrow> (frame_id option list, i64) hmap" where
  "ep_view q = map (\<lambda>s. (map (ep_resolve q) (es_location_id s), hd (es_value s))) (ep_sample q)"

definition lines_ok :: "elocation list \<Rightarrow> efunction list \<Rightarrow> bool" where
  "lines_ok ls fs \<longleftrightarrow> (\<forall>l \<in> set ls. \<exists>f \<in> set fs. ef_id f = loc_key l \<and> ef_start_line f = el_line (hd (eo_line l))
     \<and> length (eo_line l) = 1)"

definition ep_small :: "eprofile \<Rightarrow> bool" where
  "ep_small q \<longleftrightarrow> length (ep_string_table q) < 2 ^ 64 \<and> length (ep_function q) < 2 ^ 64
     \<and> length (ep_location q) < 2 ^ 64"

definition ep_good :: "eprofile \<Rightarrow> bool" where
  "ep_good q \<longleftrightarrow> ep_small q \<and> distinct (ep_string_table q)
     \<and> distinct (map fun_key (ep_function q)) \<and> map ef_id (ep_function q) = map epos [0..<length (ep_function q)]
     \<and> distinct (map loc_key (ep_location q)) \<and> map eo_id (ep_location q) = map epos [0..<length (ep_location q)]
     \<and> lines_ok (ep_location q) (ep_function q)
     \<and> (\<forall>f \<in> set (ep_function q). unat (ef_name f) < length (ep_string_table q)
          \<and> unat (ef_filename f) < length (ep_string_table q))"

lemma distinct_epos: "n \<le> 2 ^ 64 - 1 \<Longrightarrow> distinct (map epos [0..<n])"
  by (simp add: distinct_map inj_on_def word_of_nat_64_inject del: of_nat_Suc)

lemma find_distinct: "distinct (map key xs) \<Longrightarrow> x \<in> set xs \<Longrightarrow> find (\<lambda>y. key y = key x) xs = Some x"
  by (induction xs) (auto simp: image_iff)

lemma find_SomeD: "find P xs = Some x \<Longrightarrow> x \<in> set xs \<and> P x"
  by (induction xs) (auto split: if_splits)

lemma ep_good_distinct:
  assumes "ep_good q"
  shows "distinct (map ef_id (ep_function q))" "distinct (map eo_id (ep_location q))"
  using assms distinct_epos by (simp_all add: ep_good_def ep_small_def)

lemma ep_string_inj:
  assumes "ep_good q" and "ep_string q i = ep_string q j" and "unat i < length (ep_string_table q)"
    and "unat j < length (ep_string_table q)"
  shows "i = j"
  using assms by (auto simp: ep_string_def ep_good_def nth_eq_iff_index_eq word_unat_eq_iff)

lemma ep_resolve_SomeD:
  assumes "ep_good q" and "ep_resolve q a = Some v"
  obtains l f where "l \<in> set (ep_location q)" "eo_id l = a" "f \<in> set (ep_function q)" "ef_id f = loc_key l"
    "v = (ep_string q (ef_name f), ep_string q (ef_filename f), ef_start_line f)"
proof -
  from assms(2) obtain l f where l: "find (\<lambda>l. eo_id l = a) (ep_location q) = Some l"
    and f: "find (\<lambda>f. ef_id f = el_function_id (hd (eo_line l))) (ep_function q) = Some f"
    and v: "v = (ep_string q (ef_name f), ep_string q (ef_filename f), el_line (hd (eo_line l)))"
    by (auto simp: ep_resolve_def split: option.splits)
  note l' = find_SomeD [OF l] and f' = find_SomeD [OF f]
  from l' assms(1) obtain g where g: "g \<in> set (ep_function q)" "ef_id g = loc_key l"
    "ef_start_line g = el_line (hd (eo_line l))"
    by (auto simp: ep_good_def lines_ok_def)
  with f' distinct_mapD [OF ep_good_distinct(1) [OF assms(1)]] have "g = f"
    by (simp add: loc_key_def)
  with that l' f' v g show thesis by (auto simp: loc_key_def)
qed

text \<open>Two location ids that read the same are the same.\<close>

lemma ep_resolve_inj:
  assumes good: "ep_good q" and "ep_resolve q a = Some v" and "ep_resolve q b = Some v"
  shows "a = b"
proof -
  obtain l f where l: "l \<in> set (ep_location q)" "eo_id l = a" "f \<in> set (ep_function q)" "ef_id f = loc_key l"
    "v = (ep_string q (ef_name f), ep_string q (ef_filename f), ef_start_line f)"
    using ep_resolve_SomeD [OF assms(1,2)] .
  obtain m g where m: "m \<in> set (ep_location q)" "eo_id m = b" "g \<in> set (ep_function q)" "ef_id g = loc_key m"
    "v = (ep_string q (ef_name g), ep_string q (ef_filename g), ef_start_line g)"
    using ep_resolve_SomeD [OF assms(1,3)] .
  have "ef_name f = ef_name g" "ef_filename f = ef_filename g"
    using good l m by (auto intro!: ep_string_inj [OF good] simp: ep_good_def)
  with l m have "fun_key f = fun_key g" by (simp add: fun_key_def)
  with good l m have "f = g" unfolding ep_good_def by (blast dest: distinct_mapD)
  with l m have "loc_key l = loc_key m" by simp
  with good l m have "l = m" unfolding ep_good_def by (blast dest: distinct_mapD)
  with l m show ?thesis by simp
qed

lemma ep_resolve_list_inj:
  "ep_good q \<Longrightarrow> map (ep_resolve q) as = map (ep_resolve q) bs \<Longrightarrow> None \<notin> set (map (ep_resolve q) as) \<Longrightarrow> as = bs"
proof (induction as arbitrary: bs)
  case Nil
  then show ?case by simp
next
  case (Cons a as)
  then obtain b bs' where bs: "bs = b # bs'" by (cases bs) auto
  with Cons.prems obtain v where "ep_resolve q a = Some v" "ep_resolve q b = Some v"
    by (cases "ep_resolve q a") auto
  with Cons bs ep_resolve_inj show ?case by auto
qed

section \<open>The loops\<close>

definition pv_tables :: "profile_builder \<Rightarrow> eprofile" where
  "pv_tables b = \<lparr>ep_sample_type = [], ep_sample = pv_samples b, ep_location = pv_locations b,
     ep_function = pv_functions b, ep_string_table = sx_strings (pv_st b), ep_time_nanos = 0,
     ep_duration_nanos = 0, ep_period_type = None, ep_period = 0\<rparr>"

definition ep_ext :: "eprofile \<Rightarrow> eprofile \<Rightarrow> bool" where
  "ep_ext p q \<longleftrightarrow> prefix (ep_string_table p) (ep_string_table q)
     \<and> prefix (ep_function p) (ep_function q) \<and> prefix (ep_location p) (ep_location q)"

lemma pv_tables_simps [simp]:
  "ep_sample (pv_tables b) = pv_samples b" "ep_location (pv_tables b) = pv_locations b"
  "ep_function (pv_tables b) = pv_functions b" "ep_string_table (pv_tables b) = sx_strings (pv_st b)"
  by (simp_all add: pv_tables_def)

lemma ep_ext_refl [simp]: "ep_ext p p"
  by (simp add: ep_ext_def)

lemma ep_ext_trans: "ep_ext p q \<Longrightarrow> ep_ext q r \<Longrightarrow> ep_ext p r"
  unfolding ep_ext_def by (metis prefix_order.trans)

definition names_ok :: "efunction list \<Rightarrow> string list \<Rightarrow> bool" where
  "names_ok fs ss \<longleftrightarrow> (\<forall>f \<in> set fs. unat (ef_name f) < length ss \<and> unat (ef_filename f) < length ss)"

definition tab_inv :: "profile_builder \<Rightarrow> bool" where
  "tab_inv b \<longleftrightarrow> sx_inv (pv_st b) \<and> fun_inv b \<and> loc_inv b \<and> lines_ok (pv_locations b) (pv_functions b)
     \<and> names_ok (pv_functions b) (sx_strings (pv_st b))"

definition tab_grows :: "profile_builder \<Rightarrow> profile_builder \<Rightarrow> bool" where
  "tab_grows b b' \<longleftrightarrow> tab_inv b' \<and> ep_ext (pv_tables b) (pv_tables b') \<and> pv_samples b' = pv_samples b
     \<and> pv_sample_index b' = pv_sample_index b \<and> pv_time_nanos b' = pv_time_nanos b
     \<and> pv_duration_nanos b' = pv_duration_nanos b \<and> pv_period b' = pv_period b"

lemma tab_grows_trans: "tab_grows a b \<Longrightarrow> tab_grows b c \<Longrightarrow> tab_grows a c"
  unfolding tab_grows_def using ep_ext_trans [of "pv_tables a" "pv_tables b" "pv_tables c"] by simp

lemma ep_good_tables: "tab_inv b \<Longrightarrow> ep_small (pv_tables b) \<Longrightarrow> ep_good (pv_tables b)"
  by (simp add: tab_inv_def ep_good_def sx_inv_def fun_inv_def loc_inv_def names_ok_def)

lemma names_ok_prefix: "names_ok fs ss \<Longrightarrow> prefix ss ss' \<Longrightarrow> names_ok fs ss'"
  unfolding names_ok_def by (meson order_less_le_trans prefix_length_le)

lemma unat_word_of_nat_le: "unat (word_of_nat n :: u64) \<le> n"
  by (simp add: unat_of_nat)

lemma sx_intern_ok:
  assumes "sx_inv t"
  obtains i t' where "sx_intern t s = (i, t')" "sx_inv t'" "prefix (sx_strings t) (sx_strings t')"
    "unat i < length (sx_strings t')"
    "\<And>q. prefix (sx_strings t') (ep_string_table q) \<Longrightarrow> ep_small q \<Longrightarrow> ep_string q i = Some s"
proof -
  obtain i t' where e: "sx_intern t s = (i, t')" by (cases "sx_intern t s")
  then have ok: "(Ok (sx_intern t s) :: (i64 \<times> string_table, unit) res) = Ok (i, t')" by simp
  from sx_tab.intern_OkD [OF assms ok] obtain n where n: "i = word_of_nat n" "sx_inv t'"
    "n < length (sx_strings t')" "sx_strings t' ! n = s" "prefix (sx_strings t) (sx_strings t')" .
  have "ep_string q i = Some s" if "prefix (sx_strings t') (ep_string_table q)" "ep_small q" for q
    using that n by (auto simp: ep_string_def ep_small_def prefix_def nth_append unat_of_nat_small)
  moreover have "unat i < length (sx_strings t')"
    using unat_word_of_nat_le [of n] n by simp
  ultimately show thesis using that e n by blast
qed

lemma pv_func_entry_ok:
  assumes inv: "tab_inv b" and names: "unat (fst key) < length (sx_strings (pv_st b))"
    "unat (fst (snd key)) < length (sx_strings (pv_st b))"
  obtains i b' where "pv_func_entry b key = (i, b')" "tab_grows b b'"
    "\<exists>g \<in> set (pv_functions b'). ef_id g = i \<and> fun_key g = key"
proof -
  obtain i b' where e: "pv_func_entry b key = (i, b')" by (cases "pv_func_entry b key")
  then have ok: "(Ok (pv_func_entry b key) :: (u64 \<times> profile_builder, unit) res) = Ok (i, b')" by simp
  from inv have fi: "fun_inv b" by (simp add: tab_inv_def)
  from func_tab.intern_OkD [OF fi ok] obtain n where n: "i = epos n" "fun_inv b'"
    "n < length (map fun_key (pv_functions b'))" "map fun_key (pv_functions b') ! n = key" .
  from n(2,3) have "ef_id (pv_functions b' ! n) = epos n"
    unfolding fun_inv_def using nth_map [of n "pv_functions b'" ef_id] by simp
  with n have found: "\<exists>g \<in> set (pv_functions b'). ef_id g = i \<and> fun_key g = key"
    by (intro bexI [of _ "pv_functions b' ! n"]) simp_all
  have "loc_inv b'" "lines_ok (pv_locations b') (pv_functions b')"
    using e inv by (fastforce simp: pv_func_entry_def Let_def tab_inv_def loc_inv_def lines_ok_def
        split: option.splits)+
  moreover have "sx_inv (pv_st b')" "names_ok (pv_functions b') (sx_strings (pv_st b'))"
    using e inv names by (auto simp: pv_func_entry_def Let_def tab_inv_def names_ok_def split: option.splits)
  ultimately have "tab_grows b b'"
    using e n(2) by (auto simp: tab_grows_def tab_inv_def ep_ext_def pv_func_entry_def Let_def split: option.splits)
  with that e found show thesis by blast
qed

lemma pv_intern_function_ok:
  assumes inv: "tab_inv b"
  obtains i b' where "pv_intern_function b frame = (i, b')" "tab_grows b b'"
    "\<exists>g \<in> set (pv_functions b'). ef_id g = i \<and> ef_start_line g = first_line frame \<and>
       (\<forall>q. ep_ext (pv_tables b') q \<longrightarrow> ep_small q \<longrightarrow>
          (ep_string q (ef_name g), ep_string q (ef_filename g), ef_start_line g) = eframe_view frame)"
proof -
  from inv have "sx_inv (pv_st b)" by (simp add: tab_inv_def)
  then obtain i1 t1 where s1: "sx_intern (pv_st b) (function_name frame) = (i1, t1)" "sx_inv t1"
    "prefix (sx_strings (pv_st b)) (sx_strings t1)" "unat i1 < length (sx_strings t1)"
    "\<And>q. prefix (sx_strings t1) (ep_string_table q) \<Longrightarrow> ep_small q \<Longrightarrow> ep_string q i1 = Some (function_name frame)"
    using sx_intern_ok [where s = "function_name frame"] by metis
  obtain i2 t2 where s2: "sx_intern t1 (ef_file frame) = (i2, t2)" "sx_inv t2"
    "prefix (sx_strings t1) (sx_strings t2)" "unat i2 < length (sx_strings t2)"
    "\<And>q. prefix (sx_strings t2) (ep_string_table q) \<Longrightarrow> ep_small q \<Longrightarrow> ep_string q i2 = Some (ef_file frame)"
    using sx_intern_ok [OF s1(2), where s = "ef_file frame"] by metis
  let ?b = "b\<lparr>pv_st := t2\<rparr>" and ?key = "(i1, i2, first_line frame)"
  have p: "prefix (sx_strings (pv_st b)) (sx_strings t2)"
    using s1(3) s2(3) by (rule prefix_order.trans)
  have binv: "tab_inv ?b"
    using inv s2(2) names_ok_prefix [OF _ p] by (simp add: tab_inv_def fun_inv_def loc_inv_def)
  have grow1: "tab_grows b ?b"
    using binv p by (simp add: tab_grows_def ep_ext_def)
  have "unat i1 < length (sx_strings t2)"
    using s1(4) prefix_length_le [OF s2(3)] by simp
  then obtain i b' where e: "pv_func_entry ?b ?key = (i, b')" "tab_grows ?b b'"
    "\<exists>g \<in> set (pv_functions b'). ef_id g = i \<and> fun_key g = ?key"
    using pv_func_entry_ok [OF binv, of ?key] s2(4) by auto
  then obtain g where g: "g \<in> set (pv_functions b')" "ef_id g = i" "fun_key g = ?key" by blast
  have "(ep_string q (ef_name g), ep_string q (ef_filename g), ef_start_line g) = eframe_view frame"
    if q: "ep_ext (pv_tables b') q" "ep_small q" for q
  proof -
    from e(2) q have p2: "prefix (sx_strings t2) (ep_string_table q)"
      by (auto simp: tab_grows_def ep_ext_def intro: prefix_order.trans)
    with s2(3) have p1: "prefix (sx_strings t1) (ep_string_table q)" by (rule prefix_order.trans)
    from g(3) s1(5) [OF p1 q(2)] s2(5) [OF p2 q(2)] show ?thesis
      by (simp add: fun_key_def eframe_view_def)
  qed
  moreover have "pv_intern_function b frame = (i, b')"
    by (simp add: pv_intern_function_def s1(1) s2(1) e(1))
  moreover have "tab_grows b b'" using grow1 e(2) by (rule tab_grows_trans)
  moreover have "ef_start_line g = first_line frame" using g(3) by (simp add: fun_key_def)
  ultimately show thesis using that g(1,2) by blast
qed

lemma ep_resolve_intro:
  assumes good: "ep_good q" and l: "l \<in> set (ep_location q)" and g: "g \<in> set (ep_function q)" "ef_id g = loc_key l"
  shows "ep_resolve q (eo_id l) = Some (ep_string q (ef_name g), ep_string q (ef_filename g), ef_start_line g)"
proof -
  note d = ep_good_distinct [OF good]
  from good l obtain f where f: "f \<in> set (ep_function q)" "ef_id f = loc_key l"
    "ef_start_line f = el_line (hd (eo_line l))"
    by (auto simp: ep_good_def lines_ok_def)
  with g distinct_mapD [OF d(1)] have "f = g" by metis
  with f find_distinct [OF d(2) l] find_distinct [OF d(1) g(1)] g(2) show ?thesis
    by (simp add: ep_resolve_def loc_key_def)
qed

lemma pv_intern_location_ok:
  assumes inv: "tab_inv b" and fn: "\<exists>g \<in> set (pv_functions b). ef_id g = fid \<and> ef_start_line g = line"
  obtains i b' where "pv_intern_location line b fid = (i, b')" "tab_grows b b'"
    "\<exists>l \<in> set (pv_locations b'). eo_id l = i \<and> loc_key l = fid"
proof -
  obtain i b' where e: "pv_intern_location line b fid = (i, b')" by (cases "pv_intern_location line b fid")
  then have ok: "(Ok (pv_intern_location line b fid) :: (u64 \<times> profile_builder, unit) res) = Ok (i, b')" by simp
  from inv have li: "loc_inv b" by (simp add: tab_inv_def)
  from loc_tab.intern_OkD [OF li ok] obtain n where n: "i = epos n" "loc_inv b'"
    "n < length (map loc_key (pv_locations b'))" "map loc_key (pv_locations b') ! n = fid" .
  from n(2,3) have "eo_id (pv_locations b' ! n) = epos n"
    unfolding loc_inv_def using nth_map [of n "pv_locations b'" eo_id] by simp
  with n have found: "\<exists>l \<in> set (pv_locations b'). eo_id l = i \<and> loc_key l = fid"
    by (intro bexI [of _ "pv_locations b' ! n"]) simp_all
  have "lines_ok (pv_locations b') (pv_functions b')"
  proof (cases "hm_get (pv_loc_index b) fid")
    case None
    with e inv fn show ?thesis
      by (fastforce simp: pv_intern_location_def Let_def tab_inv_def lines_ok_def loc_key_def)
  next
    case (Some k)
    with e inv show ?thesis by (simp add: pv_intern_location_def tab_inv_def)
  qed
  then have "tab_grows b b'"
    using e inv n(2) by (auto simp: tab_grows_def tab_inv_def ep_ext_def pv_intern_location_def Let_def
        fun_inv_def split: option.splits)
  with that e found show thesis by blast
qed

definition loc_ids :: "profile_builder \<Rightarrow> u64 set" where
  "loc_ids b = eo_id ` set (pv_locations b)"

lemma pv_locate_ok:
  assumes "tab_inv b"
  shows "\<exists>ids b'. pv_locate b frames = (ids, b') \<and> tab_grows b b' \<and> set ids \<subseteq> loc_ids b' \<and>
    (\<forall>q. ep_ext (pv_tables b') q \<and> ep_good q \<longrightarrow> map (ep_resolve q) ids = map (Some \<circ> eframe_view) frames)"
  using assms
proof (induction frames arbitrary: b)
  case Nil
  then show ?case by (simp add: tab_grows_def)
next
  case (Cons frame frames)
  obtain fid b1 g where f: "pv_intern_function b frame = (fid, b1)" "tab_grows b b1"
    "g \<in> set (pv_functions b1)" "ef_id g = fid" "ef_start_line g = first_line frame"
    "\<And>q. ep_ext (pv_tables b1) q \<Longrightarrow> ep_small q \<Longrightarrow>
      (ep_string q (ef_name g), ep_string q (ef_filename g), ef_start_line g) = eframe_view frame"
    using pv_intern_function_ok [OF Cons.prems, of frame] by (metis (no_types, lifting))
  from f(2) have inv1: "tab_inv b1" by (simp add: tab_grows_def)
  obtain lid b2 l where l: "pv_intern_location (first_line frame) b1 fid = (lid, b2)" "tab_grows b1 b2"
    "l \<in> set (pv_locations b2)" "eo_id l = lid" "loc_key l = fid"
    using pv_intern_location_ok [OF inv1, of fid "first_line frame"] f(3-5) by (metis (no_types, lifting))
  from l(2) have "tab_inv b2" by (simp add: tab_grows_def)
  from Cons.IH [OF this] obtain ids b3 where r: "pv_locate b2 frames = (ids, b3)" "tab_grows b2 b3"
    "set ids \<subseteq> loc_ids b3"
    "\<And>q. ep_ext (pv_tables b3) q \<Longrightarrow> ep_good q \<Longrightarrow> map (ep_resolve q) ids = map (Some \<circ> eframe_view) frames"
    by blast
  have ext: "ep_ext (pv_tables b2) (pv_tables b3)" "ep_ext (pv_tables b1) (pv_tables b3)"
    using l(2) r(2) ep_ext_trans by (auto simp: tab_grows_def)
  have "ep_resolve q lid = Some (eframe_view frame)" if q: "ep_ext (pv_tables b3) q" "ep_good q" for q
  proof -
    have x: "ep_ext (pv_tables b2) q" "ep_ext (pv_tables b1) q"
      using ext q(1) ep_ext_trans by blast+
    then have "l \<in> set (ep_location q)" "g \<in> set (ep_function q)"
      using l(3) f(3) by (auto simp: ep_ext_def dest: set_mono_prefix)
    from ep_resolve_intro [OF q(2) this] f(4) l(4,5) f(6) [OF x(2)] q(2) show ?thesis
      by (simp add: ep_good_def)
  qed
  moreover have "lid \<in> loc_ids b3"
    using l(3,4) ext(1) by (auto simp: loc_ids_def ep_ext_def prefix_def)
  moreover have "tab_grows b b3" using f(2) l(2) r(2) tab_grows_trans by blast
  ultimately show ?case using r by (simp add: f(1) l(1))
qed

section \<open>Samples\<close>

definition sample_map :: "esample list \<Rightarrow> (u64 list, i64) hmap" where
  "sample_map ss = map (\<lambda>s. (es_location_id s, hd (es_value s))) ss"

definition pv_inv :: "profile_builder \<Rightarrow> bool" where
  "pv_inv b \<longleftrightarrow> tab_inv b \<and> hm_wf (sample_map (pv_samples b))
     \<and> pv_sample_index b = indexed (\<lambda>n. n) (map es_location_id (pv_samples b))
     \<and> (\<forall>s \<in> set (pv_samples b). length (es_value s) = 1 \<and> set (es_location_id s) \<subseteq> loc_ids b)"

lemma sample_map_keys [simp]: "map fst (sample_map ss) = map es_location_id ss"
  by (simp add: sample_map_def)

lemma sample_map_length [simp]: "length (sample_map ss) = length ss"
  by (simp add: sample_map_def)

lemma pv_bump_value_ok:
  assumes "idx < length ss" and "length (es_value (ss ! idx)) = 1"
  shows "\<exists>ss'. pv_bump_value ss idx v = Ok ss' \<and> map es_location_id ss' = map es_location_id ss
    \<and> sample_map ss' = (sample_map ss)[idx := (es_location_id (ss ! idx), hd (es_value (ss ! idx)) + v)]
    \<and> (\<forall>s \<in> set ss'. s \<in> set ss \<or> length (es_value s) = 1 \<and> es_location_id s = es_location_id (ss ! idx))"
proof -
  from assms(2) obtain x where x: "es_value (ss ! idx) = [x]" by (auto simp: length_Suc_conv)
  let ?ss = "ss[idx := (ss ! idx)\<lparr>es_value := [x + v]\<rparr>]"
  have "map es_location_id ?ss = map es_location_id ss"
    using assms(1) by (simp add: map_update list_update_same_conv)
  moreover have "sample_map ?ss = (sample_map ss)[idx := (es_location_id (ss ! idx), x + v)]"
    using assms(1) by (simp add: sample_map_def map_update)
  moreover have "\<forall>s \<in> set ?ss. s \<in> set ss \<or> length (es_value s) = 1 \<and> es_location_id s = es_location_id (ss ! idx)"
    using set_update_subset_insert by fastforce
  ultimately show ?thesis using assms(1) x by (simp add: pv_bump_value_def)
qed

text \<open>One call: the stack's entry of the map of samples is increased by the count times the period.\<close>

lemma pv_add_sample_ok:
  assumes inv: "pv_inv b"
  shows "\<exists>ids b'. pv_add_sample b frames n = Ok b' \<and> pv_inv b' \<and> ep_ext (pv_tables b) (pv_tables b')
    \<and> sample_map (pv_samples b') = hm_bump (sample_map (pv_samples b)) ids (n * pv_period b)
    \<and> (\<forall>q. ep_ext (pv_tables b') q \<and> ep_good q \<longrightarrow> map (ep_resolve q) ids = map (Some \<circ> eframe_view) frames)
    \<and> pv_time_nanos b' = pv_time_nanos b \<and> pv_duration_nanos b' = pv_duration_nanos b
    \<and> pv_period b' = pv_period b"
proof -
  from inv have "tab_inv b" by (simp add: pv_inv_def)
  from pv_locate_ok [OF this, of frames] obtain ids b1 where l: "pv_locate b frames = (ids, b1)" "tab_grows b b1"
    "set ids \<subseteq> loc_ids b1" "\<And>q. ep_ext (pv_tables b1) q \<Longrightarrow> ep_good q \<Longrightarrow>
       map (ep_resolve q) ids = map (Some \<circ> eframe_view) frames"
    by blast
  have ids: "loc_ids b \<subseteq> loc_ids b1"
    using l(2) by (auto simp: loc_ids_def tab_grows_def ep_ext_def prefix_def)
  let ?ss = "pv_samples b" and ?v = "n * pv_period b"
  from l(2) have same: "pv_samples b1 = ?ss" "pv_sample_index b1 = pv_sample_index b" "pv_period b1 = pv_period b"
    by (simp_all add: tab_grows_def)
  from inv have wf: "hm_wf (sample_map ?ss)" and dist: "distinct (map es_location_id ?ss)"
    and index: "pv_sample_index b = indexed (\<lambda>n. n) (map es_location_id ?ss)"
    by (simp_all add: pv_inv_def hm_wf_def)
  show ?thesis
  proof (cases "ids \<in> set (map es_location_id ?ss)")
    case True
    then obtain k where k: "k < length ?ss" "es_location_id (?ss ! k) = ids"
      by (auto simp: in_set_conv_nth)
    then have hit: "hm_get (pv_sample_index b) ids = Some k"
      using hm_get_indexed_hit [OF dist, of k "\<lambda>n. n"] index by simp
    have at: "sample_map ?ss ! k = (ids, hd (es_value (?ss ! k)))"
      using k by (simp add: sample_map_def)
    have "length (es_value (?ss ! k)) = 1" using inv k by (simp add: pv_inv_def)
    from pv_bump_value_ok [OF k(1) this, of ?v] obtain ss' where s: "pv_bump_value ?ss k ?v = Ok ss'"
      "map es_location_id ss' = map es_location_id ?ss"
      "sample_map ss' = (sample_map ?ss)[k := (ids, hd (es_value (?ss ! k)) + ?v)]"
      "\<forall>s \<in> set ss'. s \<in> set ?ss \<or> length (es_value s) = 1 \<and> es_location_id s = ids"
      using k(2) by auto
    have bump: "sample_map ss' = hm_bump (sample_map ?ss) ids ?v"
      using hm_insert_nth [OF wf, of k] hm_get_nth [OF wf, of k] k(1) at s(3) by (simp add: hm_bump_def)
    have "length (es_value s) = 1 \<and> set (es_location_id s) \<subseteq> loc_ids b1" if "s \<in> set ss'" for s
    proof (cases "s \<in> set ?ss")
      case True
      with inv ids show ?thesis by (auto simp: pv_inv_def)
    next
      case False
      with that s(4) l(3) show ?thesis by auto
    qed
    moreover have "tab_inv (b1\<lparr>pv_samples := ss'\<rparr>)"
      using l(2) by (simp add: tab_grows_def tab_inv_def fun_inv_def loc_inv_def)
    moreover have "hm_wf (sample_map ss')"
      using bump wf by (simp only: hm_wf_bump)
    ultimately have "pv_inv (b1\<lparr>pv_samples := ss'\<rparr>)"
      using index same(2) s(2) by (simp add: pv_inv_def loc_ids_def)
    then show ?thesis
      using l s(1) bump hit same
      by (intro exI [of _ ids] exI [of _ "b1\<lparr>pv_samples := ss'\<rparr>"])
        (simp add: pv_add_sample_def tab_grows_def ep_ext_def)
  next
    case False
    let ?b' = "b1\<lparr>pv_samples := ?ss @ [\<lparr>es_location_id = ids, es_value = [?v]\<rparr>],
      pv_sample_index := hm_insert (pv_sample_index b) ids (length ?ss)\<rparr>"
    have miss: "hm_get (pv_sample_index b) ids = None"
      using False index by (simp add: hm_get_indexed_miss)
    have fresh: "hm_get (sample_map ?ss) ids = None"
      using False by (simp add: hm_get_None_iff) (simp add: sample_map_def image_image)
    have bump: "sample_map (pv_samples ?b') = hm_bump (sample_map ?ss) ids ?v"
      using fresh by (simp add: hm_bump_def hm_insert_fresh) (simp add: sample_map_def)
    have "pv_sample_index ?b' = indexed (\<lambda>n. n) (map es_location_id (pv_samples ?b'))"
      using False index hm_insert_indexed [of ids "map es_location_id ?ss" "\<lambda>n. n"] by simp
    moreover have "hm_wf (sample_map (pv_samples ?b'))"
      using bump wf by (simp only: hm_wf_bump)
    moreover have "tab_inv ?b'"
      using l(2) by (simp add: tab_grows_def tab_inv_def fun_inv_def loc_inv_def)
    ultimately have "pv_inv ?b'"
      using inv l(3) ids by (fastforce simp: pv_inv_def loc_ids_def)
    then show ?thesis
      using l bump miss same
      by (intro exI [of _ ids] exI [of _ ?b'])
        (simp add: pv_add_sample_def Let_def tab_grows_def ep_ext_def)
  qed
qed

section \<open>Windows\<close>

text \<open>The abstract profile: the time of each stack, in the order of first appearance.\<close>

type_synonym abstract_profile = "(frame_id option list, i64) hmap"

definition abs_add :: "i64 \<Rightarrow> abstract_profile \<Rightarrow> eframe list \<times> i64 \<Rightarrow> abstract_profile" where
  "abs_add period m = (\<lambda>(frames, n). hm_bump m (map (Some \<circ> eframe_view) frames) (n * period))"

definition abs_profile :: "i64 \<Rightarrow> (eframe list \<times> i64) list \<Rightarrow> abstract_profile" where
  "abs_profile period ps = foldl (abs_add period) [] ps"

definition view_map :: "eprofile \<Rightarrow> (u64 list, i64) hmap \<Rightarrow> abstract_profile" where
  "view_map q m = map (\<lambda>(ids, v). (map (ep_resolve q) ids, v)) m"

lemma pv_add_samples_ok:
  assumes "pv_inv b"
  shows "\<exists>b'. pv_add_samples b ps = Ok b' \<and> pv_inv b' \<and> ep_ext (pv_tables b) (pv_tables b')
    \<and> pv_time_nanos b' = pv_time_nanos b \<and> pv_duration_nanos b' = pv_duration_nanos b
    \<and> pv_period b' = pv_period b
    \<and> (\<forall>q. ep_ext (pv_tables b') q \<and> ep_good q \<longrightarrow> view_map q (sample_map (pv_samples b')) =
         foldl (abs_add (pv_period b)) (view_map q (sample_map (pv_samples b))) ps)"
  using assms
proof (induction ps arbitrary: b)
  case Nil
  then show ?case by simp
next
  case (Cons x ps)
  obtain frames n where x: "x = (frames, n)" by (cases x)
  obtain ids b1 where s: "pv_add_sample b frames n = Ok b1" "pv_inv b1" "ep_ext (pv_tables b) (pv_tables b1)"
    "sample_map (pv_samples b1) = hm_bump (sample_map (pv_samples b)) ids (n * pv_period b)"
    "\<And>q. ep_ext (pv_tables b1) q \<Longrightarrow> ep_good q \<Longrightarrow> map (ep_resolve q) ids = map (Some \<circ> eframe_view) frames"
    "pv_time_nanos b1 = pv_time_nanos b" "pv_duration_nanos b1 = pv_duration_nanos b" "pv_period b1 = pv_period b"
    using pv_add_sample_ok [OF Cons.prems, of frames n] by blast
  from Cons.IH [OF s(2)] obtain b2 where r: "pv_add_samples b1 ps = Ok b2" "pv_inv b2"
    "ep_ext (pv_tables b1) (pv_tables b2)"
    "pv_time_nanos b2 = pv_time_nanos b1" "pv_duration_nanos b2 = pv_duration_nanos b1" "pv_period b2 = pv_period b1"
    "\<And>q. ep_ext (pv_tables b2) q \<Longrightarrow> ep_good q \<Longrightarrow> view_map q (sample_map (pv_samples b2)) =
         foldl (abs_add (pv_period b1)) (view_map q (sample_map (pv_samples b1))) ps"
    by blast
  have step: "view_map q (sample_map (pv_samples b1)) = abs_add (pv_period b) (view_map q (sample_map (pv_samples b))) x"
    if q: "ep_ext (pv_tables b1) q" "ep_good q" for q
  proof -
    note ids = s(5) [OF q]
    have "ids' = ids" if "map (ep_resolve q) ids' = map (ep_resolve q) ids" for ids'
      using ep_resolve_list_inj [OF q(2), of ids ids'] that ids by auto
    from hm_bump_map [of "sample_map (pv_samples b)" "map (ep_resolve q)" ids "n * pv_period b", OF this] ids
    show ?thesis by (simp add: view_map_def abs_add_def x s(4))
  qed
  have ext: "ep_ext (pv_tables b) (pv_tables b2)" by (rule ep_ext_trans [OF s(3) r(3)])
  show ?case
  proof (intro exI [of _ b2] conjI allI impI)
    fix q assume q: "ep_ext (pv_tables b2) q \<and> ep_good q"
    then have "ep_ext (pv_tables b1) q" using r(3) ep_ext_trans by blast
    with q r(7) [of q] step [of q] s(8)
    show "view_map q (sample_map (pv_samples b2)) =
        foldl (abs_add (pv_period b)) (view_map q (sample_map (pv_samples b))) (x # ps)" by simp
  qed (simp_all add: x s(1,6-8) r(1,2,4-6) ext)
qed

lemma sx_new_inv: "sx_inv sx_new" "sx_strings sx_new = [[]]"
  by (simp_all add: sx_new_def sx_inv_def sx_intern_def hm_insert_def indexed_def)

lemma pv_new_inv: "pv_inv (pv_new t d p)"
  by (simp add: pv_inv_def tab_inv_def pv_new_def sx_new_inv fun_inv_def loc_inv_def lines_ok_def names_ok_def
      sample_map_def)

lemma pv_encode_ok:
  assumes "pv_inv b"
  obtains p b' cpu ns where "pv_encode enc b = (enc p, b')" "ep_ext (pv_tables b) p" "ep_small p \<Longrightarrow> ep_good p"
    "ep_sample p = pv_samples b" "ep_time_nanos p = pv_time_nanos b" "ep_duration_nanos p = pv_duration_nanos b"
    "ep_period p = pv_period b" "ep_sample_type p = [\<lparr>ev_type = cpu, ev_unit = ns\<rparr>]"
    "ep_period_type p = Some \<lparr>ev_type = cpu, ev_unit = ns\<rparr>"
    "ep_small p \<Longrightarrow> ep_string p cpu = Some ''cpu'' \<and> ep_string p ns = Some ''nanoseconds''"
proof -
  from assms have tab: "tab_inv b" and "sx_inv (pv_st b)" by (simp_all add: pv_inv_def tab_inv_def)
  then obtain i1 t1 where s1: "sx_intern (pv_st b) ''cpu'' = (i1, t1)" "sx_inv t1"
    "prefix (sx_strings (pv_st b)) (sx_strings t1)" "unat i1 < length (sx_strings t1)"
    "\<And>q. prefix (sx_strings t1) (ep_string_table q) \<Longrightarrow> ep_small q \<Longrightarrow> ep_string q i1 = Some ''cpu''"
    using sx_intern_ok [where s = "''cpu''"] by metis
  obtain i2 t2 where s2: "sx_intern t1 ''nanoseconds'' = (i2, t2)" "sx_inv t2"
    "prefix (sx_strings t1) (sx_strings t2)" "unat i2 < length (sx_strings t2)"
    "\<And>q. prefix (sx_strings t2) (ep_string_table q) \<Longrightarrow> ep_small q \<Longrightarrow> ep_string q i2 = Some ''nanoseconds''"
    using sx_intern_ok [OF s1(2), where s = "''nanoseconds''"] by metis
  have pre: "prefix (sx_strings (pv_st b)) (sx_strings t2)"
    using s1(3) s2(3) by (rule prefix_order.trans)
  let ?vt = "\<lparr>ev_type = i1, ev_unit = i2\<rparr>"
  let ?p = "\<lparr>ep_sample_type = [?vt], ep_sample = pv_samples b, ep_location = pv_locations b,
               ep_function = pv_functions b, ep_string_table = sx_strings t2,
               ep_time_nanos = pv_time_nanos b, ep_duration_nanos = pv_duration_nanos b,
               ep_period_type = Some ?vt, ep_period = pv_period b\<rparr>"
  have good: "ep_good ?p" if "ep_small ?p"
    using tab that s2(2) names_ok_prefix [OF _ pre, of "pv_functions b"]
    by (simp add: ep_good_def tab_inv_def sx_inv_def fun_inv_def loc_inv_def names_ok_def)
  have "pv_encode enc b = (enc ?p, b\<lparr>pv_samples := [], pv_locations := [], pv_functions := [],
      pv_st := t2\<lparr>sx_strings := []\<rparr>\<rparr>)"
    by (simp add: pv_encode_def s1(1) s2(1) Let_def)
  moreover have "ep_ext (pv_tables b) ?p" using pre by (simp add: ep_ext_def)
  ultimately show thesis
    using that good s1(5) [of ?p] s2(3) s2(5) [of ?p] by simp
qed

lemma ep_view_tables: "ep_view p = view_map p (sample_map (ep_sample p))"
  by (simp add: ep_view_def view_map_def sample_map_def)

text \<open>\<open>reset\<close> leaves exactly a new builder with the old period.\<close>

lemma pv_reset_new: "pv_reset b t d = pv_new t d (pv_period b)"
  by (simp add: pv_reset_def pv_new_def)

end
