(* ===== verification/PySignalProfCorrect.thy ===== *)
theory PySignalProfCorrect
  imports PySignalProf PprofEncCorrect
begin

text \<open>
  The profiler at run time: the handler keeps its state well formed and adds at most one
  record, the reader takes every record exactly once, and what it sends is the profile of
  the samples taken.
\<close>

section \<open>Well-formed state\<close>

definition record_ok :: "u8 list \<Rightarrow> bool" where
  "record_ok r \<longleftrightarrow> (\<exists>tid fs. r = record_bytes tid fs \<and> 0 < length fs \<and> length fs \<le> MAX_DEPTH)"

definition shard_ok :: "shard \<Rightarrow> bool" where
  "shard_ok s \<longleftrightarrow> length (sh_frame_buffer s) = MAX_DEPTH \<and> list_all record_ok (sh_queue s)"

definition hs_ok :: "handler_state \<Rightarrow> bool" where
  "hs_ok st \<longleftrightarrow> unat (hs_num_shards st) = length (hs_shards st) \<and> hs_num_shards st \<noteq> 0
     \<and> hs_notify_interval st \<noteq> 0 \<and> list_all shard_ok (hs_shards st)"

definition all_grants_ok :: "bbqueue_grant \<Rightarrow> bool" where
  "all_grants_ok grant \<longleftrightarrow> (\<forall>q. grant_ok (grant q))"

section \<open>The handler\<close>

lemma try_shards_ok:
  assumes "unat n = length shards" and "n \<noteq> 0"
  shows "(\<exists>idx < length shards. try_shards shards n base as = Ok (Some idx) \<and> \<not> sh_locked (shards ! idx))
    \<or> (try_shards shards n base as = Ok None \<and> (\<forall>a \<in> set as. sh_locked (shards ! unat ((base + a) mod n))))"
proof (induction as)
  case Nil
  then show ?case by simp
next
  case (Cons a as)
  have "unat ((base + a) mod n) < length shards"
    using assms by (simp add: unat_mod word_unat_eq_iff flip: assms(1))
  with Cons show ?case
    by (auto simp: Let_def index_of_def)
qed

text \<open>What one delivery of the signal may do to shard \<open>idx\<close>: its buffer is overwritten, and at
  most one record, of the frames in the buffer, joins its queue.\<close>

definition shard_step :: "u32 \<Rightarrow> shard \<Rightarrow> shard \<Rightarrow> bool" where
  "shard_step tid s s' \<longleftrightarrow> sh_locked s' = sh_locked s \<and> length (sh_frame_buffer s') = length (sh_frame_buffer s)
     \<and> (sh_queue s' = sh_queue s
        \<or> (\<exists>d. 0 < d \<and> d \<le> MAX_DEPTH \<and> d \<le> length (sh_frame_buffer s')
             \<and> sh_queue s' = sh_queue s @ [record_bytes tid (take d (sh_frame_buffer s'))]))"

definition handler_step :: "u32 \<Rightarrow> handler_state \<Rightarrow> handler_state \<Rightarrow> bool" where
  "handler_step tid st st' \<longleftrightarrow>
     (\<exists>idx sh'. idx < length (hs_shards st) \<and> \<not> sh_locked (hs_shards st ! idx)
        \<and> shard_step tid (hs_shards st ! idx) sh' \<and> hs_shards st' = (hs_shards st)[idx := sh'])
     \<and> hs_debug_offsets st' = hs_debug_offsets st \<and> hs_type_addrs st' = hs_type_addrs st
     \<and> hs_num_shards st' = hs_num_shards st \<and> hs_notify_interval st' = hs_notify_interval st
     \<and> hs_app_name st' = hs_app_name st \<and> hs_server_url st' = hs_server_url st \<and> hs_tags st' = hs_tags st
     \<and> hs_eventfd st \<le> hs_eventfd st'"

lemma sample_shard_ok:
  assumes ok: "hs_ok st" and "idx < length (hs_shards st)" and "\<not> sh_locked (hs_shards st ! idx)"
    and "all_grants_ok grant" and "sample_shard grant e idx st = Some r"
  shows "\<exists>st'. r = Ok st' \<and> handler_step (se_tid e) st st'"
proof -
  let ?sh = "hs_shards st ! idx"
  have fb: "length (sh_frame_buffer ?sh) = MAX_DEPTH"
    using ok assms(2) by (simp add: hs_ok_def list_all_length shard_ok_def)
  obtain depth buf log where u: "unwind (se_rd e) (se_tstate e) (hs_debug_offsets st) (hs_type_addrs st)
      (sh_frame_buffer ?sh) = Some (depth, buf, log)"
    using assms(5) by (auto simp: sample_shard_def Let_def split: option.splits)
  note b = unwind_bounds [OF u]
  show ?thesis
  proof (cases "depth = 0")
    case True
    with u assms(5) have "r = Ok (st\<lparr>hs_shards := (hs_shards st)[idx := ?sh\<lparr>sh_frame_buffer := buf\<rparr>]\<rparr>)"
      by (simp add: sample_shard_def)
    moreover have "shard_step (se_tid e) ?sh (?sh\<lparr>sh_frame_buffer := buf\<rparr>)"
      using b by (simp add: shard_step_def)
    ultimately show ?thesis
      using assms(2,3) by (auto simp: handler_step_def)
  next
    case False
    have g: "grant_ok (grant (sh_queue ?sh))" using assms(4) by (simp add: all_grants_ok_def)
    obtain w where w: "sr_write (grant (sh_queue ?sh)) (se_tid e) buf depth = Ok w"
      "w = None \<or> w = Some (record_bytes (se_tid e) (take depth buf))"
    proof (cases "grant (sh_queue ?sh) (record_len depth)")
      case None
      with that [of None] show ?thesis by (simp add: sr_write_def Let_def)
    next
      case (Some g0)
      have "depth < 2 ^ 32" using b by (simp add: MAX_DEPTH_def)
      with b sr_write_ok [OF g, of depth buf g0 "se_tid e"] Some that show ?thesis by auto
    qed
    let ?sh' = "case w of None \<Rightarrow> ?sh\<lparr>sh_frame_buffer := buf\<rparr>
        | Some rec \<Rightarrow> ?sh\<lparr>sh_frame_buffer := buf, sh_queue := sh_queue ?sh @ [rec]\<rparr>"
    have "shard_step (se_tid e) ?sh ?sh'"
      using w(2) False b by (auto simp: shard_step_def fb)
    moreover obtain st' where "r = Ok st'" "hs_shards st' = (hs_shards st)[idx := ?sh']"
      "hs_debug_offsets st' = hs_debug_offsets st \<and> hs_type_addrs st' = hs_type_addrs st
       \<and> hs_num_shards st' = hs_num_shards st \<and> hs_notify_interval st' = hs_notify_interval st
       \<and> hs_app_name st' = hs_app_name st \<and> hs_server_url st' = hs_server_url st \<and> hs_tags st' = hs_tags st
       \<and> hs_eventfd st \<le> hs_eventfd st'"
      using assms(5) u False w(1) ok
      by (auto simp: sample_shard_def hs_ok_def Let_def split: option.splits if_splits)
    ultimately show ?thesis
      using assms(2,3) by (auto simp: handler_step_def)
  qed
qed

lemma shard_step_ok:
  assumes "shard_ok s" and "shard_step tid s s'"
  shows "shard_ok s'"
  using assms by (fastforce simp: shard_ok_def shard_step_def record_ok_def)

lemma handler_step_ok:
  assumes "hs_ok st" and "handler_step tid st st'"
  shows "hs_ok st'"
proof -
  from assms(2) obtain idx sh' where s: "idx < length (hs_shards st)" "shard_step tid (hs_shards st ! idx) sh'"
    "hs_shards st' = (hs_shards st)[idx := sh']" "hs_num_shards st' = hs_num_shards st"
    "hs_notify_interval st' = hs_notify_interval st"
    by (auto simp: handler_step_def)
  have "shard_ok sh'"
    using assms(1) s(1,2) shard_step_ok by (auto simp: hs_ok_def list_all_length)
  with assms(1) s show ?thesis
    by (auto simp: hs_ok_def list_all_length nth_list_update)
qed

lemma on_sigprof_ok:
  assumes "hs_ok st" and "all_grants_ok grant" and "on_sigprof grant e (Some st) = Some r"
  shows "\<exists>st'. r = Ok (Some st') \<and> hs_ok st' \<and> (st' = st \<or> handler_step (se_tid e) st st')"
proof -
  have n: "unat (hs_num_shards st) = length (hs_shards st)" "hs_num_shards st \<noteq> 0"
    using assms(1) by (simp_all add: hs_ok_def)
  let ?base = "ucast (se_tid e) mod hs_num_shards st"
  show ?thesis
  proof (cases "se_tstate e = 0")
    case True
    with assms show ?thesis by (auto simp: on_sigprof_def)
  next
    case False
    from try_shards_ok [OF n, of ?base "[0, 1, 2]"] show ?thesis
    proof (elim disjE exE conjE)
      fix idx assume idx: "idx < length (hs_shards st)" "\<not> sh_locked (hs_shards st ! idx)"
        "try_shards (hs_shards st) (hs_num_shards st) ?base [0, 1, 2] = Ok (Some idx)"
      with assms(3) False n obtain r' where r': "sample_shard grant e idx st = Some r'" "r = bind_res r' (\<lambda>s. Ok (Some s))"
        by (auto simp: on_sigprof_def simp del: try_shards.simps)
      from sample_shard_ok [OF assms(1) idx(1,2) assms(2) r'(1)] r'(2) handler_step_ok [OF assms(1)]
      show ?thesis by auto
    next
      assume "try_shards (hs_shards st) (hs_num_shards st) ?base [0, 1, 2] = Ok None"
      with assms False n show ?thesis by (auto simp: on_sigprof_def simp del: try_shards.simps)
    qed
  qed
qed

section \<open>The reader\<close>

text \<open>The name a frame gets: the cached one, else the one resolved now. Caching does not change it.\<close>

definition cached_name :: "(u64 \<Rightarrow> string) \<Rightarrow> symbol_cache \<Rightarrow> u64 \<Rightarrow> string" where
  "cached_name name_of cache c = (case hm_get cache c of None \<Rightarrow> name_of c | Some n \<Rightarrow> n)"

definition named_frames :: "(u64 \<Rightarrow> string) \<Rightarrow> raw_frame list \<Rightarrow> eframe list" where
  "named_frames nm fs = map (\<lambda>f. EFrame (nm (rf_code_object f)) [] 0) fs"

lemma cache_names_ok:
  assumes "rv_buf v = record_bytes tid fs" and "\<forall>i \<in> set is. i < length fs"
  shows "\<exists>cache'. cache_names name_of v cache is = Ok cache' \<and> cached_name name_of cache' = cached_name name_of cache
    \<and> (\<forall>c. hm_get cache c \<noteq> None \<longrightarrow> hm_get cache' c \<noteq> None)
    \<and> (\<forall>i \<in> set is. hm_get cache' (rf_code_object (fs ! i)) \<noteq> None)"
  using assms(2)
proof (induction "is" arbitrary: cache)
  case Nil
  then show ?case by simp
next
  case (Cons i "is")
  let ?c = "rf_code_object (fs ! i)"
  let ?cache = "case hm_get cache ?c of Some _ \<Rightarrow> cache | None \<Rightarrow> hm_insert cache ?c (name_of ?c)"
  have same: "cached_name name_of ?cache = cached_name name_of cache"
    by (auto simp: cached_name_def hm_get_insert fun_eq_iff split: option.split)
  have keep: "hm_get cache c \<noteq> None \<Longrightarrow> hm_get ?cache c \<noteq> None" "hm_get ?cache ?c \<noteq> None" for c
    by (auto simp: hm_get_insert split: option.split)
  from Cons.IH [of ?cache] Cons.prems obtain cache' where
    "cache_names name_of v ?cache is = Ok cache'" "cached_name name_of cache' = cached_name name_of ?cache"
    "\<And>c. hm_get ?cache c \<noteq> None \<Longrightarrow> hm_get cache' c \<noteq> None"
    "\<forall>i \<in> set is. hm_get cache' (rf_code_object (fs ! i)) \<noteq> None"
    by auto
  moreover have "cache_names name_of v cache (i # is) = cache_names name_of v ?cache is"
    using rv_frame_bytes [OF assms(1), of i] Cons.prems by (simp add: Let_def)
  ultimately show ?case using same keep by (intro exI [of _ cache']) auto
qed

lemma cached_frames_ok:
  assumes "rv_buf v = record_bytes tid fs" and "\<forall>i \<in> set is. i < length fs"
    and "\<forall>i \<in> set is. hm_get cache (rf_code_object (fs ! i)) \<noteq> None"
  shows "cached_frames v cache is = Ok (named_frames (cached_name name_of cache) (map ((!) fs) is))"
  using assms(2,3)
proof (induction "is")
  case Nil
  then show ?case by (simp add: named_frames_def)
next
  case (Cons i "is")
  then obtain n where "hm_get cache (rf_code_object (fs ! i)) = Some n" by auto
  with Cons rv_frame_bytes [OF assms(1), of i] show ?case
    by (simp add: named_frames_def cached_name_def)
qed

lemma read_record_ok:
  assumes "0 < length fs" and "length fs \<le> MAX_DEPTH"
  shows "\<exists>cache'. cached_name name_of cache' = cached_name name_of cache \<and>
    read_record name_of (cache, b) (record_bytes tid fs) =
      bind_res (pv_add_sample b (named_frames (cached_name name_of cache) fs) 1) (\<lambda>b'. Ok (cache', b'))"
proof -
  have small: "length fs < 2 ^ 32" using assms(2) by (simp add: MAX_DEPTH_def)
  let ?v = "\<lparr>rv_tid = tid, rv_depth = word_of_nat (length fs), rv_buf = record_bytes tid fs\<rparr>"
  have d: "unat (rv_depth ?v) = length fs" using small by (simp add: unat_of_nat)
  have v: "rv_buf ?v = record_bytes tid fs" by simp
  obtain cache' where c: "cache_names name_of ?v cache [0..<length fs] = Ok cache'"
    "cached_name name_of cache' = cached_name name_of cache"
    "\<forall>i \<in> set [0..<length fs]. hm_get cache' (rf_code_object (fs ! i)) \<noteq> None"
    using cache_names_ok [OF v, of "[0..<length fs]" name_of cache] by auto
  have "cached_frames ?v cache' [0..<length fs] = Ok (named_frames (cached_name name_of cache) fs)"
    using cached_frames_ok [OF v _ c(3), of name_of] c(2) by (simp add: map_nth)
  with c(1,2) parse_record_bytes [OF small, of tid] d show ?thesis
    by (intro exI [of _ cache']) (simp add: read_record_def Let_def)
qed

text \<open>The frames of a record, and the samples that a queue holds.\<close>

definition record_frames :: "u8 list \<Rightarrow> raw_frame list" where
  "record_frames r = (case parse_record r of
     None \<Rightarrow> []
   | Some v \<Rightarrow> map (\<lambda>i. case rv_frame v i of Ok f \<Rightarrow> f) [0..<unat (rv_depth v)])"

lemma record_frames_bytes:
  assumes "length fs \<le> MAX_DEPTH"
  shows "record_frames (record_bytes tid fs) = fs"
proof -
  have small: "length fs < 2 ^ 32" using assms by (simp add: MAX_DEPTH_def)
  let ?v = "\<lparr>rv_tid = tid, rv_depth = word_of_nat (length fs), rv_buf = record_bytes tid fs\<rparr>"
  have "map (\<lambda>i. case rv_frame ?v i of Ok f \<Rightarrow> f) [0..<length fs] = map ((!) fs) [0..<length fs]"
    using rv_frame_bytes [of ?v tid fs] by simp
  with parse_record_bytes [OF small, of tid] small show ?thesis
    by (simp add: record_frames_def unat_of_nat map_nth)
qed

definition queue_samples :: "(u64 \<Rightarrow> string) \<Rightarrow> u8 list list \<Rightarrow> (eframe list \<times> i64) list" where
  "queue_samples nm rs = map (\<lambda>r. (named_frames nm (record_frames r), 1)) rs"

lemma pv_add_samples_append:
  "pv_add_samples b (ps @ qs) = bind_res (pv_add_samples b ps) (\<lambda>b'. pv_add_samples b' qs)"
  by (induction b ps rule: pv_add_samples.induct) (simp_all add: bind_res_assoc)

lemma drain_queue_ok:
  assumes "list_all record_ok rs" and "pv_inv b"
  shows "\<exists>cache' b'. drain_queue name_of (cache, b) rs = Ok (cache', b') \<and> pv_inv b'
    \<and> cached_name name_of cache' = cached_name name_of cache
    \<and> pv_add_samples b (queue_samples (cached_name name_of cache) rs) = Ok b'"
  using assms
proof (induction rs arbitrary: cache b)
  case Nil
  then show ?case by (simp add: queue_samples_def)
next
  case (Cons r rs)
  then obtain tid fs where r: "r = record_bytes tid fs" "0 < length fs" "length fs \<le> MAX_DEPTH"
    by (auto simp: record_ok_def)
  from read_record_ok [OF r(2,3), of name_of cache b tid] obtain cache1 where c1:
    "cached_name name_of cache1 = cached_name name_of cache"
    "read_record name_of (cache, b) r =
      bind_res (pv_add_sample b (named_frames (cached_name name_of cache) fs) 1) (\<lambda>b'. Ok (cache1, b'))"
    by (auto simp: r(1))
  obtain b1 where b1: "pv_add_sample b (named_frames (cached_name name_of cache) fs) 1 = Ok b1" "pv_inv b1"
    using pv_add_sample_ok [OF Cons.prems(2)] by blast
  from Cons.IH [OF _ b1(2), of cache1] Cons.prems(1) obtain cache' b' where
    "drain_queue name_of (cache1, b1) rs = Ok (cache', b')" "pv_inv b'"
    "cached_name name_of cache' = cached_name name_of cache1"
    "pv_add_samples b1 (queue_samples (cached_name name_of cache1) rs) = Ok b'"
    by auto
  with c1 b1 show ?case
    by (simp add: queue_samples_def r(1) record_frames_bytes [OF r(3)])
qed

definition emptied :: "shard \<Rightarrow> shard" where
  "emptied s = s\<lparr>sh_queue := []\<rparr>"

lemma drain_shards_rest:
  assumes "list_all shard_ok rest" and "\<forall>s \<in> set rest. \<not> sh_locked s" and "pv_inv b"
  shows "\<exists>cache' b'. drain_shards name_of (cache, b) (front @ rest) [length front..<length front + length rest] =
      Some (Ok (front @ map emptied rest, cache', b'))
    \<and> pv_inv b' \<and> cached_name name_of cache' = cached_name name_of cache
    \<and> pv_add_samples b (queue_samples (cached_name name_of cache) (concat (map sh_queue rest))) = Ok b'"
  using assms
proof (induction rest arbitrary: front cache b)
  case Nil
  then show ?case by (simp add: queue_samples_def)
next
  case (Cons s rest)
  have rs: "list_all record_ok (sh_queue s)" "\<not> sh_locked s"
    using Cons.prems(1,2) by (simp_all add: shard_ok_def)
  from drain_queue_ok [OF rs(1) Cons.prems(3), of name_of cache] obtain cache1 b1 where d:
    "drain_queue name_of (cache, b) (sh_queue s) = Ok (cache1, b1)" "pv_inv b1"
    "cached_name name_of cache1 = cached_name name_of cache"
    "pv_add_samples b (queue_samples (cached_name name_of cache) (sh_queue s)) = Ok b1"
    by blast
  from Cons.IH [OF _ _ d(2), of cache1 "front @ [emptied s]"] Cons.prems(1,2) obtain cache' b' where r:
    "drain_shards name_of (cache1, b1) (front @ emptied s # rest)
       [Suc (length front)..<Suc (length front) + length rest] =
      Some (Ok (front @ emptied s # map emptied rest, cache', b'))"
    "pv_inv b'" "cached_name name_of cache' = cached_name name_of cache1"
    "pv_add_samples b1 (queue_samples (cached_name name_of cache1) (concat (map sh_queue rest))) = Ok b'"
    by auto
  have "[length front..<length front + length (s # rest)] =
      length front # [Suc (length front)..<Suc (length front) + length rest]"
    by (subst upt_conv_Cons) simp_all
  then have "drain_shards name_of (cache, b) (front @ s # rest) [length front..<length front + length (s # rest)] =
      drain_shards name_of (cache1, b1) (front @ emptied s # rest)
        [Suc (length front)..<Suc (length front) + length rest]"
    using rs(2) d(1) by (simp add: index_of_def emptied_def)
  with r d(3,4) show ?case
    by (simp add: queue_samples_def pv_add_samples_append)
qed

lemma drain_shards_ok:
  assumes "hs_ok st" and "\<forall>s \<in> set (hs_shards st). \<not> sh_locked s" and "pv_inv b"
  shows "\<exists>cache' b'. drain_shards name_of (cache, b) (hs_shards st) [0..<unat (hs_num_shards st)] =
      Some (Ok (map emptied (hs_shards st), cache', b'))
    \<and> pv_inv b' \<and> cached_name name_of cache' = cached_name name_of cache
    \<and> pv_add_samples b (queue_samples (cached_name name_of cache) (concat (map sh_queue (hs_shards st)))) = Ok b'"
  using drain_shards_rest [of "hs_shards st" b name_of cache "[]"] assms by (simp add: hs_ok_def)

text \<open>The reader at a point of its window: its builder holds the samples \<open>ps\<close> taken since the
  window began, its cache only knows names that \<open>name_of\<close> gives too.\<close>

definition builder_holds :: "profile_builder \<Rightarrow> i64 \<Rightarrow> i64 \<Rightarrow> (eframe list \<times> i64) list \<Rightarrow> bool" where
  "builder_holds b t d ps \<longleftrightarrow> pv_add_samples (pv_new t d PERIOD) ps = Ok b"

lemma builder_holds_inv: "builder_holds b t d ps \<Longrightarrow> pv_inv b"
  using pv_add_samples_ok [OF pv_new_inv, of t d PERIOD ps] by (auto simp: builder_holds_def)

lemma builder_holds_new [simp]: "builder_holds (pv_new t d PERIOD) t d []"
  by (simp add: builder_holds_def)

lemma builder_holds_times:
  assumes "builder_holds b t d ps"
  shows "pv_time_nanos b = t" "pv_duration_nanos b = d" "pv_period b = PERIOD"
  using pv_add_samples_ok [OF pv_new_inv, of t d PERIOD ps] assms
  by (auto simp: builder_holds_def pv_new_def)

lemma builder_holds_encode:
  assumes "builder_holds b t d ps"
  shows "\<exists>p b'. pv_encode enc b = (enc p, b') \<and> pv_period b' = PERIOD \<and> ep_time_nanos p = t
    \<and> ep_duration_nanos p = d \<and> ep_period p = PERIOD \<and> (ep_small p \<longrightarrow> ep_view p = abs_profile PERIOD ps)"
proof -
  note inv = builder_holds_inv [OF assms] and times = builder_holds_times [OF assms]
  have views: "ep_ext (pv_tables b) q \<Longrightarrow> ep_good q \<Longrightarrow> view_map q (sample_map (pv_samples b)) = abs_profile PERIOD ps" for q
    using pv_add_samples_ok [OF pv_new_inv, of t d PERIOD ps] assms
    by (auto simp: builder_holds_def pv_new_def abs_profile_def view_map_def sample_map_def)
  from pv_encode_ok [OF inv, of enc] obtain p b' where e: "pv_encode enc b = (enc p, b')"
    "ep_ext (pv_tables b) p" "ep_small p \<Longrightarrow> ep_good p" "ep_sample p = pv_samples b"
    "ep_time_nanos p = t" "ep_duration_nanos p = d" "ep_period p = PERIOD"
    using times by metis
  moreover have "pv_period b' = PERIOD"
    using e(1) times(3) by (auto simp: pv_encode_def Let_def split: prod.splits)
  ultimately show ?thesis using views [of p] by (auto simp: ep_view_tables)
qed

lemma builder_holds_empty:
  assumes "builder_holds b t d ps"
  shows "pv_is_empty b \<longleftrightarrow> ps = []"
proof -
  have grow: "pv_inv c \<Longrightarrow> pv_add_samples c qs = Ok c' \<Longrightarrow> pv_samples c \<noteq> [] \<or> qs \<noteq> [] \<Longrightarrow> pv_samples c' \<noteq> []" for c c' qs
  proof (induction qs arbitrary: c)
    case (Cons x qs)
    obtain fs n where x: "x = (fs, n)" by (cases x)
    from pv_add_sample_ok [OF Cons.prems(1), of fs n] obtain ids c1 where
      c1: "pv_add_sample c fs n = Ok c1" "pv_inv c1"
        "sample_map (pv_samples c1) = hm_bump (sample_map (pv_samples c)) ids (n * pv_period c)"
      by auto
    have "sample_map (pv_samples c1) \<noteq> []"
      unfolding c1(3) by (cases "sample_map (pv_samples c)") (auto simp: hm_bump_def hm_insert_def split: option.split)
    then have "pv_samples c1 \<noteq> []" by (auto simp: sample_map_def)
    with Cons.IH [OF c1(2)] Cons.prems(2) c1(1) x show ?case by simp
  qed simp
  show ?thesis
    using grow [OF pv_new_inv, of t d PERIOD ps b] assms
    by (cases ps) (auto simp: builder_holds_def pv_is_empty_def pv_new_def)
qed

text \<open>A turn of the reader: it takes exactly the queued samples, in the order of the shards and
  of their queues. At the end of the interval the window's samples become one request, whose body
  is the profile of the samples, or none when there are none or no server is set.\<close>

definition turn_samples :: "(u64 \<Rightarrow> string) \<Rightarrow> reader_state \<Rightarrow> handler_state \<Rightarrow> (eframe list \<times> i64) list" where
  "turn_samples name_of rs st =
     queue_samples (cached_name name_of (re_cache rs)) (concat (map sh_queue (hs_shards st)))"

lemma reader_turn_ok:
  assumes ok: "hs_ok st" and free: "\<forall>s \<in> set (hs_shards st). \<not> sh_locked s"
    and holds: "builder_holds (re_builder rs) t d ps"
    and total: "all = ps @ turn_samples name_of rs st"
  shows "\<exists>reqs rs' p. reader_turn enc name_of ts st rs = Some (Ok (reqs, st\<lparr>hs_shards := map emptied (hs_shards st)\<rparr>, rs'))
    \<and> (rt_check ts - re_last_flush rs < FLUSH_INTERVAL \<longrightarrow> reqs = [] \<and> builder_holds (re_builder rs') t d all
         \<and> cached_name name_of (re_cache rs') = cached_name name_of (re_cache rs)
         \<and> re_last_flush rs' = re_last_flush rs)
    \<and> (FLUSH_INTERVAL \<le> rt_check ts - re_last_flush rs \<longrightarrow> re_cache rs' = [] \<and> re_last_flush rs' = rt_after ts
         \<and> (all = [] \<longrightarrow> reqs = [] \<and> builder_holds (re_builder rs') t d [])
         \<and> (all \<noteq> [] \<longrightarrow> builder_holds (re_builder rs') (word_of_nat (rt_now_reset ts)) 15000000000 []
              \<and> map iq_pprof reqs = (if hs_server_url st = None then [] else [enc p])
              \<and> (\<forall>rq \<in> set reqs. hs_server_url st = Some (iq_url rq) \<and> iq_app rq = hs_app_name st
                   \<and> iq_tags rq = hs_tags st)
              \<and> ep_time_nanos p = t \<and> ep_duration_nanos p = d \<and> ep_period p = PERIOD
              \<and> (ep_small p \<longrightarrow> ep_view p = abs_profile PERIOD all)))"
proof -
  obtain cache' b' where dr: "drain_shards name_of (re_cache rs, re_builder rs) (hs_shards st) [0..<unat (hs_num_shards st)] =
      Some (Ok (map emptied (hs_shards st), cache', b'))"
    "cached_name name_of cache' = cached_name name_of (re_cache rs)"
    "pv_add_samples (re_builder rs) (turn_samples name_of rs st) = Ok b'"
    using drain_shards_ok [OF ok free builder_holds_inv [OF holds], of name_of "re_cache rs"]
    by (auto simp: turn_samples_def)
  have all: "builder_holds b' t d all"
    using holds dr(3) by (simp add: builder_holds_def total pv_add_samples_append)
  show ?thesis
  proof (cases "FLUSH_INTERVAL \<le> rt_check ts - re_last_flush rs")
    case False
    with dr(1,2) all show ?thesis
      by (intro exI [of _ "[]"] exI [of _ "\<lparr>re_builder = b', re_cache = cache', re_last_flush = re_last_flush rs\<rparr>"])
        (simp add: reader_turn_def)
  next
    case True
    show ?thesis
    proof (cases "all = []")
      case e: True
      with builder_holds_empty [OF all] have "pv_is_empty b'" by simp
      with True dr(1) all e show ?thesis
        by (intro exI [of _ "[]"] exI [of _ "\<lparr>re_builder = b', re_cache = [], re_last_flush = rt_after ts\<rparr>"])
          (simp add: reader_turn_def flush_pprof_def)
    next
      case ne: False
      with builder_holds_empty [OF all] have ne': "\<not> pv_is_empty b'" by simp
      from builder_holds_encode [OF all, of enc] obtain p b2 where p: "pv_encode enc b' = (enc p, b2)"
        "pv_period b2 = PERIOD" "ep_time_nanos p = t" "ep_duration_nanos p = d" "ep_period p = PERIOD"
        "ep_small p \<longrightarrow> ep_view p = abs_profile PERIOD all"
        by blast
      let ?b3 = "pv_reset b2 (word_of_nat (rt_now_reset ts)) 15000000000"
      obtain reqs where fl: "flush_pprof enc (st\<lparr>hs_shards := map emptied (hs_shards st)\<rparr>) ts b' = (reqs, ?b3)"
        "map iq_pprof reqs = (if hs_server_url st = None then [] else [enc p])"
        "\<forall>rq \<in> set reqs. hs_server_url st = Some (iq_url rq) \<and> iq_app rq = hs_app_name st \<and> iq_tags rq = hs_tags st"
        using ne' p(1) by (cases "hs_server_url st") (simp_all add: flush_pprof_def Let_def)
      have "reader_turn enc name_of ts st rs = Some (Ok (reqs, st\<lparr>hs_shards := map emptied (hs_shards st)\<rparr>,
          \<lparr>re_builder = ?b3, re_cache = [], re_last_flush = rt_after ts\<rparr>))"
        using True dr(1) fl(1) by (simp add: reader_turn_def Let_def)
      moreover have "builder_holds ?b3 (word_of_nat (rt_now_reset ts)) 15000000000 []"
        using p(2) by (simp add: pv_reset_new)
      ultimately show ?thesis
        using True ne fl p by (intro exI [of _ reqs]
          exI [of _ "\<lparr>re_builder = ?b3, re_cache = [], re_last_flush = rt_after ts\<rparr>"] exI [of _ p]) simp
    qed
  qed
qed

lemma wait_timeout_bound: "unat (wait_timeout_ms rs now) \<le> 15000"
proof -
  have "(FLUSH_INTERVAL - (now - re_last_flush rs)) div 1000000 \<le> FLUSH_INTERVAL div 1000000"
    by (intro div_le_mono) simp
  then have "(FLUSH_INTERVAL - (now - re_last_flush rs)) div 1000000 \<le> 15000"
    by (simp add: FLUSH_INTERVAL_def)
  then show ?thesis
    unfolding wait_timeout_ms_def unat_of_nat by (rule order_trans [OF mod_less_eq_dividend])
qed

end
