(* ===== verification/PySignalProfRun.thy ===== *)
theory PySignalProfRun
  imports PySignalProfCorrect
begin

text \<open>
  Runs of the profiler: deliveries of the signal and turns of the reader in any order. A turn is
  one step: while the reader drains a shard it holds the shard's lock, so a signal that finds the
  shard locked takes another shard or is dropped, which is the same as its coming before or after
  the turn for the records it commits.
\<close>

section \<open>The step relation\<close>

record profiler =
  pr_handler :: handler_state
  pr_reader :: reader_state
  pr_sent :: "ingest_request list"

definition queued :: "handler_state \<Rightarrow> u8 list list" where
  "queued st = concat (map sh_queue (hs_shards st))"

text \<open>\<open>profiler_run enc name_of grant p0 m p\<close>: from \<open>p0\<close> the profiler may reach \<open>p\<close>, and the
  records that the handler committed on the way are \<open>m\<close>.\<close>

inductive profiler_run ::
    "(eprofile \<Rightarrow> u8 list) \<Rightarrow> (u64 \<Rightarrow> string) \<Rightarrow> bbqueue_grant \<Rightarrow> profiler \<Rightarrow> u8 list multiset \<Rightarrow> profiler \<Rightarrow> bool"
    for enc name_of grant p0 where
  run_start: "profiler_run enc name_of grant p0 {#} p0"
| run_signal: "profiler_run enc name_of grant p0 m p \<Longrightarrow>
    on_sigprof grant e (Some (pr_handler p)) = Some (Ok (Some st)) \<Longrightarrow>
    profiler_run enc name_of grant p0 (m + (mset (queued st) - mset (queued (pr_handler p)))) (p\<lparr>pr_handler := st\<rparr>)"
| run_turn: "profiler_run enc name_of grant p0 m p \<Longrightarrow>
    reader_turn enc name_of ts (pr_handler p) (pr_reader p) = Some (Ok (reqs, st, rs)) \<Longrightarrow>
    profiler_run enc name_of grant p0 m (p\<lparr>pr_handler := st, pr_reader := rs, pr_sent := pr_sent p @ reqs\<rparr>)"

text \<open>A profiler that was just started: no locks held, nothing queued, nothing sent.\<close>

definition profiler_start :: "profiler \<Rightarrow> nat \<Rightarrow> bool" where
  "profiler_start p now \<longleftrightarrow> hs_ok (pr_handler p) \<and> hs_server_url (pr_handler p) \<noteq> None
     \<and> list_all (\<lambda>s. \<not> sh_locked s \<and> sh_queue s = []) (hs_shards (pr_handler p))
     \<and> pr_reader p = reader_init now \<and> pr_sent p = []"

section \<open>The invariant\<close>

definition sent_ok :: "(eprofile \<Rightarrow> u8 list) \<Rightarrow> ingest_request \<Rightarrow> (eframe list \<times> i64) list \<Rightarrow> bool" where
  "sent_ok enc rq w \<longleftrightarrow> w \<noteq> [] \<and> (\<exists>p. iq_pprof rq = enc p \<and> ep_period p = PERIOD
     \<and> (ep_small p \<longrightarrow> ep_view p = abs_profile PERIOD w))"

definition sample_of :: "(u64 \<Rightarrow> string) \<Rightarrow> u8 list \<Rightarrow> eframe list \<times> i64" where
  "sample_of name_of r = (named_frames name_of (record_frames r), 1)"

definition run_inv ::
    "(eprofile \<Rightarrow> u8 list) \<Rightarrow> (u64 \<Rightarrow> string) \<Rightarrow> u8 list multiset \<Rightarrow> profiler \<Rightarrow> (eframe list \<times> i64) list list
     \<Rightarrow> (eframe list \<times> i64) list \<Rightarrow> bool" where
  "run_inv enc name_of m p ws ps \<longleftrightarrow> hs_ok (pr_handler p) \<and> hs_server_url (pr_handler p) \<noteq> None
     \<and> (\<forall>s \<in> set (hs_shards (pr_handler p)). \<not> sh_locked s)
     \<and> cached_name name_of (re_cache (pr_reader p)) = name_of
     \<and> (\<exists>t d. builder_holds (re_builder (pr_reader p)) t d ps)
     \<and> list_all2 (sent_ok enc) (pr_sent p) ws
     \<and> mset (concat ws) + mset ps + mset (map (sample_of name_of) (queued (pr_handler p)))
         = image_mset (sample_of name_of) m"

lemma queue_samples_of: "queue_samples name_of rs = map (sample_of name_of) rs"
  by (simp add: queue_samples_def sample_of_def)

lemma cached_name_empty [simp]: "cached_name name_of [] = name_of"
  by (simp add: cached_name_def hm_get_def fun_eq_iff)

lemma run_inv_start:
  assumes "profiler_start p now"
  shows "run_inv enc name_of {#} p [] []"
proof -
  have "queued (pr_handler p) = []"
    using assms by (auto simp: profiler_start_def queued_def list_all_iff)
  moreover have "\<exists>t d. builder_holds (re_builder (reader_init now)) t d []"
    unfolding reader_init_def reader_state.simps using builder_holds_new by blast
  ultimately show ?thesis
    using assms unfolding run_inv_def profiler_start_def list_all_iff by (simp add: reader_init_def)
qed

text \<open>A step of the handler adds the records it commits to the queues, and nothing else.\<close>

lemma handler_step_queued:
  assumes "handler_step tid st st'"
  shows "mset (queued st) \<subseteq># mset (queued st')"
proof -
  from assms obtain idx sh' where s: "idx < length (hs_shards st)" "shard_step tid (hs_shards st ! idx) sh'"
    "hs_shards st' = (hs_shards st)[idx := sh']"
    by (auto simp: handler_step_def)
  have "mset (sh_queue (hs_shards st ! idx)) \<subseteq># mset (sh_queue sh')"
    using s(2) by (auto simp: shard_step_def)
  moreover have "hs_shards st = take idx (hs_shards st) @ hs_shards st ! idx # drop (Suc idx) (hs_shards st)"
    using s(1) by (simp add: id_take_nth_drop)
  then have "queued st = concat (map sh_queue (take idx (hs_shards st))) @ sh_queue (hs_shards st ! idx)
      @ concat (map sh_queue (drop (Suc idx) (hs_shards st)))"
    unfolding queued_def by (metis concat.simps(2) concat_append list.simps(9) map_append)
  moreover have "queued st' = concat (map sh_queue (take idx (hs_shards st))) @ sh_queue sh'
      @ concat (map sh_queue (drop (Suc idx) (hs_shards st)))"
    using s(1,3) by (simp add: queued_def upd_conv_take_nth_drop)
  ultimately show ?thesis by (simp add: subset_mset.add_mono)
qed

lemma handler_step_free:
  assumes "handler_step tid st st'" and "\<forall>s \<in> set (hs_shards st). \<not> sh_locked s"
  shows "\<forall>s \<in> set (hs_shards st'). \<not> sh_locked s" and "hs_server_url st' = hs_server_url st"
proof -
  from assms(1) obtain idx sh' where s: "shard_step tid (hs_shards st ! idx) sh'" "\<not> sh_locked (hs_shards st ! idx)"
    "hs_shards st' = (hs_shards st)[idx := sh']"
    by (auto simp: handler_step_def)
  then show "\<forall>s \<in> set (hs_shards st'). \<not> sh_locked s"
    using assms(2) by (auto simp: shard_step_def dest!: set_update_subset_insert [THEN subsetD])
  show "hs_server_url st' = hs_server_url st"
    using assms(1) by (simp add: handler_step_def)
qed

lemma run_inv_signal:
  assumes inv: "run_inv enc name_of m p ws ps" and "all_grants_ok grant"
    and "on_sigprof grant e (Some (pr_handler p)) = Some (Ok (Some st))"
  shows "run_inv enc name_of (m + (mset (queued st) - mset (queued (pr_handler p)))) (p\<lparr>pr_handler := st\<rparr>) ws ps"
proof -
  have ok: "hs_ok (pr_handler p)" using inv by (simp add: run_inv_def)
  from on_sigprof_ok [OF ok assms(2,3)] have st: "hs_ok st" "st = pr_handler p \<or> handler_step (se_tid e) (pr_handler p) st"
    by auto
  have p: "\<forall>s \<in> set (hs_shards (pr_handler p)). \<not> sh_locked s" "hs_server_url (pr_handler p) \<noteq> None"
    using inv by (simp_all add: run_inv_def)
  have sub: "mset (queued (pr_handler p)) \<subseteq># mset (queued st)"
    using st(2) handler_step_queued by blast
  have free: "\<forall>s \<in> set (hs_shards st). \<not> sh_locked s" and url: "hs_server_url st \<noteq> None"
    using st(2) handler_step_free p by metis+
  from sub have "image_mset (sample_of name_of) (mset (queued st)) = image_mset (sample_of name_of) (mset (queued (pr_handler p)))
      + image_mset (sample_of name_of) (mset (queued st) - mset (queued (pr_handler p)))"
    by (metis image_mset_union subset_mset.add_diff_inverse)
  moreover have "mset (concat ws) + mset ps + image_mset (sample_of name_of) (mset (queued (pr_handler p)))
      = image_mset (sample_of name_of) m"
    using inv by (simp add: run_inv_def)
  ultimately have "mset (concat ws) + mset ps + mset (map (sample_of name_of) (queued st))
      = image_mset (sample_of name_of) (m + (mset (queued st) - mset (queued (pr_handler p))))"
    by (simp add: ac_simps)
  with inv st(1) free url show ?thesis
    unfolding run_inv_def by simp
qed

lemma run_inv_turn:
  assumes inv: "run_inv enc name_of m p ws ps"
    and "reader_turn enc name_of ts (pr_handler p) (pr_reader p) = Some (Ok (reqs, st, rs))"
  shows "\<exists>ws' ps'. run_inv enc name_of m (p\<lparr>pr_handler := st, pr_reader := rs, pr_sent := pr_sent p @ reqs\<rparr>) ws' ps'"
proof -
  from inv obtain t d where h: "hs_ok (pr_handler p)" "\<forall>s \<in> set (hs_shards (pr_handler p)). \<not> sh_locked s"
    "builder_holds (re_builder (pr_reader p)) t d ps" and url: "hs_server_url (pr_handler p) \<noteq> None"
    and cn: "cached_name name_of (re_cache (pr_reader p)) = name_of"
    by (auto simp: run_inv_def)
  let ?q = "map (sample_of name_of) (queued (pr_handler p))"
  have ts: "turn_samples name_of (pr_reader p) (pr_handler p) = ?q"
    by (simp add: turn_samples_def cn queue_samples_of queued_def)
  note turn = reader_turn_ok [OF h refl, of enc name_of ts, unfolded ts]
  have st: "st = (pr_handler p)\<lparr>hs_shards := map emptied (hs_shards (pr_handler p))\<rparr>"
    using turn assms(2) by auto
  have st_ok: "hs_ok st" "\<forall>s \<in> set (hs_shards st). \<not> sh_locked s" "queued st = []" "hs_server_url st \<noteq> None"
    using h(1,2) url by (simp_all add: st hs_ok_def list_all_iff emptied_def shard_ok_def queued_def comp_def)
  show ?thesis
  proof (cases "FLUSH_INTERVAL \<le> rt_check ts - re_last_flush (pr_reader p)")
    case False
    with turn assms(2) have "reqs = []" "builder_holds (re_builder rs) t d (ps @ ?q)"
      "cached_name name_of (re_cache rs) = name_of"
      using cn by auto
    with inv st_ok have "run_inv enc name_of m (p\<lparr>pr_handler := st, pr_reader := rs, pr_sent := pr_sent p @ reqs\<rparr>) ws (ps @ ?q)"
      by (auto simp: run_inv_def add.assoc)
    then show ?thesis by blast
  next
    case True
    show ?thesis
    proof (cases "ps @ ?q = []")
      case e: True
      with True turn assms(2) have "reqs = []" "builder_holds (re_builder rs) t d []" "re_cache rs = []"
        by auto
      with inv st_ok e have "run_inv enc name_of m (p\<lparr>pr_handler := st, pr_reader := rs, pr_sent := pr_sent p @ reqs\<rparr>) ws []"
        by (auto simp: run_inv_def)
      then show ?thesis by blast
    next
      case ne: False
      with True turn assms(2) url obtain pf rq where r: "reqs = [rq]" "iq_pprof rq = enc pf" "ep_period pf = PERIOD"
        "ep_small pf \<longrightarrow> ep_view pf = abs_profile PERIOD (ps @ ?q)"
        "builder_holds (re_builder rs) (word_of_nat (rt_now_reset ts)) 15000000000 []" "re_cache rs = []"
        by (auto simp: map_eq_Cons_conv)
      then have "sent_ok enc rq (ps @ ?q)" using ne by (auto simp: sent_ok_def)
      with inv have "list_all2 (sent_ok enc) (pr_sent p @ [rq]) (ws @ [ps @ ?q])"
        by (auto simp: run_inv_def intro: list_all2_appendI)
      with inv st_ok r have "run_inv enc name_of m (p\<lparr>pr_handler := st, pr_reader := rs, pr_sent := pr_sent p @ reqs\<rparr>) (ws @ [ps @ ?q]) []"
        by (auto simp: run_inv_def add.assoc)
      then show ?thesis by blast
    qed
  qed
qed

lemma profiler_run_inv:
  assumes "profiler_run enc name_of grant p0 m p" and "profiler_start p0 now" and "all_grants_ok grant"
  shows "\<exists>ws ps. run_inv enc name_of m p ws ps"
  using assms(1)
proof (induction rule: profiler_run.induct)
  case run_start
  with run_inv_start [OF assms(2)] show ?case by blast
next
  case run_signal
  with run_inv_signal [OF _ assms(3)] show ?case by blast
next
  case run_turn
  with run_inv_turn show ?case by blast
qed

section \<open>What a signal records\<close>

text \<open>The shards that the handler tries, in its order.\<close>

definition tried :: "handler_state \<Rightarrow> u32 \<Rightarrow> nat list" where
  "tried st tid = map (\<lambda>a. unat ((ucast tid mod hs_num_shards st + a) mod hs_num_shards st)) [0, 1, 2]"

lemma try_shards_find:
  assumes "unat n = length shards" and "n \<noteq> 0"
  shows "try_shards shards n base as =
    Ok (find (\<lambda>i. \<not> sh_locked (shards ! i)) (map (\<lambda>a. unat ((base + a) mod n)) as))"
proof (induction as)
  case Nil
  then show ?case by simp
next
  case (Cons a as)
  have "unat ((base + a) mod n) < length shards"
    using assms by (simp add: unat_mod word_unat_eq_iff flip: assms(1))
  with Cons show ?case by (simp add: Let_def index_of_def)
qed

text \<open>The shard after the frames \<open>fs\<close> were recorded in it.\<close>

definition recorded :: "bbqueue_grant \<Rightarrow> u32 \<Rightarrow> raw_frame list \<Rightarrow> shard \<Rightarrow> shard" where
  "recorded grant tid fs s = s\<lparr>sh_frame_buffer := fs @ drop (length fs) (sh_frame_buffer s),
     sh_queue := sh_queue s @ (if fs = [] \<or> grant (sh_queue s) (record_len (length fs)) = None then []
       else [record_bytes tid fs])\<rparr>"

lemma visible_frames_length: "length (visible_frames n xs) \<le> n"
  by (simp add: visible_frames_def)

lemma sample_shard_chain:
  assumes ok: "hs_ok st" and idx: "idx < length (hs_shards st)" and g: "all_grants_ok grant"
    and cur: "se_rd e (se_tstate e + p4ts_current_frame (p4do_thread_state (hs_debug_offsets st))) = Ok fp"
    and chain: "frame_chain (se_rd e) (hs_debug_offsets st) 0 fp xs"
  shows "\<exists>st'. sample_shard grant e idx st = Some (Ok st') \<and> hs_shards st' =
    (hs_shards st)[idx := recorded grant (se_tid e) (visible_frames MAX_DEPTH xs) (hs_shards st ! idx)]"
proof -
  let ?s = "hs_shards st ! idx" and ?fs = "visible_frames MAX_DEPTH xs"
  have len: "length (sh_frame_buffer ?s) = MAX_DEPTH"
    using ok idx by (simp add: hs_ok_def list_all_length shard_ok_def)
  then have "unwind_limit (sh_frame_buffer ?s) = MAX_DEPTH" by (simp add: unwind_limit_def)
  with unwind_chain [OF cur chain, of "hs_type_addrs st" "sh_frame_buffer ?s"] obtain log where u:
    "unwind (se_rd e) (se_tstate e) (hs_debug_offsets st) (hs_type_addrs st) (sh_frame_buffer ?s) =
      Some (length ?fs, ?fs @ drop (length ?fs) (sh_frame_buffer ?s), log)"
    by (auto simp: Let_def)
  note fl = visible_frames_length [of MAX_DEPTH xs]
  show ?thesis
  proof (cases "?fs = []")
    case True
    with u show ?thesis by (simp add: sample_shard_def recorded_def)
  next
    case False
    let ?buf = "?fs @ drop (length ?fs) (sh_frame_buffer ?s)" and ?grant = "grant (sh_queue ?s)"
    have w: "sr_write ?grant (se_tid e) ?buf (length ?fs) =
        Ok (if ?grant (record_len (length ?fs)) = None then None else Some (record_bytes (se_tid e) ?fs))"
    proof (cases "?grant (record_len (length ?fs))")
      case None
      then show ?thesis by (simp add: sr_write_def Let_def)
    next
      case (Some b)
      have "grant_ok ?grant" "length ?fs < 2 ^ 32" using g fl by (simp_all add: all_grants_ok_def MAX_DEPTH_def)
      from sr_write_ok [OF this(1) _ this(2) Some, of ?buf] Some show ?thesis by simp
    qed
    have "hs_notify_interval st \<noteq> 0" using ok by (simp add: hs_ok_def)
    with u False w show ?thesis
      by (auto simp: sample_shard_def recorded_def Let_def split: if_splits)
  qed
qed

lemma on_sigprof_chain:
  assumes "hs_ok st" and "all_grants_ok grant" and "se_tstate e \<noteq> 0"
    and "se_rd e (se_tstate e + p4ts_current_frame (p4do_thread_state (hs_debug_offsets st))) = Ok fp"
    and "frame_chain (se_rd e) (hs_debug_offsets st) 0 fp xs"
  shows "\<exists>st'. on_sigprof grant e (Some st) = Some (Ok (Some st')) \<and> hs_shards st' =
    (case find (\<lambda>i. \<not> sh_locked (hs_shards st ! i)) (tried st (se_tid e)) of
       None \<Rightarrow> hs_shards st
     | Some i \<Rightarrow> (hs_shards st)[i := recorded grant (se_tid e) (visible_frames MAX_DEPTH xs) (hs_shards st ! i)])"
proof -
  have n: "unat (hs_num_shards st) = length (hs_shards st)" "hs_num_shards st \<noteq> 0"
    using assms(1) by (simp_all add: hs_ok_def)
  note t = try_shards_find [OF n, of "ucast (se_tid e) mod hs_num_shards st" "[0, 1, 2]", folded tried_def]
  show ?thesis
  proof (cases "find (\<lambda>i. \<not> sh_locked (hs_shards st ! i)) (tried st (se_tid e))")
    case None
    with t n(2) assms(3) show ?thesis by (simp add: on_sigprof_def del: try_shards.simps)
  next
    case (Some i)
    then have "i \<in> set (tried st (se_tid e))" by (auto simp: find_Some_iff in_set_conv_nth)
    then have "i < length (hs_shards st)"
      using n(2) unfolding n(1) [symmetric] tried_def by (auto simp: unat_mod word_unat_eq_iff)
    from sample_shard_chain [OF assms(1) this assms(2,4,5)] Some t n(2) assms(3) show ?thesis
      by (auto simp: on_sigprof_def simp del: try_shards.simps)
  qed
qed


text \<open>An example: two shards, the thread's first choice locked.\<close>

definition ex_shard :: "bool \<Rightarrow> shard" where
  "ex_shard l = \<lparr>sh_locked = l, sh_frame_buffer = replicate MAX_DEPTH \<lparr>rf_code_object = 0, rf_instr_offset = 0\<rparr>,
     sh_queue = []\<rparr>"

definition ex_handler :: "bool \<Rightarrow> handler_state" where
  "ex_handler l = \<lparr>hs_debug_offsets = ex_offsets, hs_type_addrs = \<lparr>ta_code_type = 0\<rparr>, hs_asyncio_offsets = None,
     hs_shards = [ex_shard False, ex_shard l], hs_eventfd = 0, hs_samples_since_notify = 0, hs_num_shards = 2,
     hs_notify_interval = 32, hs_app_name = ''app'', hs_server_url = Some ''http://localhost'', hs_tags = []\<rparr>"

definition ex_grant :: bbqueue_grant where
  "ex_grant q n = Some (replicate n 0)"

definition ex_signal :: signal_env where
  "ex_signal = \<lparr>se_tstate = 0x10, se_tid = 7, se_rd = mem_reader ex_cells\<rparr>"

lemma ex_handler_ok: "hs_ok (ex_handler l)" "all_grants_ok ex_grant"
proof -
  have "length (sh_frame_buffer (ex_shard b)) = MAX_DEPTH" "sh_queue (ex_shard b) = []" for b
    unfolding ex_shard_def by (simp_all only: shard.simps length_replicate)
  then show "hs_ok (ex_handler l)"
    by (simp add: hs_ok_def ex_handler_def shard_ok_def)
qed (simp add: all_grants_ok_def grant_ok_def ex_grant_def)

lemma ex_signal_chain:
  "se_tstate ex_signal \<noteq> 0"
  "se_rd ex_signal (se_tstate ex_signal + p4ts_current_frame (p4do_thread_state (hs_debug_offsets (ex_handler l)))) = Ok 0x100"
  "frame_chain (se_rd ex_signal) (hs_debug_offsets (ex_handler l)) 0 0x100 ex_chain"
  using ex_chain_ok by (simp_all add: ex_signal_def ex_handler_def)

lemma ex_tried: "tried (ex_handler l) 7 = [1, 0, 1]"
  by (simp add: tried_def ex_handler_def unat_mod)


section \<open>Every sample is accounted for\<close>


definition ex_profiler :: profiler where
  "ex_profiler = \<lparr>pr_handler = ex_handler False, pr_reader = reader_init 0, pr_sent = []\<rparr>"

lemma ex_profiler_start: "profiler_start ex_profiler 0"
  using ex_handler_ok(1) [of False]
  by (simp add: profiler_start_def ex_profiler_def) (simp add: ex_handler_def ex_shard_def)

definition ex_times :: reader_times where
  "ex_times = \<lparr>rt_check = 16000000000, rt_after = 16000000001, rt_now_request = 20, rt_now_reset = 21\<rparr>"

lemma ex_profiler_runs:
  "\<exists>r p. profiler_run enc name_of ex_grant ex_profiler {#r#} p \<and> length (pr_sent p) = 1 \<and> queued (pr_handler p) = []"
proof -
  let ?fs = "visible_frames MAX_DEPTH ex_chain"
  have tid: "se_tid ex_signal = 7" by (simp add: ex_signal_def)
  have sh: "hs_shards (ex_handler False) = [ex_shard False, ex_shard False]"
    and url: "hs_server_url (ex_handler False) = Some ''http://localhost''"
    by (simp_all add: ex_handler_def)
  have unlocked: "\<not> sh_locked (ex_shard False)" "sh_queue (ex_shard False) = []" by (simp_all add: ex_shard_def)
  have "find (\<lambda>i. \<not> sh_locked (hs_shards (ex_handler False) ! i)) [1, 0, 1] = Some 1"
    using unlocked(1) by (simp add: sh)
  with on_sigprof_chain [OF ex_handler_ok ex_signal_chain, of False] obtain st where
    st: "on_sigprof ex_grant ex_signal (Some (ex_handler False)) = Some (Ok (Some st))"
    "hs_shards st = [ex_shard False, recorded ex_grant 7 ?fs (ex_shard False)]"
    by (auto simp: ex_tried tid sh)
  have fs: "?fs \<noteq> []" using ex_chain_visible by (simp add: MAX_DEPTH_def)
  have q: "queued (ex_handler False) = []" "queued st = [record_bytes 7 ?fs]"
    using unlocked(2) fs by (simp_all add: queued_def sh st(2) recorded_def ex_grant_def)
  have ok: "hs_ok st" and st_url: "hs_server_url st \<noteq> None"
    using on_sigprof_ok [OF ex_handler_ok st(1)] url by (auto simp: handler_step_def)
  have free: "\<forall>s \<in> set (hs_shards st). \<not> sh_locked s"
    using unlocked(1) by (simp add: st(2) recorded_def)
  have "pr_handler ex_profiler = ex_handler False" by (simp add: ex_profiler_def)
  with run_signal [OF run_start, of ex_grant ex_signal ex_profiler st enc name_of] st(1) q
  have run: "profiler_run enc name_of ex_grant ex_profiler {#record_bytes 7 ?fs#} (ex_profiler\<lparr>pr_handler := st\<rparr>)"
    by simp
  have rs: "pr_reader (ex_profiler\<lparr>pr_handler := st\<rparr>) = reader_init 0" by (simp add: ex_profiler_def)
  have holds: "builder_holds (re_builder (reader_init 0)) 0 (word_of_nat FLUSH_INTERVAL) []"
    unfolding reader_init_def reader_state.simps by (rule builder_holds_new)
  have due: "FLUSH_INTERVAL \<le> rt_check ex_times - re_last_flush (reader_init 0)"
    by (simp add: ex_times_def reader_init_def FLUSH_INTERVAL_def)
  have some: "turn_samples name_of (reader_init 0) st \<noteq> []"
    using q(2) by (simp add: turn_samples_def queued_def queue_samples_def)
  obtain reqs rs' p where turn: "reader_turn enc name_of ex_times st (reader_init 0) =
      Some (Ok (reqs, st\<lparr>hs_shards := map emptied (hs_shards st)\<rparr>, rs'))" "map iq_pprof reqs = [enc p]"
    using reader_turn_ok [OF ok free holds refl, of enc name_of ex_times] due some st_url by auto
  then have "length reqs = 1" by (cases reqs) auto
  moreover have "queued (st\<lparr>hs_shards := map emptied (hs_shards st)\<rparr>) = []"
    by (simp add: queued_def emptied_def comp_def)
  moreover note run_turn [OF run, of ex_times reqs "st\<lparr>hs_shards := map emptied (hs_shards st)\<rparr>" rs']
  ultimately show ?thesis using turn(1) rs by (fastforce simp: ex_profiler_def)
qed


end
