(* ===== verification/PythonMaps.thy ===== *)
theory PythonMaps
  imports TextParse
begin

text \<open>
  Finding CPython among the mappings of the process: the parser of \<open>/proc/self/maps\<close> and the two
  searches of \<open>kit/python_offsets/src/lib.rs\<close>.
\<close>

section \<open>A line\<close>

definition FLAGS_READ :: u32 where "FLAGS_READ = 0x1"
definition FLAGS_WRITE :: u32 where "FLAGS_WRITE = 0x2"
definition FLAGS_EXEC :: u32 where "FLAGS_EXEC = 0x4"
definition FLAGS_SHARED :: u32 where "FLAGS_SHARED = 0x8"

record maps_entry =
  me_start :: u64
  me_end :: u64
  me_flags :: u32
  me_offset :: u64
  me_dev_major :: u32
  me_dev_minor :: u32
  me_inode :: u64
  me_path :: "u8 list"

text \<open>\<open>uN::from_str_radix(core::str::from_utf8(field).ok()?, 16).ok()?\<close>\<close>

definition parse_hex :: "nat \<Rightarrow> u8 list \<Rightarrow> nat option" where
  "parse_hex bits field = Option.bind (utf8_decode field) (\<lambda>cs. from_str_radix (2 ^ bits) 16 cs)"

definition flag_if :: "bool \<Rightarrow> u32 \<Rightarrow> u32 \<Rightarrow> u32" where
  "flag_if b f flags = (if b then flags OR f else flags)"

definition parse_perms :: "u8 list \<Rightarrow> u32 option" where
  "parse_perms perms =
     (if length perms < 4 then None
      else Some (flag_if (perms ! 3 = 115) FLAGS_SHARED (flag_if (perms ! 2 = 120) FLAGS_EXEC
                (flag_if (perms ! 1 = 119) FLAGS_WRITE (flag_if (perms ! 0 = 114) FLAGS_READ 0)))))"

text \<open>The fields of the iterator, in turn; the path is optional.\<close>

definition parse_maps_line :: "u8 list \<Rightarrow> maps_entry option" where
  "parse_maps_line line =
     (case splitn 6 32 line of
        addr_field # perms # offset_field # dev_field # inode_field # rest \<Rightarrow>
          Option.bind (cut 45 addr_field) (\<lambda>(start_field, end_field).
          Option.bind (parse_hex 64 start_field) (\<lambda>start_addr.
          Option.bind (parse_hex 64 end_field) (\<lambda>end_addr.
          Option.bind (parse_perms perms) (\<lambda>flags.
          Option.bind (parse_hex 64 offset_field) (\<lambda>offset.
          Option.bind (cut 58 dev_field) (\<lambda>(major_field, minor_field).
          Option.bind (parse_hex 32 major_field) (\<lambda>dev_major.
          Option.bind (parse_hex 32 minor_field) (\<lambda>dev_minor.
          Option.bind (utf8_decode inode_field) (\<lambda>inode_chars.
          Option.bind (from_str_radix (2 ^ 64) 10 (trim_by white_space inode_chars)) (\<lambda>inode.
          let path = (case rest of [] \<Rightarrow> [] | r # _ \<Rightarrow> trim_by ascii_space r) in
          Some \<lparr>me_start = word_of_nat start_addr, me_end = word_of_nat end_addr, me_flags = flags,
                me_offset = word_of_nat offset, me_dev_major = word_of_nat dev_major,
                me_dev_minor = word_of_nat dev_minor, me_inode = word_of_nat inode, me_path = path\<rparr>))))))))))
      | _ \<Rightarrow> None)"

section \<open>Searching\<close>

datatype offsets_error =
  KindasafeInitFailed | PythonNotFound | SymbolNotFound string | DebugOffsetsMismatch | UnsupportedVersion
  | ElfParse | OffsetsIo

text \<open>The path is a \<open>String\<close>: a sequence of characters.\<close>

record python_binary =
  pb_base :: u64
  pb_path :: "nat list"

definition binary_of :: "maps_entry \<Rightarrow> python_binary" where
  "binary_of e = \<lparr>pb_base = me_start e, pb_path = utf8_lossy (me_path e)\<rparr>"

text \<open>\<open>haystack.windows(n).any(|w| w == needle)\<close>\<close>

fun any_window :: "'a list \<Rightarrow> 'a list \<Rightarrow> bool" where
  "any_window needle [] = False"
| "any_window needle (x # xs) = (take (length needle) (x # xs) = needle \<or> any_window needle xs)"

definition path_contains :: "'a list \<Rightarrow> 'a list \<Rightarrow> bool" where
  "path_contains haystack needle =
     (if needle = [] \<or> length haystack < length needle then False else any_window needle haystack)"

definition bytes_of :: "string \<Rightarrow> u8 list" where
  "bytes_of s = map (\<lambda>c. word_of_nat (of_char c)) s"

text \<open>The reader is the sequence of the results of \<open>read_until\<close>; an empty line is the end of the
  file, and so is the end of the sequence.\<close>

type_synonym line_reader = "(u8 list, unit) res list"

fun find_python_loop :: "python_binary option \<Rightarrow> line_reader \<Rightarrow> (python_binary, offsets_error) res" where
  "find_python_loop python3 [] = (case python3 of None \<Rightarrow> Err PythonNotFound | Some b \<Rightarrow> Ok b)"
| "find_python_loop python3 (Ok buf # rs) =
     (if buf = [] then (case python3 of None \<Rightarrow> Err PythonNotFound | Some b \<Rightarrow> Ok b)
      else (case parse_maps_line buf of
          None \<Rightarrow> find_python_loop python3 rs
        | Some e \<Rightarrow>
            if path_contains (me_path e) (bytes_of ''libpython3'') then Ok (binary_of e)
            else if python3 = None \<and> path_contains (me_path e) (bytes_of ''python3'')
            then find_python_loop (Some (binary_of e)) rs
            else find_python_loop python3 rs))"
| "find_python_loop python3 (Err x # rs) = Err PythonNotFound"
| "find_python_loop python3 (Panic # rs) = Panic"

definition find_python_in_maps_reader :: "line_reader \<Rightarrow> (python_binary, offsets_error) res" where
  "find_python_in_maps_reader rs = find_python_loop None rs"

fun find_asyncio_in_maps_reader :: "line_reader \<Rightarrow> (python_binary, offsets_error) res" where
  "find_asyncio_in_maps_reader [] = Err PythonNotFound"
| "find_asyncio_in_maps_reader (Ok buf # rs) =
     (if buf = [] then Err PythonNotFound
      else (case parse_maps_line buf of
          None \<Rightarrow> find_asyncio_in_maps_reader rs
        | Some e \<Rightarrow>
            if path_contains (me_path e) (bytes_of ''_asyncio.cpython-3'') then Ok (binary_of e)
            else find_asyncio_in_maps_reader rs))"
| "find_asyncio_in_maps_reader (Err x # rs) = Err PythonNotFound"
| "find_asyncio_in_maps_reader (Panic # rs) = Panic"

text \<open>The file may fail to open (\<open>None\<close>).\<close>

definition find_python_in_maps :: "line_reader option \<Rightarrow> (python_binary, offsets_error) res" where
  "find_python_in_maps f = (case f of None \<Rightarrow> Err PythonNotFound | Some rs \<Rightarrow> find_python_in_maps_reader rs)"

definition find_asyncio_in_maps :: "line_reader option \<Rightarrow> (python_binary, offsets_error) res" where
  "find_asyncio_in_maps f = (case f of None \<Rightarrow> Err PythonNotFound | Some rs \<Rightarrow> find_asyncio_in_maps_reader rs)"

section \<open>What the searches find\<close>

lemma any_window_iff: "any_window needle xs \<longleftrightarrow> (\<exists>as bs. xs = as @ needle @ bs \<and> xs \<noteq> as)" if "needle \<noteq> []"
proof (induction xs)
  case Nil
  then show ?case by simp
next
  case (Cons x xs)
  have "take (length needle) (x # xs) = needle \<longleftrightarrow> (\<exists>bs. x # xs = needle @ bs)"
    by (metis append_eq_conv_conj append_take_drop_id)
  moreover have "(\<exists>as bs. x # xs = as @ needle @ bs) \<longleftrightarrow> (\<exists>bs. x # xs = needle @ bs) \<or> (\<exists>as bs. xs = as @ needle @ bs)"
    by (metis append_Cons append_Nil list.sel(3) tl_append2 neq_Nil_conv)
  ultimately show ?case using Cons that by auto
qed

lemma path_contains_iff: "path_contains xs needle \<longleftrightarrow> needle \<noteq> [] \<and> (\<exists>as bs. xs = as @ needle @ bs)"
  by (auto simp: path_contains_def any_window_iff)

text \<open>The entries of a file, in order; lines that are no entries do not count.\<close>

definition maps_entries :: "u8 list list \<Rightarrow> maps_entry list" where
  "maps_entries ls = concat (map (\<lambda>l. case parse_maps_line l of None \<Rightarrow> [] | Some e \<Rightarrow> [e]) ls)"

definition first_with :: "string \<Rightarrow> maps_entry list \<Rightarrow> maps_entry option" where
  "first_with s es = find (\<lambda>e. path_contains (me_path e) (bytes_of s)) es"

lemma find_python_loop_spec:
  assumes "\<forall>l \<in> set ls. l \<noteq> []"
  shows "find_python_loop p (map Ok ls) =
    (case first_with ''libpython3'' (maps_entries ls) of
       Some e \<Rightarrow> Ok (binary_of e)
     | None \<Rightarrow> (case p of Some b \<Rightarrow> Ok b
         | None \<Rightarrow> (case first_with ''python3'' (maps_entries ls) of
             Some e \<Rightarrow> Ok (binary_of e) | None \<Rightarrow> Err PythonNotFound)))"
  using assms
  by (induction ls arbitrary: p)
    (auto simp: maps_entries_def first_with_def split: option.splits)

lemma find_asyncio_spec:
  assumes "\<forall>l \<in> set ls. l \<noteq> []"
  shows "find_asyncio_in_maps_reader (map Ok ls) =
    (case first_with ''_asyncio.cpython-3'' (maps_entries ls) of
       Some e \<Rightarrow> Ok (binary_of e) | None \<Rightarrow> Err PythonNotFound)"
  using assms
  by (induction ls) (auto simp: maps_entries_def first_with_def split: option.splits)

section \<open>Round trip\<close>

text \<open>A line as the kernel prints it.\<close>

definition perm_bytes :: "u32 \<Rightarrow> u8 list" where
  "perm_bytes f = [if f AND FLAGS_READ \<noteq> 0 then 114 else 45, if f AND FLAGS_WRITE \<noteq> 0 then 119 else 45,
     if f AND FLAGS_EXEC \<noteq> 0 then 120 else 45, if f AND FLAGS_SHARED \<noteq> 0 then 115 else 112]"

definition maps_line_bytes :: "nat \<Rightarrow> maps_entry \<Rightarrow> u8 list" where
  "maps_line_bytes pad e =
     number_bytes 8 16 (unat (me_start e)) @ 45 # number_bytes 8 16 (unat (me_end e)) @ 32 #
     perm_bytes (me_flags e) @ 32 # number_bytes 8 16 (unat (me_offset e)) @ 32 #
     (number_bytes 2 16 (unat (me_dev_major e)) @ 58 # number_bytes 2 16 (unat (me_dev_minor e))) @ 32 #
     number_bytes 0 10 (unat (me_inode e)) @ 32 # (replicate pad 32 @ me_path e @ [10])"

definition entry_ok :: "maps_entry \<Rightarrow> bool" where
  "entry_ok e \<longleftrightarrow> me_flags e < 16 \<and> 10 \<notin> set (me_path e)
     \<and> (me_path e \<noteq> [] \<longrightarrow> \<not> ascii_space (hd (me_path e)) \<and> \<not> ascii_space (last (me_path e)))"

lemma number_bytes_notin:
  assumes "2 \<le> radix" and "radix \<le> 16"
  shows "32 \<notin> set (number_bytes w radix n)" "45 \<notin> set (number_bytes w radix n)" "58 \<notin> set (number_bytes w radix n)"
    "10 \<notin> set (number_bytes w radix n)"
  using number_bytes_range [OF assms, of _ w n] by fastforce+

lemma parse_hex_number: "n < 2 ^ bits \<Longrightarrow> parse_hex bits (number_bytes w 16 n) = Some n"
  by (simp add: parse_hex_def number_bytes_decode from_str_radix_padded)

lemma flags_cases: "f < 16 \<Longrightarrow> (f :: u32) \<in> set (map word_of_nat [0..<16])"
proof -
  assume "f < 16"
  then have "unat f \<in> set [0..<16]" by (simp add: word_less_nat_alt)
  then have "word_of_nat (unat f) \<in> (word_of_nat ` set [0..<16] :: u32 set)" by (rule imageI)
  then show ?thesis by simp
qed

lemma parse_perm_bytes: "f < 16 \<Longrightarrow> parse_perms (perm_bytes f) = Some f"
  by (drule flags_cases)
    (auto simp: parse_perms_def perm_bytes_def flag_if_def FLAGS_READ_def FLAGS_WRITE_def FLAGS_EXEC_def
      FLAGS_SHARED_def upt_rec)

lemma perm_bytes_no_space: "32 \<notin> set (perm_bytes f)" "10 \<notin> set (perm_bytes f)"
  by (auto simp: perm_bytes_def)

lemma digit_not_white: "c \<in> {48..57} \<union> {97..102} \<Longrightarrow> \<not> white_space c"
  by (auto simp: white_space_def)

lemma inode_number: "n < 2 ^ 64 \<Longrightarrow> Option.bind (utf8_decode (number_bytes 0 10 n))
    (\<lambda>cs. from_str_radix (2 ^ 64) 10 (trim_by white_space cs)) = Some n"
proof -
  assume n: "n < 2 ^ 64"
  have r: "set (padded 0 10 n) \<subseteq> {48..57} \<union> {97..102}" by (intro padded_range) simp_all
  then have "\<not> white_space c" if "c \<in> set (padded 0 10 n)" for c
    using that by (intro digit_not_white) blast
  then have "padded 0 10 n \<noteq> [] \<Longrightarrow> \<not> white_space (hd (padded 0 10 n)) \<and> \<not> white_space (last (padded 0 10 n))"
    by simp
  then have "trim_by white_space (padded 0 10 n) = padded 0 10 n" by (rule trim_by_id)
  with n show ?thesis by (simp add: number_bytes_decode from_str_radix_padded)
qed

lemma splitn_6:
  assumes "32 \<notin> set a" "32 \<notin> set b" "32 \<notin> set c" "32 \<notin> set d" "32 \<notin> set (e :: u8 list)"
  shows "splitn 6 32 (a @ 32 # b @ 32 # c @ 32 # d @ 32 # e @ 32 # f) = [a, b, c, d, e, f]"
  using assms by (simp add: numeral_eq_Suc)

lemma parse_printed_line:
  assumes "entry_ok e"
  shows "parse_maps_line (maps_line_bytes pad e) = Some e"
proof -
  have n16: "32 \<notin> set (number_bytes w 16 n)" "45 \<notin> set (number_bytes w 16 n)" "58 \<notin> set (number_bytes w 16 n)"
    and n10: "32 \<notin> set (number_bytes w 10 n)" for w n
    using number_bytes_notin by simp_all
  have "splitn 6 32 (maps_line_bytes pad e) =
    [number_bytes 8 16 (unat (me_start e)) @ 45 # number_bytes 8 16 (unat (me_end e)), perm_bytes (me_flags e),
     number_bytes 8 16 (unat (me_offset e)),
     number_bytes 2 16 (unat (me_dev_major e)) @ 58 # number_bytes 2 16 (unat (me_dev_minor e)),
     number_bytes 0 10 (unat (me_inode e)), replicate pad 32 @ me_path e @ [10]]"
    using splitn_6 [of "number_bytes 8 16 (unat (me_start e)) @ 45 # number_bytes 8 16 (unat (me_end e))"
        "perm_bytes (me_flags e)" "number_bytes 8 16 (unat (me_offset e))"
        "number_bytes 2 16 (unat (me_dev_major e)) @ 58 # number_bytes 2 16 (unat (me_dev_minor e))"
        "number_bytes 0 10 (unat (me_inode e))" "replicate pad 32 @ me_path e @ [10]"]
      n16 n10 perm_bytes_no_space by (simp add: maps_line_bytes_def)
  moreover have "trim_by ascii_space (replicate pad 32 @ me_path e @ [10]) = me_path e"
    using assms by (intro trim_by_pad) (auto simp: entry_ok_def ascii_space_def)
  moreover have "parse_perms (perm_bytes (me_flags e)) = Some (me_flags e)"
    using assms by (intro parse_perm_bytes) (simp add: entry_ok_def)
  moreover obtain cs where "utf8_decode (number_bytes 0 10 (unat (me_inode e))) = Some cs"
    "from_str_radix (2 ^ 64) 10 (trim_by white_space cs) = Some (unat (me_inode e))"
    using inode_number [of "unat (me_inode e)"] unat_u64_less [of "me_inode e"] by (auto simp: bind_eq_Some_conv)
  moreover note parse_hex_number n16 unat_u64_less unat_u32_less
  ultimately show ?thesis
    by (simp add: parse_maps_line_def Let_def)
qed

text \<open>C20: a line of \<open>/proc/self/maps\<close>, as the kernel prints it with any padding before the path, is
  parsed back into its entry, for every address, permission, device, inode and every path without
  newlines that does not begin or end with white space.\<close>
theorem maps_line_roundtrip:
  assumes "entry_ok e"
  shows "parse_maps_line (maps_line_bytes pad e) = Some e"
  using assms by (rule parse_printed_line)

definition ex_maps_entry :: maps_entry where
  "ex_maps_entry = \<lparr>me_start = 0x7f1234560000, me_end = 0x7f1234580000, me_flags = 5, me_offset = 0x20000,
     me_dev_major = 8, me_dev_minor = 1, me_inode = 123456, me_path = bytes_of ''/usr/lib/libpython3.14.so.1.0''\<rparr>"

lemma ex_maps_entry_ok: "entry_ok ex_maps_entry"
  by (simp add: entry_ok_def ex_maps_entry_def bytes_of_def ascii_space_def)

lemma maps_line_roundtrip_witness: "parse_maps_line (maps_line_bytes 7 ex_maps_entry) = Some ex_maps_entry"
  by (rule maps_line_roundtrip [OF ex_maps_entry_ok])


end
