(* ===== verification/PythonOffsetsRepr.thy ===== *)
theory PythonOffsetsRepr
  imports PythonOffsetsTypes Bytes
begin

text \<open>
  The debug offsets in memory: both structs are \<open>#[repr(C)]\<close> with 64-bit fields only (the cookie is
  eight bytes), so field \<open>i\<close> is the \<open>i\<close>-th word.
\<close>

definition mem_word :: "u8 list \<Rightarrow> nat \<Rightarrow> u64" where
  "mem_word buf i = bytes_u64 (take 8 (drop (8 * i) buf))"

definition py314_offsets_size :: nat where "py314_offsets_size = 760"
definition py314_asyncio_size :: nat where "py314_asyncio_size = 104"

definition py314_offsets_of_repr :: "u8 list \<Rightarrow> py314_debug_offsets" where
  "py314_offsets_of_repr buf =
     (let w = mem_word buf in
      \<lparr>p4do_cookie = take 8 buf, p4do_version = w 1, p4do_free_threaded = w 2,
      p4do_runtime_state = \<lparr>p4rs_size = w 3, p4rs_finalizing = w 4,
      p4rs_interpreters_head = w 5\<rparr>, p4do_interpreter_state = \<lparr>p4is_size = w 6,
      p4is_id = w 7, p4is_next = w 8, p4is_threads_head = w 9, p4is_threads_main = w 10, p4is_gc
      = w 11, p4is_imports_modules = w 12, p4is_sysdict = w 13, p4is_builtins = w 14,
      p4is_ceval_gil = w 15, p4is_gil_runtime_state = w 16, p4is_gil_runtime_state_enabled = w
      17, p4is_gil_runtime_state_locked = w 18, p4is_gil_runtime_state_holder = w 19,
      p4is_code_object_generation = w 20, p4is_tlbc_generation = w 21\<rparr>, p4do_thread_state
      = \<lparr>p4ts_size = w 22, p4ts_prev = w 23, p4ts_next = w 24, p4ts_interp = w 25,
      p4ts_current_frame = w 26, p4ts_thread_id = w 27, p4ts_native_thread_id = w 28,
      p4ts_datastack_chunk = w 29, p4ts_status = w 30\<rparr>, p4do_interpreter_frame =
      \<lparr>p4if_size = w 31, p4if_previous = w 32, p4if_executable = w 33, p4if_instr_ptr = w
      34, p4if_localsplus = w 35, p4if_owner = w 36, p4if_stackpointer = w 37, p4if_tlbc_index =
      w 38\<rparr>, p4do_code_object = \<lparr>p4co_size = w 39, p4co_filename = w 40, p4co_name
      = w 41, p4co_qualname = w 42, p4co_linetable = w 43, p4co_firstlineno = w 44,
      p4co_argcount = w 45, p4co_localsplusnames = w 46, p4co_localspluskinds = w 47,
      p4co_co_code_adaptive = w 48, p4co_co_tlbc = w 49\<rparr>, p4do_pyobject =
      \<lparr>p4po_size = w 50, p4po_ob_type = w 51\<rparr>, p4do_type_object =
      \<lparr>p4to_size = w 52, p4to_tp_name = w 53, p4to_tp_repr = w 54, p4to_tp_flags = w
      55\<rparr>, p4do_tuple_object = \<lparr>p4tu_size = w 56, p4tu_ob_item = w 57,
      p4tu_ob_size = w 58\<rparr>, p4do_list_object = \<lparr>p4lo_size = w 59, p4lo_ob_item = w
      60, p4lo_ob_size = w 61\<rparr>, p4do_set_object = \<lparr>p4so_size = w 62, p4so_used = w
      63, p4so_table = w 64, p4so_mask = w 65\<rparr>, p4do_dict_object = \<lparr>p4di_size = w
      66, p4di_ma_keys = w 67, p4di_ma_values = w 68\<rparr>, p4do_float_object =
      \<lparr>p4fo_size = w 69, p4fo_ob_fval = w 70\<rparr>, p4do_long_object =
      \<lparr>p4ln_size = w 71, p4ln_lv_tag = w 72, p4ln_ob_digit = w 73\<rparr>,
      p4do_bytes_object = \<lparr>p4bo_size = w 74, p4bo_ob_size = w 75, p4bo_ob_sval = w
      76\<rparr>, p4do_unicode_object = \<lparr>p4uo_size = w 77, p4uo_state = w 78, p4uo_length
      = w 79, p4uo_asciiobject_size = w 80\<rparr>, p4do_gc = \<lparr>p4gc_size = w 81,
      p4gc_collecting = w 82\<rparr>, p4do_gen_object = \<lparr>p4go_size = w 83, p4go_gi_name =
      w 84, p4go_gi_iframe = w 85, p4go_gi_frame_state = w 86\<rparr>, p4do_llist_node =
      \<lparr>p4ll_next = w 87, p4ll_prev = w 88\<rparr>, p4do_debugger_support =
      \<lparr>p4ds_eval_breaker = w 89, p4ds_remote_debugger_support = w 90,
      p4ds_remote_debugging_enabled = w 91, p4ds_debugger_pending_call = w 92,
      p4ds_debugger_script_path = w 93, p4ds_debugger_script_path_size = w 94\<rparr>\<rparr>)"

definition py314_asyncio_of_repr :: "u8 list \<Rightarrow> py314_asyncio_offsets" where
  "py314_asyncio_of_repr buf =
     (let w = mem_word buf in
      \<lparr>p4ao_asyncio_task_object = \<lparr>p4at_size = w 0, p4at_task_name = w 1,
      p4at_task_awaited_by = w 2, p4at_task_is_task = w 3, p4at_task_awaited_by_is_set = w 4,
      p4at_task_coro = w 5, p4at_task_node = w 6\<rparr>, p4ao_asyncio_interpreter_state =
      \<lparr>p4ai_size = w 7, p4ai_asyncio_tasks_head = w 8\<rparr>, p4ao_asyncio_thread_state
      = \<lparr>p4ah_size = w 9, p4ah_asyncio_running_loop = w 10, p4ah_asyncio_running_task = w
      11, p4ah_asyncio_tasks_head = w 12\<rparr>\<rparr>)"

text \<open>The other way: the words of the structs, in order.\<close>

definition py314_offsets_words :: "py314_debug_offsets \<Rightarrow> u64 list" where
  "py314_offsets_words x =
     [p4do_version x, p4do_free_threaded x, p4rs_size (p4do_runtime_state x), p4rs_finalizing
      (p4do_runtime_state x), p4rs_interpreters_head (p4do_runtime_state x), p4is_size
      (p4do_interpreter_state x), p4is_id (p4do_interpreter_state x), p4is_next
      (p4do_interpreter_state x), p4is_threads_head (p4do_interpreter_state x),
      p4is_threads_main (p4do_interpreter_state x), p4is_gc (p4do_interpreter_state x),
      p4is_imports_modules (p4do_interpreter_state x), p4is_sysdict (p4do_interpreter_state x),
      p4is_builtins (p4do_interpreter_state x), p4is_ceval_gil (p4do_interpreter_state x),
      p4is_gil_runtime_state (p4do_interpreter_state x), p4is_gil_runtime_state_enabled
      (p4do_interpreter_state x), p4is_gil_runtime_state_locked (p4do_interpreter_state x),
      p4is_gil_runtime_state_holder (p4do_interpreter_state x), p4is_code_object_generation
      (p4do_interpreter_state x), p4is_tlbc_generation (p4do_interpreter_state x), p4ts_size
      (p4do_thread_state x), p4ts_prev (p4do_thread_state x), p4ts_next (p4do_thread_state x),
      p4ts_interp (p4do_thread_state x), p4ts_current_frame (p4do_thread_state x),
      p4ts_thread_id (p4do_thread_state x), p4ts_native_thread_id (p4do_thread_state x),
      p4ts_datastack_chunk (p4do_thread_state x), p4ts_status (p4do_thread_state x), p4if_size
      (p4do_interpreter_frame x), p4if_previous (p4do_interpreter_frame x), p4if_executable
      (p4do_interpreter_frame x), p4if_instr_ptr (p4do_interpreter_frame x), p4if_localsplus
      (p4do_interpreter_frame x), p4if_owner (p4do_interpreter_frame x), p4if_stackpointer
      (p4do_interpreter_frame x), p4if_tlbc_index (p4do_interpreter_frame x), p4co_size
      (p4do_code_object x), p4co_filename (p4do_code_object x), p4co_name (p4do_code_object x),
      p4co_qualname (p4do_code_object x), p4co_linetable (p4do_code_object x), p4co_firstlineno
      (p4do_code_object x), p4co_argcount (p4do_code_object x), p4co_localsplusnames
      (p4do_code_object x), p4co_localspluskinds (p4do_code_object x), p4co_co_code_adaptive
      (p4do_code_object x), p4co_co_tlbc (p4do_code_object x), p4po_size (p4do_pyobject x),
      p4po_ob_type (p4do_pyobject x), p4to_size (p4do_type_object x), p4to_tp_name
      (p4do_type_object x), p4to_tp_repr (p4do_type_object x), p4to_tp_flags (p4do_type_object
      x), p4tu_size (p4do_tuple_object x), p4tu_ob_item (p4do_tuple_object x), p4tu_ob_size
      (p4do_tuple_object x), p4lo_size (p4do_list_object x), p4lo_ob_item (p4do_list_object x),
      p4lo_ob_size (p4do_list_object x), p4so_size (p4do_set_object x), p4so_used
      (p4do_set_object x), p4so_table (p4do_set_object x), p4so_mask (p4do_set_object x),
      p4di_size (p4do_dict_object x), p4di_ma_keys (p4do_dict_object x), p4di_ma_values
      (p4do_dict_object x), p4fo_size (p4do_float_object x), p4fo_ob_fval (p4do_float_object x),
      p4ln_size (p4do_long_object x), p4ln_lv_tag (p4do_long_object x), p4ln_ob_digit
      (p4do_long_object x), p4bo_size (p4do_bytes_object x), p4bo_ob_size (p4do_bytes_object x),
      p4bo_ob_sval (p4do_bytes_object x), p4uo_size (p4do_unicode_object x), p4uo_state
      (p4do_unicode_object x), p4uo_length (p4do_unicode_object x), p4uo_asciiobject_size
      (p4do_unicode_object x), p4gc_size (p4do_gc x), p4gc_collecting (p4do_gc x), p4go_size
      (p4do_gen_object x), p4go_gi_name (p4do_gen_object x), p4go_gi_iframe (p4do_gen_object x),
      p4go_gi_frame_state (p4do_gen_object x), p4ll_next (p4do_llist_node x), p4ll_prev
      (p4do_llist_node x), p4ds_eval_breaker (p4do_debugger_support x),
      p4ds_remote_debugger_support (p4do_debugger_support x), p4ds_remote_debugging_enabled
      (p4do_debugger_support x), p4ds_debugger_pending_call (p4do_debugger_support x),
      p4ds_debugger_script_path (p4do_debugger_support x), p4ds_debugger_script_path_size
      (p4do_debugger_support x)]"

definition py314_asyncio_words :: "py314_asyncio_offsets \<Rightarrow> u64 list" where
  "py314_asyncio_words x =
     [p4at_size (p4ao_asyncio_task_object x), p4at_task_name (p4ao_asyncio_task_object x),
      p4at_task_awaited_by (p4ao_asyncio_task_object x), p4at_task_is_task
      (p4ao_asyncio_task_object x), p4at_task_awaited_by_is_set (p4ao_asyncio_task_object x),
      p4at_task_coro (p4ao_asyncio_task_object x), p4at_task_node (p4ao_asyncio_task_object x),
      p4ai_size (p4ao_asyncio_interpreter_state x), p4ai_asyncio_tasks_head
      (p4ao_asyncio_interpreter_state x), p4ah_size (p4ao_asyncio_thread_state x),
      p4ah_asyncio_running_loop (p4ao_asyncio_thread_state x), p4ah_asyncio_running_task
      (p4ao_asyncio_thread_state x), p4ah_asyncio_tasks_head (p4ao_asyncio_thread_state x)]"

definition words_repr :: "u64 list \<Rightarrow> u8 list" where
  "words_repr ws = concat (map u64_bytes ws)"

definition py314_offsets_repr :: "py314_debug_offsets \<Rightarrow> u8 list" where
  "py314_offsets_repr x = p4do_cookie x @ words_repr (py314_offsets_words x)"

definition py314_asyncio_repr :: "py314_asyncio_offsets \<Rightarrow> u8 list" where
  "py314_asyncio_repr x = words_repr (py314_asyncio_words x)"

lemma drop_words_repr: "drop (8 * i) (words_repr ws) = words_repr (drop i ws)"
proof (induction ws arbitrary: i)
  case Nil
  then show ?case by (simp add: words_repr_def)
next
  case (Cons w ws)
  then show ?case by (cases i) (simp_all add: words_repr_def)
qed

lemma length_words_repr [simp]: "length (words_repr ws) = 8 * length ws"
  by (induction ws) (simp_all add: words_repr_def)

lemma mem_word_repr: "i < length ws \<Longrightarrow> mem_word (words_repr ws) i = ws ! i"
  by (simp add: mem_word_def drop_words_repr Cons_nth_drop_Suc [symmetric]) (simp add: words_repr_def)

lemma mem_word_repr_after:
  assumes "length c = 8" and "0 < i" and "i \<le> length ws"
  shows "mem_word (c @ words_repr ws) i = ws ! (i - 1)"
proof -
  obtain j where j: "i = Suc j" using assms(2) by (cases i) auto
  have "drop (8 * i) (c @ words_repr ws) = drop (8 * j) (words_repr ws)" using assms(1) j by simp
  then show ?thesis using mem_word_repr [of j ws] assms(3) j by (simp add: mem_word_def)
qed

lemma py314_offsets_words_length: "length (py314_offsets_words x) = 94"
  by (simp add: py314_offsets_words_def)

lemma py314_offsets_of_repr_fields [simp]:
  "p4do_cookie (py314_offsets_of_repr buf) = take 8 buf"
  "p4do_version (py314_offsets_of_repr buf) = mem_word buf 1"
  "p4do_free_threaded (py314_offsets_of_repr buf) = mem_word buf 2"
  by (simp_all add: py314_offsets_of_repr_def Let_def)

lemmas py314_equality = py314_debug_offsets.equality
  py314_runtime_state.equality
  py314_interpreter_state.equality
  py314_thread_state.equality
  py314_interpreter_frame.equality
  py314_code_object.equality
  py314_pyobject.equality
  py314_type_object.equality
  py314_tuple_object.equality
  py314_list_object.equality
  py314_set_object.equality
  py314_dict_object.equality
  py314_float_object.equality
  py314_long_object.equality
  py314_bytes_object.equality
  py314_unicode_object.equality
  py314_gc.equality
  py314_gen_object.equality
  py314_llist_node.equality
  py314_debugger_support.equality
  py314_asyncio_offsets.equality
  py314_asyncio_task_object.equality
  py314_asyncio_interpreter_state.equality
  py314_asyncio_thread_state.equality

lemma py314_asyncio_roundtrip: "py314_asyncio_of_repr (py314_asyncio_repr x) = x"
proof -
  have w: "mem_word (py314_asyncio_repr x) i = py314_asyncio_words x ! i" if "i < 13" for i
    using that unfolding py314_asyncio_repr_def by (intro mem_word_repr) (simp add: py314_asyncio_words_def)
  show ?thesis
    unfolding py314_asyncio_of_repr_def Let_def
    by (intro py314_equality) (simp_all add: w, simp_all add: py314_asyncio_words_def)
qed

lemma py314_offsets_decode:
  assumes "length (p4do_cookie x) = 8"
  shows "py314_offsets_of_repr (p4do_cookie x @ words_repr (py314_offsets_words x)) = x"
proof -
  define buf where "buf = p4do_cookie x @ words_repr (py314_offsets_words x)"
  have w: "mem_word buf i = py314_offsets_words x ! (i - 1)" if "0 < i" "i < 95" for i
    using that assms unfolding buf_def by (intro mem_word_repr_after) (simp_all add: py314_offsets_words_length)
  have c: "take 8 buf = p4do_cookie x" using assms by (simp add: buf_def)
  have "py314_offsets_of_repr buf = x"
    unfolding py314_offsets_of_repr_def Let_def
    by (intro py314_equality) (simp_all add: w c, simp_all add: py314_offsets_words_def)
  then show ?thesis by (simp only: buf_def)
qed



end
