(* ===== verification/PythonOffsets.thy ===== *)
theory PythonOffsets
  imports PythonMaps PythonOffsetsRepr PySymbols
begin

text \<open>
  What the profiler must know of the running CPython (\<open>kit/python_offsets/src/lib.rs\<close>): its
  version, the addresses of four symbols of its binary, and its debug offsets. ELF files are
  parsed by the crate \<open>object\<close>: the parser is a parameter, and so are the files.
\<close>

section \<open>Version\<close>

definition COOKIE :: u64 where "COOKIE = 0x7970677562656478"

record python_version =
  pn_major :: u8
  pn_minor :: u8
  pn_micro :: u8

definition parse_version :: "u64 \<Rightarrow> python_version" where
  "parse_version version_hex =
     \<lparr>pn_major = ucast (drop_bit 24 version_hex AND 0xFF), pn_minor = ucast (drop_bit 16 version_hex AND 0xFF),
      pn_micro = ucast (drop_bit 8 version_hex AND 0xFF)\<rparr>"

definition detect_version :: "ks_ops \<Rightarrow> u64 \<Rightarrow> (python_version, offsets_error) res" where
  "detect_version ops py_version_addr =
     bind_res (map_err (\<lambda>_. UnsupportedVersion) (ko_u64 ops py_version_addr)) (\<lambda>raw.
     let version_hex = raw AND 0xFFFFFFFF;
         version = parse_version version_hex
     in if pn_major version \<noteq> 3 \<or> pn_minor version \<noteq> 14 then Err UnsupportedVersion else Ok version)"

definition read_version_hex :: "ks_ops \<Rightarrow> u64 \<Rightarrow> (u64, offsets_error) res" where
  "read_version_hex ops py_version_addr =
     bind_res (map_err (\<lambda>_. UnsupportedVersion) (ko_u64 ops py_version_addr)) (\<lambda>raw. Ok (raw AND 0xFFFFFFFF))"

section \<open>Symbols\<close>

text \<open>An object file as \<open>object\<close> presents it; a name may be unreadable.\<close>

record object_symbol =
  os_name :: "string option"
  os_address :: u64

record object_file =
  of_segments :: "u64 list"
  of_dynamic_symbols :: "object_symbol list"
  of_symbols :: "object_symbol list"
  of_sections :: "object_symbol list"

type_synonym elf_parser = "u8 list \<Rightarrow> object_file option"

text \<open>\<open>obj.segments().map(|s| s.address()).min().unwrap_or(0)\<close>\<close>

definition elf_base :: "object_file \<Rightarrow> u64" where
  "elf_base obj = (case of_segments obj of [] \<Rightarrow> 0 | a # as \<Rightarrow> fold min as a)"

record elf_symbols =
  ey_py_runtime :: u64
  ey_py_version :: u64
  ey_py_code_type :: u64
  ey_get_tstate :: u64

text \<open>The four variables of the loop.\<close>

record found_symbols =
  fy_runtime :: "u64 option"
  fy_version :: "u64 option"
  fy_code_type :: "u64 option"
  fy_tstate :: "u64 option"

definition note_symbol :: "u64 \<Rightarrow> object_symbol \<Rightarrow> found_symbols \<Rightarrow> found_symbols" where
  "note_symbol load_bias s f =
     (let addr = Some (os_address s + load_bias) in
      if os_name s = Some ''_PyRuntime'' then f\<lparr>fy_runtime := addr\<rparr>
      else if os_name s = Some ''Py_Version'' then f\<lparr>fy_version := addr\<rparr>
      else if os_name s = Some ''PyCode_Type'' then f\<lparr>fy_code_type := addr\<rparr>
      else if os_name s = Some ''_PyThreadState_GetCurrent'' then f\<lparr>fy_tstate := addr\<rparr>
      else f)"

definition all_found :: "found_symbols \<Rightarrow> bool" where
  "all_found f \<longleftrightarrow> fy_runtime f \<noteq> None \<and> fy_version f \<noteq> None \<and> fy_code_type f \<noteq> None \<and> fy_tstate f \<noteq> None"

fun scan_symbols :: "u64 \<Rightarrow> found_symbols \<Rightarrow> object_symbol list \<Rightarrow> found_symbols" where
  "scan_symbols load_bias f [] = f"
| "scan_symbols load_bias f (s # syms) =
     (let f' = note_symbol load_bias s f in
      if all_found f' then f' else scan_symbols load_bias f' syms)"

definition resolve_elf_symbols_from_bytes ::
    "elf_parser \<Rightarrow> u8 list \<Rightarrow> u64 \<Rightarrow> (elf_symbols, offsets_error) res" where
  "resolve_elf_symbols_from_bytes parse data mapped_base =
     bind_res (ok_or ElfParse (parse data)) (\<lambda>obj.
     let load_bias = mapped_base - elf_base obj;
         f = scan_symbols load_bias \<lparr>fy_runtime = None, fy_version = None, fy_code_type = None, fy_tstate = None\<rparr>
               (of_dynamic_symbols obj)
     in bind_res (ok_or (SymbolNotFound ''_PyRuntime'') (fy_runtime f)) (\<lambda>runtime.
        bind_res (ok_or (SymbolNotFound ''Py_Version'') (fy_version f)) (\<lambda>version.
        bind_res (ok_or (SymbolNotFound ''PyCode_Type'') (fy_code_type f)) (\<lambda>code_type.
        bind_res (ok_or (SymbolNotFound ''_PyThreadState_GetCurrent'') (fy_tstate f)) (\<lambda>tstate.
        Ok \<lparr>ey_py_runtime = runtime, ey_py_version = version, ey_py_code_type = code_type,
            ey_get_tstate = tstate\<rparr>)))))"

text \<open>Files: their content, by path, if they can be opened and mapped.\<close>

type_synonym mapped_files = "nat list \<Rightarrow> u8 list option"

definition resolve_elf_symbols ::
    "elf_parser \<Rightarrow> mapped_files \<Rightarrow> python_binary \<Rightarrow> (elf_symbols, offsets_error) res" where
  "resolve_elf_symbols parse files binary =
     bind_res (ok_or OffsetsIo (files (pb_path binary))) (\<lambda>data.
     resolve_elf_symbols_from_bytes parse data (pb_base binary))"

fun named :: "string \<Rightarrow> object_symbol list \<Rightarrow> u64 option" where
  "named n [] = None"
| "named n (s # ss) = (if os_name s = Some n then Some (os_address s) else named n ss)"

definition resolve_asyncio_debug_symbol_from_bytes ::
    "elf_parser \<Rightarrow> u8 list \<Rightarrow> u64 \<Rightarrow> (u64, offsets_error) res" where
  "resolve_asyncio_debug_symbol_from_bytes parse data mapped_base =
     bind_res (ok_or ElfParse (parse data)) (\<lambda>obj.
     let load_bias = mapped_base - elf_base obj in
     case named ''_AsyncioDebug'' (of_dynamic_symbols obj) of
       Some a \<Rightarrow> Ok (a + load_bias)
     | None \<Rightarrow> (case named ''_AsyncioDebug'' (of_symbols obj) of
         Some a \<Rightarrow> Ok (a + load_bias)
       | None \<Rightarrow> (case named ''.AsyncioDebug'' (of_sections obj) of
           Some a \<Rightarrow> Ok (a + load_bias)
         | None \<Rightarrow> Err (SymbolNotFound ''_AsyncioDebug''))))"

definition resolve_asyncio_debug_symbol ::
    "elf_parser \<Rightarrow> mapped_files \<Rightarrow> python_binary \<Rightarrow> (u64, offsets_error) res" where
  "resolve_asyncio_debug_symbol parse files binary =
     bind_res (ok_or OffsetsIo (files (pb_path binary))) (\<lambda>data.
     resolve_asyncio_debug_symbol_from_bytes parse data (pb_base binary))"

section \<open>Debug offsets\<close>

text \<open>\<open>parse_repr_c::<T>\<close>: \<open>size_t\<close> is the size of \<open>T\<close>, \<open>read\<close> the unaligned read of a \<open>T\<close>.\<close>

definition parse_repr_c ::
    "nat \<Rightarrow> (u8 list \<Rightarrow> 'a) \<Rightarrow> u8 list \<Rightarrow> u64 \<Rightarrow> ('a, offsets_error) res" where
  "parse_repr_c size_t read buf expected_version =
     (if length buf < size_t then Err DebugOffsetsMismatch
      else bind_res (slice_of buf 0 8) (\<lambda>cookie.
        if bytes_u64 cookie \<noteq> COOKIE then Err DebugOffsetsMismatch
        else bind_res (slice_of buf 8 16) (\<lambda>version.
          if bytes_u64 version \<noteq> expected_version then Err DebugOffsetsMismatch
          else bind_res (slice_of buf 16 24) (\<lambda>free_threaded.
            if bytes_u64 free_threaded \<noteq> 0 then Err DebugOffsetsMismatch else Ok (read buf)))))"

definition read_debug_offsets ::
    "ks_ops \<Rightarrow> u64 \<Rightarrow> python_version \<Rightarrow> u64 \<Rightarrow> (py314_debug_offsets, offsets_error) res" where
  "read_debug_offsets ops py_runtime_addr version version_hex =
     (if pn_minor version = 14 then
        (case ko_slice ops (replicate py314_offsets_size 0) py_runtime_addr of
           (r, buf) \<Rightarrow> bind_res (map_err (\<lambda>_. DebugOffsetsMismatch) r) (\<lambda>_.
             parse_repr_c py314_offsets_size py314_offsets_of_repr buf version_hex))
      else Err UnsupportedVersion)"

definition read_asyncio_debug_offsets :: "ks_ops \<Rightarrow> u64 \<Rightarrow> (py314_asyncio_offsets, offsets_error) res" where
  "read_asyncio_debug_offsets ops addr =
     (case ko_slice ops (replicate py314_asyncio_size 0) addr of
        (r, buf) \<Rightarrow> bind_res (map_err (\<lambda>_. DebugOffsetsMismatch) r) (\<lambda>_. Ok (py314_asyncio_of_repr buf)))"

section \<open>Correctness\<close>

text \<open>Version numbers survive their encoding.\<close>

definition version_hex_of :: "python_version \<Rightarrow> u8 \<Rightarrow> u64" where
  "version_hex_of v release =
     word_of_nat (unat (pn_major v) * 2 ^ 24 + unat (pn_minor v) * 2 ^ 16 + unat (pn_micro v) * 2 ^ 8 + unat release)"

lemma version_byte:
  assumes "unat (w :: u64) = a * 2 ^ (k + 8) + unat (b :: u8) * 2 ^ k + c" and "c < 2 ^ k"
  shows "ucast (drop_bit k w AND 0xFF) = b"
proof -
  have "unat (drop_bit k w) = unat w div 2 ^ k" unfolding unat_drop_bit_eq by (rule drop_bit_eq_div)
  also have "\<dots> = a * 256 + unat b"
  proof -
    have "unat w = (a * 256 + unat b) * 2 ^ k + c" using assms(1) by (simp add: power_add algebra_simps)
    then show ?thesis using assms(2) by simp
  qed
  finally have d: "unat (drop_bit k w) = a * 256 + unat b" .
  have "(0xFF :: u64) = mask 8" by (simp add: mask_eq_exp_minus_1)
  then have "drop_bit k w AND 0xFF = take_bit 8 (drop_bit k w)" by (simp add: take_bit_eq_mask)
  then have "unat (drop_bit k w AND 0xFF) = unat b"
    using d unat_u8_less [of b] by (simp add: take_bit_eq_mod unat_mod)
  then have "unat (ucast (drop_bit k w AND 0xFF) :: u8) = unat b"
    using unat_u8_less [of b] by (simp add: unsigned_ucast_eq take_bit_eq_mod)
  then show ?thesis by (simp add: word_unat_eq_iff)
qed

lemma parse_version_hex: "parse_version (version_hex_of v release) = v"
proof -
  let ?w = "version_hex_of v release"
  note b = unat_u8_less [of "pn_major v"] unat_u8_less [of "pn_minor v"] unat_u8_less [of "pn_micro v"] unat_u8_less [of release]
  have w: "unat ?w = unat (pn_major v) * 2 ^ 24 + unat (pn_minor v) * 2 ^ 16 + unat (pn_micro v) * 2 ^ 8 + unat release"
    using b unfolding version_hex_of_def unat_of_nat by (intro mod_less) simp
  have "ucast (drop_bit 24 ?w AND 0xFF) = pn_major v"
    by (rule version_byte [where a = 0 and c = "unat (pn_minor v) * 2 ^ 16 + unat (pn_micro v) * 2 ^ 8 + unat release"])
      (use w b in simp_all)
  moreover have "ucast (drop_bit 16 ?w AND 0xFF) = pn_minor v"
    by (rule version_byte [where a = "unat (pn_major v)" and c = "unat (pn_micro v) * 2 ^ 8 + unat release"])
      (use w b in simp_all)
  moreover have "ucast (drop_bit 8 ?w AND 0xFF) = pn_micro v"
    by (rule version_byte [where a = "unat (pn_major v) * 2 ^ 8 + unat (pn_minor v)" and c = "unat release"])
      (use w b in simp_all)
  ultimately show ?thesis by (simp add: parse_version_def)
qed

text \<open>The scan of the symbol table, where none of the four names occurs twice.\<close>

definition wanted :: "string list" where
  "wanted = [''_PyRuntime'', ''Py_Version'', ''PyCode_Type'', ''_PyThreadState_GetCurrent'']"

definition fy_get :: "found_symbols \<Rightarrow> string \<Rightarrow> u64 option" where
  "fy_get f n = (if n = ''_PyRuntime'' then fy_runtime f else if n = ''Py_Version'' then fy_version f
     else if n = ''PyCode_Type'' then fy_code_type f else if n = ''_PyThreadState_GetCurrent'' then fy_tstate f else None)"

definition occurs_once :: "object_symbol list \<Rightarrow> bool" where
  "occurs_once syms \<longleftrightarrow> (\<forall>n \<in> set wanted. length (filter (\<lambda>s. os_name s = Some n) syms) \<le> 1)"

lemma fy_get_note:
  "n \<in> set wanted \<Longrightarrow> fy_get (note_symbol bias s f) n = (if os_name s = Some n then Some (os_address s + bias) else fy_get f n)"
  by (auto simp: fy_get_def note_symbol_def wanted_def Let_def)

lemma all_found_get: "all_found f \<longleftrightarrow> (\<forall>n \<in> set wanted. fy_get f n \<noteq> None)"
  by (auto simp: all_found_def fy_get_def wanted_def)

lemma named_None_iff: "named n syms = None \<longleftrightarrow> filter (\<lambda>s. os_name s = Some n) syms = []"
  by (induction syms) auto

lemma scan_symbols_get:
  assumes "occurs_once syms" and "n \<in> set wanted"
    and "\<forall>k \<in> set wanted. fy_get f k \<noteq> None \<longrightarrow> named k syms = None"
  shows "fy_get (scan_symbols bias f syms) n =
    (case fy_get f n of Some a \<Rightarrow> Some a | None \<Rightarrow> map_option (\<lambda>a. a + bias) (named n syms))"
  using assms
proof (induction syms arbitrary: f)
  case Nil
  then show ?case by (simp split: option.split)
next
  case (Cons s syms)
  let ?f = "note_symbol bias s f"
  have once: "occurs_once syms" using Cons.prems(1) by (fastforce simp: occurs_once_def split: if_splits)
  have rest: "\<forall>k \<in> set wanted. fy_get ?f k \<noteq> None \<longrightarrow> named k syms = None"
  proof (intro ballI impI)
    fix k assume k: "k \<in> set wanted" "fy_get ?f k \<noteq> None"
    show "named k syms = None"
    proof (cases "os_name s = Some k")
      case True
      with Cons.prems(1) k(1) have "length (filter (\<lambda>s. os_name s = Some k) syms) = 0"
        by (force simp: occurs_once_def)
      then show ?thesis by (simp add: named_None_iff)
    next
      case False
      with k Cons.prems(3) show ?thesis by (auto simp: fy_get_note split: if_splits)
    qed
  qed
  have res: "fy_get ?f n = (if os_name s = Some n then Some (os_address s + bias) else fy_get f n)"
    by (rule fy_get_note [OF Cons.prems(2)])
  have known: "os_name s = Some n \<Longrightarrow> fy_get f n = None"
    using Cons.prems(2,3) by fastforce
  show ?case
  proof (cases "all_found ?f")
    case True
    then have "fy_get ?f n \<noteq> None" using Cons.prems(2) by (simp add: all_found_get)
    with True res known show ?thesis by (auto simp: Let_def split: option.split if_splits)
  next
    case False
    with Cons.IH [OF once Cons.prems(2) rest] res known show ?thesis
      by (auto simp: Let_def split: option.split if_splits)
  qed
qed

text \<open>C18: the four addresses are those of the symbols in the file, moved by the distance between
  where the file is mapped and where it wants to be; the first one missing, in the order of the
  checks, is reported.\<close>
theorem elf_symbols_relocated:
  assumes "parse data = Some obj" and "occurs_once (of_dynamic_symbols obj)"
  shows "resolve_elf_symbols_from_bytes parse data base =
    (case map (\<lambda>n. (n, named n (of_dynamic_symbols obj))) wanted of
       [(_, Some r), (_, Some v), (_, Some c), (_, Some t)] \<Rightarrow>
         (let bias = base - elf_base obj in
          Ok \<lparr>ey_py_runtime = r + bias, ey_py_version = v + bias, ey_py_code_type = c + bias, ey_get_tstate = t + bias\<rparr>)
     | xs \<Rightarrow> Err (SymbolNotFound (fst (hd (filter (\<lambda>x. snd x = None) xs)))))"
proof -
  let ?f = "\<lparr>fy_runtime = None, fy_version = None, fy_code_type = None, fy_tstate = None\<rparr>"
  let ?s = "scan_symbols (base - elf_base obj) ?f (of_dynamic_symbols obj)"
  have g: "fy_get ?s n = map_option (\<lambda>a. a + (base - elf_base obj)) (named n (of_dynamic_symbols obj))"
    if "n \<in> set wanted" for n
    using scan_symbols_get [OF assms(2) that, of ?f] by (simp add: fy_get_def)
  have g': "fy_runtime ?s = map_option (\<lambda>a. a + (base - elf_base obj)) (named ''_PyRuntime'' (of_dynamic_symbols obj))"
    "fy_version ?s = map_option (\<lambda>a. a + (base - elf_base obj)) (named ''Py_Version'' (of_dynamic_symbols obj))"
    "fy_code_type ?s = map_option (\<lambda>a. a + (base - elf_base obj)) (named ''PyCode_Type'' (of_dynamic_symbols obj))"
    "fy_tstate ?s = map_option (\<lambda>a. a + (base - elf_base obj)) (named ''_PyThreadState_GetCurrent'' (of_dynamic_symbols obj))"
    using g [of "''_PyRuntime''"] g [of "''Py_Version''"] g [of "''PyCode_Type''"] g [of "''_PyThreadState_GetCurrent''"]
    by (simp_all add: fy_get_def wanted_def)
  show ?thesis
    using assms(1)
    by (cases "named ''_PyRuntime'' (of_dynamic_symbols obj)"; cases "named ''Py_Version'' (of_dynamic_symbols obj)";
        cases "named ''PyCode_Type'' (of_dynamic_symbols obj)";
        cases "named ''_PyThreadState_GetCurrent'' (of_dynamic_symbols obj)")
      (simp_all add: resolve_elf_symbols_from_bytes_def Let_def g' wanted_def)
qed

definition ex_object :: object_file where
  "ex_object = \<lparr>of_segments = [0x1000, 0x400], of_dynamic_symbols =
     [\<lparr>os_name = None, os_address = 1\<rparr>, \<lparr>os_name = Some ''Py_Version'', os_address = 0x61c1b0\<rparr>,
      \<lparr>os_name = Some ''_PyRuntime'', os_address = 0x71bd00\<rparr>, \<lparr>os_name = Some ''PyCode_Type'', os_address = 0x6e2b60\<rparr>,
      \<lparr>os_name = Some ''_PyThreadState_GetCurrent'', os_address = 0x2d2140\<rparr>], of_symbols = [], of_sections = []\<rparr>"

lemma elf_symbols_relocated_witness:
  "resolve_elf_symbols_from_bytes (\<lambda>_. Some ex_object) [] 0x7f0000000400 =
     Ok \<lparr>ey_py_runtime = 0x7f000071bd00, ey_py_version = 0x7f000061c1b0, ey_py_code_type = 0x7f00006e2b60,
         ey_get_tstate = 0x7f00002d2140\<rparr>"
proof -
  have "occurs_once (of_dynamic_symbols ex_object)" by (simp add: occurs_once_def wanted_def ex_object_def)
  from elf_symbols_relocated [of "\<lambda>_. Some ex_object" "[]", OF refl this, of "0x7f0000000400"] show ?thesis
    by (simp add: wanted_def ex_object_def elf_base_def)
qed

text \<open>C15: the debug offsets are accepted exactly when the version is 3.14, all bytes of the struct can
  be read, it begins with the cookie, and it is for the running version and not for a free-threaded
  build; then they are the fields of the struct in memory. Nothing else is an answer, and nothing panics.\<close>
theorem read_debug_offsets_iff:
  assumes "layout_ok 6 7 L" and "signals_ok m"
  shows "(read_debug_offsets (x86_ops L g dst m) addr version hex = Ok offs \<longleftrightarrow>
      pn_minor version = 14 \<and> fault_addr m addr py314_offsets_size = None
      \<and> offs = py314_offsets_of_repr (mem_bytes m addr py314_offsets_size)
      \<and> bytes_u64 (p4do_cookie offs) = COOKIE \<and> p4do_version offs = hex \<and> p4do_free_threaded offs = 0)
    \<and> read_debug_offsets (x86_ops L g dst m) addr version hex \<noteq> Panic"
proof -
  let ?buf = "replicate py314_offsets_size 0 :: u8 list" and ?b = "mem_bytes m addr py314_offsets_size"
  have len: "length ?buf < 2 ^ 32" by (simp only: length_replicate py314_offsets_size_def) simp
  have words: "mem_word b (Suc 0) = bytes_u64 (take 8 (drop 8 b))" "mem_word b 2 = bytes_u64 (take 8 (drop 16 b))" for b
    by (simp_all add: mem_word_def)
  show ?thesis
  proof (cases "fault_addr m addr py314_offsets_size")
    case None
    then have "fault_addr m addr (length ?buf) = None" by (simp only: length_replicate)
    from x86_ops_slice [OF assms(1) len this, of g dst]
    have "ko_slice (x86_ops L g dst m) ?buf addr = (Ok (), ?b)" by (simp only: length_replicate)
    with None show ?thesis
      unfolding read_debug_offsets_def parse_repr_c_def
      by (auto simp: slice_of_def words py314_offsets_size_def)
  next
    case (Some a)
    then have f: "fault_addr m addr (length ?buf) = Some a" by (simp only: length_replicate)
    from x86.slice_fault [OF assms(1) len this assms(2), of g dst] obtain buf' where
      "ko_slice (x86_ops L g dst m) ?buf addr = (Err (ReadMemError (scast (mem_signal m a))), buf')"
      by (auto simp: x86_ops_def)
    with Some show ?thesis by (simp add: read_debug_offsets_def)
  qed
qed

text \<open>An image of the example offsets in memory.\<close>

definition ex_offsets_314 :: py314_debug_offsets where
  "ex_offsets_314 = ex_offsets\<lparr>p4do_cookie := u64_bytes COOKIE, p4do_version := 0x030e00f0\<rparr>"

lemma read_debug_offsets_iff_witness:
  "read_debug_offsets (x86_ops ex_layout (\<lambda>_. 0) 0 (bytes_memory 0x7000 (py314_offsets_repr ex_offsets_314))) 0x7000
     \<lparr>pn_major = 3, pn_minor = 14, pn_micro = 0\<rparr> 0x030e00f0 = Ok ex_offsets_314"
proof -
  let ?bs = "py314_offsets_repr ex_offsets_314"
  have c: "p4do_cookie ex_offsets_314 = u64_bytes COOKIE" "p4do_version ex_offsets_314 = 0x030e00f0"
    "p4do_free_threaded ex_offsets_314 = 0"
    using ex_offsets_ft by (simp_all add: ex_offsets_314_def)
  have len: "length ?bs = py314_offsets_size"
    unfolding py314_offsets_repr_def by (simp add: c py314_offsets_words_length py314_offsets_size_def)
  then have small: "length ?bs < 2 ^ 64" by (simp add: py314_offsets_size_def)
  have "py314_offsets_of_repr ?bs = ex_offsets_314"
    unfolding py314_offsets_repr_def by (rule py314_offsets_decode) (simp add: c)
  then show ?thesis
    using read_debug_offsets_iff [OF ex_layout_ok(1) bytes_memory_signals, where ?offs = ex_offsets_314]
      bytes_memory_reads [OF small, of "0x7000"] len c by simp
qed

end
