(* ===== verification/KindasafeArm.thy ===== *)
theory KindasafeArm
  imports CrashHandler
begin

text \<open>
  The AArch64 routines of \<open>kit/kindasafe/src/lib.rs\<close>, instruction by instruction, with the
  signal handler run at every fault: they keep the promise of \<open>guarded_loads\<close> for every
  buffer.
\<close>

datatype arm_instr =
    LdrX0 | MovX1Zero | RetArm
  | CbzX2 u64 | LdrbW3 | StrbW3 | SubsX2 | BneBack u64 | MovX0Zero

definition arm_u64_code :: "(arm_instr \<times> u64) list" where
  "arm_u64_code = [(LdrX0, 4), (MovX1Zero, 4), (RetArm, 4)]"

text \<open>The branches carry their distance: label 2 is at offset 20, label 1 at offset 4.\<close>

definition arm_slice_code :: "(arm_instr \<times> u64) list" where
  "arm_slice_code = [(CbzX2 20, 4), (LdrbW3, 4), (StrbW3, 4), (SubsX2, 4), (BneBack 12, 4),
     (MovX0Zero, 4), (RetArm, 4)]"

record arm_state =
  actx :: arm_context
  azero :: bool
  abuf :: "u8 list"

definition arm_fetch :: "code_layout \<Rightarrow> u64 \<Rightarrow> (arm_instr \<times> u64) option" where
  "arm_fetch L pc =
     (case fetch_at (u64_at L) arm_u64_code pc of
        Some i \<Rightarrow> Some i
      | None \<Rightarrow> fetch_at (slice_at L) arm_slice_code pc)"

text \<open>A load with post-increment that faults leaves its base register alone. \<open>w3\<close> is the low
  half of \<open>x3\<close>; \<open>subs\<close> sets the zero flag.\<close>

definition arm_exec :: "memory \<Rightarrow> u64 \<Rightarrow> arm_instr \<Rightarrow> u64 \<Rightarrow> arm_state \<Rightarrow> arm_state machine_step" where
  "arm_exec m dst i n s =
     (let r = arm_regs (actx s); pc = arm_pc (actx s);
          go = (\<lambda>r'. Next (s\<lparr>actx := \<lparr>arm_regs = r', arm_pc = pc + n\<rparr>\<rparr>)) in
      case i of
        LdrX0 \<Rightarrow>
          (case fault_addr m (r 0) 8 of
             Some a \<Rightarrow> Fault (mem_signal m a)
           | None \<Rightarrow> go (r(0 := bytes_u64 (mem_bytes m (r 0) 8))))
      | MovX1Zero \<Rightarrow> go (r(1 := 0))
      | MovX0Zero \<Rightarrow> go (r(0 := 0))
      | RetArm \<Rightarrow> Done s
      | CbzX2 d \<Rightarrow> if r 2 = 0 then Next (s\<lparr>actx := \<lparr>arm_regs = r, arm_pc = pc + d\<rparr>\<rparr>) else go r
      | LdrbW3 \<Rightarrow>
          (case mem_byte m (r 1) of
             None \<Rightarrow> Fault (mem_signal m (r 1))
           | Some b \<Rightarrow> go (r(3 := ucast b, 1 := r 1 + 1)))
      | StrbW3 \<Rightarrow>
          (let k = unat (r 0 - dst) in
           if k < length (abuf s)
           then Next (s\<lparr>actx := \<lparr>arm_regs = r(0 := r 0 + 1), arm_pc = pc + n\<rparr>,
                       abuf := (abuf s)[k := ucast (r 3)]\<rparr>)
           else Wild)
      | SubsX2 \<Rightarrow>
          Next (s\<lparr>actx := \<lparr>arm_regs = r(2 := r 2 - 1), arm_pc = pc + n\<rparr>, azero := (r 2 - 1 = 0)\<rparr>)
      | BneBack d \<Rightarrow>
          if azero s then go r else Next (s\<lparr>actx := \<lparr>arm_regs = r, arm_pc = pc - d\<rparr>\<rparr>))"

definition arm_step :: "code_layout \<Rightarrow> memory \<Rightarrow> u64 \<Rightarrow> arm_state \<Rightarrow> arm_state machine_step" where
  "arm_step L m dst s =
     (case arm_fetch L (arm_pc (actx s)) of None \<Rightarrow> Wild | Some (i, n) \<Rightarrow> arm_exec m dst i n s)"

fun arm_run :: "code_layout \<Rightarrow> memory \<Rightarrow> u64 \<Rightarrow> nat \<Rightarrow> arm_state \<Rightarrow> arm_state outcome option" where
  "arm_run L m dst 0 s = None"
| "arm_run L m dst (Suc fuel) s =
     (case arm_step L m dst s of
        Next s' \<Rightarrow> arm_run L m dst fuel s'
      | Done s' \<Rightarrow> Some (Returned s')
      | Wild \<Rightarrow> Some Fallback
      | Fault sig \<Rightarrow>
          (case arm_crash_handler (arm_crash_points L) sig (actx s) of
             None \<Rightarrow> Some Fallback
           | Some c \<Rightarrow> arm_run L m dst fuel (s\<lparr>actx := c\<rparr>)))"

text \<open>The calls, in the AAPCS64 convention: arguments and results in x0, x1, x2. The copy takes
  four instructions per byte and three more.\<close>

definition arm_u64 :: "code_layout \<Rightarrow> (nat \<Rightarrow> u64) \<Rightarrow> memory \<Rightarrow> u64 \<Rightarrow> u64_res outcome" where
  "arm_u64 L r m at =
     (case arm_run L m 0 4 \<lparr>actx = \<lparr>arm_regs = r(0 := at), arm_pc = u64_at L\<rparr>, azero = False, abuf = []\<rparr> of
        Some (Returned s) \<Rightarrow> Returned (U64Res (arm_regs (actx s) 0) (arm_regs (actx s) 1))
      | _ \<Rightarrow> Fallback)"

definition arm_slice :: "code_layout \<Rightarrow> (nat \<Rightarrow> u64) \<Rightarrow> u64 \<Rightarrow> arch_slice" where
  "arm_slice L r dst m buf at n =
     (case arm_run L m dst (4 * unat n + 3)
             \<lparr>actx = \<lparr>arm_regs = r(0 := dst, 1 := at, 2 := n), arm_pc = slice_at L\<rparr>, azero = False, abuf = buf\<rparr> of
        Some (Returned s) \<Rightarrow> Returned (VecResult (arm_regs (actx s) 0), abuf s)
      | _ \<Rightarrow> Fallback)"

section \<open>Correctness\<close>

lemma arm_fetch_u64:
  "arm_fetch L (u64_at L) = Some (LdrX0, 4)"
  "arm_fetch L (u64_at L + 4) = Some (MovX1Zero, 4)"
  "arm_fetch L (u64_at L + 8) = Some (RetArm, 4)"
  by (simp_all add: arm_fetch_def arm_u64_code_def)

lemma arm_fetch_slice:
  assumes "layout_ok 12 28 L" and "i \<in> {0, 4, 8, 12, 16, 20, 24}"
  shows "arm_fetch L (slice_at L + i) = fetch_at (slice_at L) arm_slice_code (slice_at L + i)"
proof -
  have "slice_at L + i \<in> set (addrs (slice_at L) 28)"
    using assms(2) by auto
  moreover have "{u64_at L, u64_at L + 4, u64_at L + 8} \<subseteq> set (addrs (u64_at L) 12)"
    by simp
  ultimately have "slice_at L + i \<notin> {u64_at L, u64_at L + 4, u64_at L + 8}"
    using assms(1) unfolding layout_ok_def by blast
  then show ?thesis by (simp add: arm_fetch_def arm_u64_code_def add.assoc)
qed

lemma arm_fetch_slice_simps:
  assumes "layout_ok 12 28 L"
  shows "arm_fetch L (slice_at L) = Some (CbzX2 20, 4)" "arm_fetch L (slice_at L + 4) = Some (LdrbW3, 4)"
    "arm_fetch L (slice_at L + 8) = Some (StrbW3, 4)" "arm_fetch L (slice_at L + 12) = Some (SubsX2, 4)"
    "arm_fetch L (slice_at L + 16) = Some (BneBack 12, 4)" "arm_fetch L (slice_at L + 20) = Some (MovX0Zero, 4)"
    "arm_fetch L (slice_at L + 24) = Some (RetArm, 4)"
  using arm_fetch_slice [OF assms, of 0] arm_fetch_slice [OF assms, of 4] arm_fetch_slice [OF assms, of 8]
    arm_fetch_slice [OF assms, of 12] arm_fetch_slice [OF assms, of 16] arm_fetch_slice [OF assms, of 20]
    arm_fetch_slice [OF assms, of 24]
  by (simp_all add: arm_slice_code_def add.assoc)

lemma arm_u64_readable:
  assumes "fault_addr m at 8 = None"
  shows "arm_u64 L r m at = Returned (U64Res (bytes_u64 (mem_bytes m at 8)) 0)"
  using assms by (simp add: arm_u64_def numeral_eq_Suc arm_step_def arm_exec_def arm_fetch_u64 Let_def add.assoc)

lemma arm_u64_fault:
  assumes "fault_addr m at 8 = Some a"
  shows "\<exists>v. arm_u64 L r m at = Returned (U64Res v (scast (mem_signal m a)))"
  using assms
  by (simp add: arm_u64_def numeral_eq_Suc arm_step_def arm_exec_def arm_fetch_u64 Let_def add.assoc
      arm_crash_points_def)

lemma arm_slice_not_u64:
  assumes "layout_ok 12 28 L"
  shows "u64_at L \<noteq> slice_at L + 4"
proof -
  have "u64_at L \<in> set (addrs (u64_at L) 12)" "slice_at L + 4 \<in> set (addrs (slice_at L) 28)"
    by simp_all
  with assms show ?thesis unfolding layout_ok_def by (metis disjoint_iff)
qed

text \<open>The loop from label 1 on, with \<open>Suc k\<close> bytes left and \<open>i\<close> copied.\<close>

lemma arm_copy_loop:
  assumes ok: "layout_ok 12 28 L" and "Suc k < 2 ^ 64" and "i + Suc k \<le> length buf" and "length buf < 2 ^ 64"
    and "r 2 = word_of_nat (Suc k)" and "r 1 = src" and "r 0 = dst + word_of_nat i"
  shows "\<exists>s. arm_run L m dst (4 * k + 6) \<lparr>actx = \<lparr>arm_regs = r, arm_pc = slice_at L + 4\<rparr>, azero = z, abuf = buf\<rparr>
      = Some (Returned s) \<and> length (abuf s) = length buf \<and>
    (case fault_addr m src (Suc k) of
       None \<Rightarrow> arm_regs (actx s) 0 = 0 \<and> abuf s = take i buf @ mem_bytes m src (Suc k) @ drop (i + Suc k) buf
     | Some a \<Rightarrow> arm_regs (actx s) 0 = scast (mem_signal m a))"
  using assms(2-)
proof (induction k arbitrary: i buf r src z)
  case 0
  have idx: "unat (word_of_nat i :: u64) = i"
    using 0(2,3) by (simp add: unat_of_nat)
  have fuel: "4 * 0 + 6 = Suc (Suc (Suc (Suc (Suc (Suc 0)))))" by simp
  note F = arm_fetch_slice_simps [OF ok]
  show ?case
  proof (cases "mem_byte m src")
    case None
    with 0(4-) arm_slice_not_u64 [OF ok] show ?thesis
      unfolding fuel by (simp add: fault_addr_Suc arm_step_def arm_exec_def F Let_def add.assoc arm_crash_points_def)
  next
    case (Some b)
    with 0(2,4-) idx show ?thesis
      unfolding fuel by (simp add: fault_addr_Suc mem_bytes_Suc arm_step_def arm_exec_def F Let_def add.assoc
          upd_conv_take_nth_drop)
  qed
next
  case (Suc k)
  have idx: "unat (word_of_nat i :: u64) = i"
    using Suc.prems(2,3) by (simp add: unat_of_nat)
  have nz: "(word_of_nat (Suc k) :: u64) \<noteq> 0"
    using Suc.prems(1) by (simp add: word_unat_eq_iff unat_of_nat del: of_nat_Suc)
  have fuel: "4 * Suc k + 6 = Suc (Suc (Suc (Suc (4 * k + 6))))" by simp
  note F = arm_fetch_slice_simps [OF ok]
  show ?case
  proof (cases "mem_byte m src")
    case None
    obtain j where fuel': "4 * Suc k + 6 = Suc (Suc j)" by (metis fuel)
    from None Suc.prems(4-) arm_slice_not_u64 [OF ok] show ?thesis
      unfolding fuel' by (simp add: fault_addr_Suc arm_step_def arm_exec_def F Let_def add.assoc arm_crash_points_def
          del: of_nat_Suc)
  next
    case (Some b)
    let ?r = "r(3 := ucast b, 1 := src + 1, 0 := dst + word_of_nat (Suc i), 2 := word_of_nat (Suc k))"
    let ?s = "\<lparr>actx = \<lparr>arm_regs = ?r, arm_pc = slice_at L + 4\<rparr>, azero = False, abuf = buf[i := b]\<rparr>"
    have ih: "\<exists>s. arm_run L m dst (4 * k + 6) ?s = Some (Returned s) \<and> length (abuf s) = length (buf[i := b]) \<and>
      (case fault_addr m (src + 1) (Suc k) of
         None \<Rightarrow> arm_regs (actx s) 0 = 0 \<and>
           abuf s = take (Suc i) (buf[i := b]) @ mem_bytes m (src + 1) (Suc k) @ drop (Suc i + Suc k) (buf[i := b])
       | Some a \<Rightarrow> arm_regs (actx s) 0 = scast (mem_signal m a))"
      using Suc.prems by (intro Suc.IH) simp_all
    have dec: "r 2 - 1 = word_of_nat (Suc k)" using Suc.prems(4) by simp
    have "arm_run L m dst (Suc (Suc (Suc (Suc f))))
        \<lparr>actx = \<lparr>arm_regs = r, arm_pc = slice_at L + 4\<rparr>, azero = z, abuf = buf\<rparr> = arm_run L m dst f ?s" for f
      using Suc.prems(2,5-) nz idx Some dec
      by (simp add: arm_step_def arm_exec_def F Let_def add.assoc del: of_nat_Suc)
        (simp add: add.commute)
    from this [of "4 * k + 6"] have "arm_run L m dst (4 * Suc k + 6)
        \<lparr>actx = \<lparr>arm_regs = r, arm_pc = slice_at L + 4\<rparr>, azero = z, abuf = buf\<rparr> = arm_run L m dst (4 * k + 6) ?s"
      by (simp only: fuel)
    moreover have "take (Suc i) (buf[i := b]) = take i buf @ [b]"
      using Suc.prems(2) by (simp add: take_Suc_conv_app_nth)
    ultimately show ?thesis
      using ih Some Suc.prems(2)
      by (auto simp: fault_addr_Suc [of m src "Suc k"] mem_bytes_Suc [of m src "Suc k"] split: option.splits)
  qed
qed

lemma arm_slice_run:
  assumes ok: "layout_ok 12 28 L" and "length buf < 2 ^ 64"
  shows "\<exists>v buf'. arm_slice L r dst m buf at (word_of_nat (length buf)) = Returned (VecResult v, buf')
    \<and> length buf' = length buf \<and>
    (case fault_addr m at (length buf) of
       None \<Rightarrow> v = 0 \<and> buf' = mem_bytes m at (length buf)
     | Some a \<Rightarrow> v = scast (mem_signal m a))"
proof (cases "length buf")
  case 0
  note F = arm_fetch_slice_simps [OF ok]
  from 0 have "buf = []" by simp
  then show ?thesis
    by (simp add: arm_slice_def numeral_3_eq_3 arm_step_def arm_exec_def F Let_def add.assoc)
next
  case (Suc k)
  let ?n = "word_of_nat (Suc k) :: u64"
  note F = arm_fetch_slice_simps [OF ok]
  have n: "unat ?n = Suc k" using assms(2) Suc by (simp add: unat_of_nat del: of_nat_Suc)
  then have nz: "?n \<noteq> 0" by (simp add: word_unat_eq_iff del: of_nat_Suc)
  let ?r = "r(0 := dst, 1 := at, 2 := ?n)"
  obtain s where s: "arm_run L m dst (4 * k + 6)
      \<lparr>actx = \<lparr>arm_regs = ?r, arm_pc = slice_at L + 4\<rparr>, azero = False, abuf = buf\<rparr> = Some (Returned s)"
    "length (abuf s) = length buf"
    "case fault_addr m at (Suc k) of
       None \<Rightarrow> arm_regs (actx s) 0 = 0 \<and> abuf s = take 0 buf @ mem_bytes m at (Suc k) @ drop (0 + Suc k) buf
     | Some a \<Rightarrow> arm_regs (actx s) 0 = scast (mem_signal m a)"
    using arm_copy_loop [OF ok, of k 0 buf ?r "at" dst m False] assms(2) Suc by auto
  have fuel: "4 * unat ?n + 3 = Suc (4 * k + 6)" using n by simp
  have "arm_step L m dst \<lparr>actx = \<lparr>arm_regs = ?r, arm_pc = slice_at L\<rparr>, azero = False, abuf = buf\<rparr>
      = Next \<lparr>actx = \<lparr>arm_regs = ?r, arm_pc = slice_at L + 4\<rparr>, azero = False, abuf = buf\<rparr>"
    using nz by (simp add: arm_step_def arm_exec_def F Let_def del: of_nat_Suc)
  then have "arm_slice L r dst m buf at ?n = Returned (VecResult (arm_regs (actx s) 0), abuf s)"
    unfolding arm_slice_def fuel arm_run.simps(2) using s(1) by (simp del: of_nat_Suc)
  with s(2,3) Suc show ?thesis
    by (intro exI [of _ "arm_regs (actx s) 0"] exI [of _ "abuf s"]) (simp split: option.splits)
qed

interpretation arm: guarded_loads "arm_u64 L r" "arm_slice L r dst" "2 ^ 64" "layout_ok 12 28 L" for L r dst
proof (standard, goal_cases)
  case (1 m at)
  then show ?case by (simp add: arm_u64_readable)
next
  case (2 m at a)
  then show ?case by (simp add: arm_u64_fault)
next
  case (3 buf m at)
  with arm_slice_run [OF 3(1,2), of r dst m at] show ?case by auto
next
  case (4 buf m at a)
  with arm_slice_run [OF 4(1,2), of r dst m at] show ?case by auto
qed

end
