(* ===== verification/KindasafeInit.thy ===== *)
theory KindasafeInit
  imports KindasafeX86 KindasafeArm
begin

text \<open>
  \<open>kit/kindasafe_init/src/lib.rs\<close>: installing the crash handler once, remembering the
  handlers it replaces, passing on the signals that are not its own, and the sanity check.
\<close>

datatype init_error = InstallSignalHandlersFailed | SanityCheckFailed

record sigaction =
  sa_sigaction :: u64
  sa_mask :: u64
  sa_flags :: u32

definition sigaction_zeroed :: sigaction where
  "sigaction_zeroed = \<lparr>sa_sigaction = 0, sa_mask = 0, sa_flags = 0\<rparr>"

definition SIGBUS :: u32 where "SIGBUS = 7"
definition SIGSEGV :: u32 where "SIGSEGV = 11"
definition SA_SIGINFO :: u32 where "SA_SIGINFO = 4"
definition SA_RESTART :: u32 where "SA_RESTART = 0x10000000"

text \<open>The process: its statics, the dispositions the kernel keeps, and a counter of the
  \<open>sigaction\<close> calls made, each of which may fail (\<open>fails\<close>, a parameter).\<close>

record process =
  pr_init_lock :: "(unit, init_error) res option"
  pr_fallback_sigsegv :: sigaction
  pr_fallback_sigbus :: sigaction
  pr_disposition :: "u32 \<Rightarrow> sigaction"
  pr_calls :: nat

type_synonym failures = "nat \<Rightarrow> bool"

definition process_start :: "(u32 \<Rightarrow> sigaction) \<Rightarrow> process" where
  "process_start d = \<lparr>pr_init_lock = None, pr_fallback_sigsegv = sigaction_zeroed,
     pr_fallback_sigbus = sigaction_zeroed, pr_disposition = d, pr_calls = 0\<rparr>"

text \<open>The system call: the old disposition, and the new one set when there is one.\<close>

definition sys_sigaction ::
    "failures \<Rightarrow> u32 \<Rightarrow> sigaction option \<Rightarrow> process \<Rightarrow> sigaction option \<times> process" where
  "sys_sigaction fails sig new p =
     (let p1 = p\<lparr>pr_calls := pr_calls p + 1\<rparr> in
      if fails (pr_calls p) then (None, p1)
      else (Some (pr_disposition p sig),
            (case new of None \<Rightarrow> p1
             | Some a \<Rightarrow> p1\<lparr>pr_disposition := (pr_disposition p1)(sig := a)\<rparr>)))"

definition new_signal_handler ::
    "failures \<Rightarrow> u32 \<Rightarrow> u64 \<Rightarrow> process \<Rightarrow> (sigaction, unit) res \<times> process" where
  "new_signal_handler fails sig handler p =
     (case sys_sigaction fails sig None p of
        (None, p1) \<Rightarrow> (Err (), p1)
      | (Some old, p1) \<Rightarrow>
          let new = old\<lparr>sa_sigaction := handler, sa_flags := sa_flags old OR SA_RESTART OR SA_SIGINFO\<rparr> in
          (case sys_sigaction fails sig (Some new) p1 of
             (None, p2) \<Rightarrow> (Err (), p2)
           | (Some old2, p2) \<Rightarrow> (Ok old2, p2)))"

definition init_locked :: "failures \<Rightarrow> u64 \<Rightarrow> process \<Rightarrow> (unit, init_error) res \<times> process" where
  "init_locked fails crash_handler p =
     (case new_signal_handler fails SIGSEGV crash_handler p of
        (Ok old, p1) \<Rightarrow>
          let p2 = p1\<lparr>pr_fallback_sigsegv := old\<rparr> in
          (case new_signal_handler fails SIGBUS crash_handler p2 of
             (Ok old', p3) \<Rightarrow> (Ok (), p3\<lparr>pr_fallback_sigbus := old'\<rparr>)
           | (_, p3) \<Rightarrow> (Err InstallSignalHandlersFailed, p3))
      | (_, p1) \<Rightarrow> (Err InstallSignalHandlersFailed, p1))"

definition is_initialized :: "process \<Rightarrow> (unit, init_error) res option" where
  "is_initialized p = pr_init_lock p"

definition ks_init :: "failures \<Rightarrow> u64 \<Rightarrow> process \<Rightarrow> (unit, init_error) res \<times> process" where
  "ks_init fails crash_handler p =
     (case pr_init_lock p of
        Some prev \<Rightarrow> (prev, p)
      | None \<Rightarrow>
          (case init_locked fails crash_handler p of
             (r, p1) \<Rightarrow> (r, p1\<lparr>pr_init_lock := Some r\<rparr>)))"

section \<open>Passing signals on\<close>

text \<open>What becomes of a signal: the interrupted code goes on with a changed context, another
  handler is called, the default disposition is restored, or nothing happens.\<close>

datatype 'c delivery = Resume 'c | CallHandler u64 | RestoredDefault | Ignored

definition restore_default_signal_handler :: "failures \<Rightarrow> u32 \<Rightarrow> process \<Rightarrow> process" where
  "restore_default_signal_handler fails sig p = snd (sys_sigaction fails sig (Some sigaction_zeroed) p)"

definition call_fallback :: "failures \<Rightarrow> u32 \<Rightarrow> sigaction \<Rightarrow> process \<Rightarrow> 'c delivery \<times> process" where
  "call_fallback fails sig fb p =
     (if sa_sigaction fb = 0 then (RestoredDefault, restore_default_signal_handler fails sig p)
      else (CallHandler (sa_sigaction fb), p))"

definition fallback :: "failures \<Rightarrow> u32 \<Rightarrow> process \<Rightarrow> 'c delivery \<times> process" where
  "fallback fails sig p =
     (if sig = SIGSEGV then call_fallback fails sig (pr_fallback_sigsegv p) p
      else if sig = SIGBUS then call_fallback fails sig (pr_fallback_sigbus p) p
      else (Ignored, p))"

text \<open>\<open>crash_handler\<close>: the crash points, else the fallback.\<close>

definition x86_on_crash :: "failures \<Rightarrow> code_layout \<Rightarrow> u32 \<Rightarrow> gregs \<Rightarrow> process \<Rightarrow> gregs delivery \<times> process" where
  "x86_on_crash fails L sig ctx p =
     (case x86_crash_handler (x86_crash_points L) sig ctx of
        Some ctx' \<Rightarrow> (Resume ctx', p)
      | None \<Rightarrow> fallback fails sig p)"

definition arm_on_crash ::
    "failures \<Rightarrow> code_layout \<Rightarrow> u32 \<Rightarrow> arm_context \<Rightarrow> process \<Rightarrow> arm_context delivery \<times> process" where
  "arm_on_crash fails L sig ctx p =
     (case arm_crash_handler (arm_crash_points L) sig ctx of
        Some ctx' \<Rightarrow> (Resume ctx', p)
      | None \<Rightarrow> fallback fails sig p)"

section \<open>Sanity check\<close>

text \<open>\<open>mapped\<close> is the outcome of the \<open>mmap\<close> of a page without access rights.\<close>

definition sanity_check ::
    "u64 option \<Rightarrow> (u64 \<Rightarrow> (u64, read_mem_error) res outcome) \<Rightarrow> (unit, init_error) res outcome" where
  "sanity_check mapped read =
     (case mapped of
        None \<Rightarrow> Returned (Err SanityCheckFailed)
      | Some page \<Rightarrow>
          (case read page of
             Fallback \<Rightarrow> Fallback
           | Returned (Ok v) \<Rightarrow> Returned (Err SanityCheckFailed)
           | Returned (Err e) \<Rightarrow> Returned (Ok ())
           | Returned Panic \<Rightarrow> Returned Panic))"

section \<open>Lemmas\<close>

lemmas ks_init_defs = ks_init_def init_locked_def new_signal_handler_def sys_sigaction_def Let_def

lemma SIG_distinct [simp]: "SIGSEGV \<noteq> SIGBUS" "SIGBUS \<noteq> SIGSEGV"
  by (simp_all add: SIGSEGV_def SIGBUS_def)

text \<open>The first call decides; later calls repeat its answer and change nothing.\<close>

lemma ks_init_memo:
  "ks_init fails h p = (r, p1) \<Longrightarrow> ks_init fails' h' p1 = (r, p1) \<and> is_initialized p1 = Some r"
  by (auto simp: ks_init_def is_initialized_def split: option.splits prod.splits)

text \<open>A successful first call leaves both signals with the crash handler, all other
  dispositions alone, and remembers what was there before.\<close>

lemma ks_init_ok:
  assumes "pr_init_lock p = None" and "ks_init fails h p = (Ok (), p1)"
  shows "sa_sigaction (pr_disposition p1 SIGSEGV) = h" "sa_sigaction (pr_disposition p1 SIGBUS) = h"
    "pr_fallback_sigsegv p1 = pr_disposition p SIGSEGV" "pr_fallback_sigbus p1 = pr_disposition p SIGBUS"
    "sig \<noteq> SIGSEGV \<Longrightarrow> sig \<noteq> SIGBUS \<Longrightarrow> pr_disposition p1 sig = pr_disposition p sig"
  using assms by (auto simp: ks_init_defs split: if_splits)

lemma ks_init_no_failure:
  assumes "pr_init_lock p = None" and "\<And>n. n < 4 \<Longrightarrow> \<not> fails (pr_calls p + n)"
  shows "fst (ks_init fails h p) = Ok ()"
  using assms(1) assms(2) [of 0] assms(2) [of 1] assms(2) [of 2] assms(2) [of 3]
  by (simp add: ks_init_defs numeral_3_eq_3)

lemma ks_init_result: "pr_init_lock p = None \<Longrightarrow> fst (ks_init fails h p) \<in> {Ok (), Err InstallSignalHandlersFailed}"
  by (auto simp: ks_init_defs)

section \<open>Reading foreign memory is safe\<close>

text \<open>C14: reading eight bytes of any memory through the machine code of either architecture
  returns: with the value if all bytes can be read, with the signal of the first byte that cannot
  otherwise; the signal never reaches the handler that was installed before.\<close>
theorem kindasafe_u64_safe:
  assumes "layout_ok 6 7 Lx" and "layout_ok 12 28 La" and "signals_ok m"
  shows "ks_u64 (x86_u64 Lx g) m at = Returned (read_u64 m at)
    \<and> ks_u64 (arm_u64 La r) m at = Returned (read_u64 m at)"
  using x86.u64_total [OF assms(1,3)] arm.u64_total [OF assms(2,3)] by blast

text \<open>A page of which sixteen bytes can be read.\<close>

definition ex_memory :: memory where
  "ex_memory = \<lparr>mem_byte = (\<lambda>a. if 4096 \<le> a \<and> a < 4112 then Some (ucast a) else None), mem_signal = (\<lambda>a. 11)\<rparr>"

lemma ex_memory_signals: "signals_ok ex_memory"
  by (simp add: signals_ok_def ex_memory_def)

lemma kindasafe_u64_safe_witness:
  "ks_u64 (x86_u64 ex_layout (\<lambda>_. 0)) ex_memory 4096 = Returned (Ok 0x0706050403020100)
   \<and> ks_u64 (arm_u64 ex_layout (\<lambda>_. 0)) ex_memory 4105 = Returned (Err (ReadMemError 11))"
proof -
  have "read_u64 ex_memory 4096 = Ok 0x0706050403020100" "read_u64 ex_memory 4105 = Err (ReadMemError 11)"
    by (simp_all add: read_u64_def fault_addr_def mem_bytes_def addrs_8 ex_memory_def bytes_u64_def)
  with kindasafe_u64_safe [OF ex_layout_ok ex_memory_signals] show ?thesis by metis
qed

text \<open>What a copy may give.\<close>

definition slice_outcome :: "memory \<Rightarrow> u8 list \<Rightarrow> u64 \<Rightarrow> ((unit, read_mem_error) res \<times> u8 list) outcome \<Rightarrow> bool" where
  "slice_outcome m buf at = (\<lambda>res. case res of
     Fallback \<Rightarrow> False
   | Returned (r, buf') \<Rightarrow> length buf' = length buf \<and>
       (case fault_addr m at (length buf) of
          None \<Rightarrow> r = Ok () \<and> buf' = mem_bytes m at (length buf)
        | Some a \<Rightarrow> r = Err (ReadMemError (scast (mem_signal m a)))))"

text \<open>C16: copying into a buffer of less than 4 GiB through the machine code of either architecture
  returns, leaves the length of the buffer alone, and gives all the bytes or the signal of the
  first one that cannot be read.\<close>
theorem kindasafe_slice_safe:
  assumes "layout_ok 6 7 Lx" and "layout_ok 12 28 La" and "signals_ok m" and "length buf < 2 ^ 32"
  shows "slice_outcome m buf at (ks_slice (x86_slice Lx g dst) m buf at)
    \<and> slice_outcome m buf at (ks_slice (arm_slice La r dst') m buf at)"
proof -
  have len: "length buf < 2 ^ 64" using assms(4) by simp
  show ?thesis
  proof (cases "fault_addr m at (length buf)")
    case None
    with x86.slice_readable [OF assms(1,4) None, of g dst] arm.slice_readable [OF assms(2) len None, of r dst']
    show ?thesis by (simp add: slice_outcome_def)
  next
    case (Some a)
    with x86.slice_fault [OF assms(1,4) Some assms(3), of g dst] arm.slice_fault [OF assms(2) len Some assms(3), of r dst']
    show ?thesis by (auto simp: slice_outcome_def)
  qed
qed

lemma kindasafe_slice_safe_witness:
  "slice_outcome ex_memory [7, 7, 7] 4110 (ks_slice (x86_slice ex_layout (\<lambda>_. 0) 0) ex_memory [7, 7, 7] 4110)
   \<and> fault_addr ex_memory 4110 3 = Some 4112"
proof -
  have "fault_addr ex_memory 4110 3 = Some 4112"
    using addrs_3 [of 4110] by (simp add: fault_addr_def ex_memory_def)
  moreover have "length [7, 7, 7 :: u8] < 2 ^ 32" by simp
  ultimately show ?thesis using kindasafe_slice_safe [OF ex_layout_ok ex_memory_signals, of "[7, 7, 7]"] by blast
qed

text \<open>C32: the first \<open>init\<close> decides: later calls, whatever would happen to them, repeat its answer
  and change nothing. If it succeeded, the crash handler is installed for the two signals and for
  no other, and the handlers it replaced are those that foreign faults will be passed to.\<close>
theorem kindasafe_init_once:
  assumes "pr_init_lock p = None" and "ks_init fails h p = (r, p1)"
  shows "ks_init fails' h' p1 = (r, p1) \<and> is_initialized p1 = Some r
    \<and> (r = Ok () \<or> r = Err InstallSignalHandlersFailed)
    \<and> (r = Ok () \<longrightarrow> (\<forall>sig. (if sig = SIGSEGV \<or> sig = SIGBUS then sa_sigaction (pr_disposition p1 sig) = h
          else pr_disposition p1 sig = pr_disposition p sig))
        \<and> pr_fallback_sigsegv p1 = pr_disposition p SIGSEGV \<and> pr_fallback_sigbus p1 = pr_disposition p SIGBUS)"
proof -
  have "r = Ok () \<or> r = Err InstallSignalHandlersFailed"
    using ks_init_result [OF assms(1), of fails h] assms(2) by auto
  with ks_init_memo [OF assms(2)] ks_init_ok [OF assms(1)] assms(2) show ?thesis
    by auto
qed

definition ex_process :: process where
  "ex_process = process_start (\<lambda>sig. \<lparr>sa_sigaction = ucast sig, sa_mask = 0, sa_flags = 0\<rparr>)"

lemma kindasafe_init_once_witness:
  "\<exists>p1. ks_init (\<lambda>_. False) 0x4000 ex_process = (Ok (), p1) \<and> is_initialized p1 = Some (Ok ())
    \<and> sa_sigaction (pr_disposition p1 11) = 0x4000 \<and> sa_sigaction (pr_fallback_sigsegv p1) = 11"
proof -
  obtain r p1 where i: "ks_init (\<lambda>_. False) 0x4000 ex_process = (r, p1)" by fastforce
  have l: "pr_init_lock ex_process = None" by code_simp
  have ok: "r = Ok ()"
    using ks_init_no_failure [OF l, of "\<lambda>_. False" "0x4000"] i by simp
  have "sa_sigaction (pr_disposition ex_process SIGSEGV) = 11" by code_simp
  with kindasafe_init_once [OF l i] ok i show ?thesis by (auto simp: SIGSEGV_def split: if_splits)
qed

end
