(* ===== verification/Notlibc.thy ===== *)
theory Notlibc
  imports TextParse
begin

text \<open>
  System calls without libc (\<open>kit/notlibc/src\<close>): the results of calls, the auxiliary vector, the
  page size, anonymous mappings, hexadecimal output. A system call is
  its number and its arguments; what the kernel answers is a parameter.
\<close>

section \<open>Calls\<close>

definition SYS_READ :: u64 where "SYS_READ = 0"
definition SYS_WRITE :: u64 where "SYS_WRITE = 1"
definition SYS_CLOSE :: u64 where "SYS_CLOSE = 3"
definition SYS_MMAP :: u64 where "SYS_MMAP = 9"
definition SYS_MPROTECT :: u64 where "SYS_MPROTECT = 10"
definition SYS_MUNMAP :: u64 where "SYS_MUNMAP = 11"
definition SYS_GETTID :: u64 where "SYS_GETTID = 186"
definition SYS_EPOLL_WAIT :: u64 where "SYS_EPOLL_WAIT = 232"
definition SYS_EPOLL_CTL :: u64 where "SYS_EPOLL_CTL = 233"
definition SYS_OPENAT :: u64 where "SYS_OPENAT = 257"
definition SYS_EVENTFD2 :: u64 where "SYS_EVENTFD2 = 290"
definition SYS_EPOLL_CREATE1 :: u64 where "SYS_EPOLL_CREATE1 = 291"

datatype sys_call = SysCall (sc_nr: u64) (sc_args: "u64 list")

type_synonym kernel = "sys_call \<Rightarrow> i64"

text \<open>\<open>mmap::check\<close>: a negative result is an error number.\<close>

definition sys_check :: "i64 \<Rightarrow> (i64, i32) res" where
  "sys_check ret = (if ret <s 0 then Err (ucast (- ret)) else Ok ret)"

definition gettid :: "kernel \<Rightarrow> u32" where
  "gettid k = ucast (k (SysCall SYS_GETTID [0]))"

section \<open>The auxiliary vector\<close>

datatype auxv_scan = Stop "u64 option" | More

text \<open>\<open>while i + ENTRY_SIZE <= available.len()\<close>\<close>

function scan_auxv :: "u64 \<Rightarrow> u8 list \<Rightarrow> auxv_scan" where
  "scan_auxv tag available =
     (if length available < 16 then More
      else
        let a_type = bytes_u64 (take 8 available);
            a_val = bytes_u64 (take 8 (drop 8 available))
        in if a_type = 0 then Stop None
           else if a_type = tag then Stop (Some a_val)
           else scan_auxv tag (drop 16 available))"
  by pat_completeness auto
termination
  by (relation "measure (\<lambda>(tag, available). length available)") auto

declare scan_auxv.simps [simp del]

text \<open>The reads of the file, in turn; an empty one is its end.\<close>

fun getauxval_loop :: "u64 \<Rightarrow> (u8 list, i32) res list \<Rightarrow> u64 option" where
  "getauxval_loop tag (Ok buf # reads) =
     (if buf = [] then None
      else (case scan_auxv tag buf of Stop r \<Rightarrow> r | More \<Rightarrow> getauxval_loop tag reads))"
| "getauxval_loop tag _ = None"

definition getauxval :: "i64 \<Rightarrow> (u8 list, i32) res list \<Rightarrow> u64 \<Rightarrow> u64 option" where
  "getauxval opened reads tag =
     (case sys_check opened of
        Ok fd \<Rightarrow> getauxval_loop tag reads
      | _ \<Rightarrow> None)"

definition AT_PAGESZ :: u64 where "AT_PAGESZ = 6"

text \<open>The page size, cached in a static that is zero at first.\<close>

definition page_size :: "u64 \<Rightarrow> u64 option \<Rightarrow> u64 \<times> u64" where
  "page_size cached auxv =
     (if cached = 0 then (let ps = (case auxv of None \<Rightarrow> 4096 | Some v \<Rightarrow> v) in (ps, ps)) else (cached, cached))"

text \<open>A vector as the kernel writes it.\<close>

definition auxv_bytes :: "(u64 \<times> u64) list \<Rightarrow> u8 list" where
  "auxv_bytes es = concat (map (\<lambda>(t, v). u64_bytes t @ u64_bytes v) es)"

lemma scan_auxv_Cons:
  "scan_auxv tag (auxv_bytes ((t, v) # es)) =
     (if t = 0 then Stop None else if t = tag then Stop (Some v) else scan_auxv tag (auxv_bytes es))"
  by (subst scan_auxv.simps) (simp add: auxv_bytes_def Let_def)

lemma scan_auxv_Nil: "scan_auxv tag (auxv_bytes []) = More"
  by (subst scan_auxv.simps) (simp add: auxv_bytes_def)

definition auxv_lookup :: "u64 \<Rightarrow> (u64 \<times> u64) list \<Rightarrow> u64 option" where
  "auxv_lookup tag es = map_of (takeWhile (\<lambda>e. fst e \<noteq> 0) es) tag"

lemma scan_auxv_list:
  "scan_auxv tag (auxv_bytes es) =
     (if \<forall>e \<in> set es. fst e \<noteq> 0 \<and> fst e \<noteq> tag then More else Stop (auxv_lookup tag es))"
proof (induction es)
  case Nil
  then show ?case by (simp add: scan_auxv_Nil)
next
  case (Cons e es)
  then show ?case by (cases e) (auto simp: scan_auxv_Cons auxv_lookup_def)
qed

lemma auxv_lookup_append:
  "\<forall>e \<in> set es. fst e \<noteq> 0 \<and> fst e \<noteq> tag \<Longrightarrow> auxv_lookup tag (es @ fs) = auxv_lookup tag fs"
  by (induction es) (auto simp: auxv_lookup_def)

lemma auxv_lookup_stop:
  "\<not> (\<forall>e \<in> set es. fst e \<noteq> 0 \<and> fst e \<noteq> tag) \<Longrightarrow> auxv_lookup tag (es @ fs) = auxv_lookup tag es"
  by (induction es) (auto simp: auxv_lookup_def)

lemma auxv_bytes_nonempty: "es \<noteq> [] \<Longrightarrow> auxv_bytes es \<noteq> []"
  by (cases es) (auto simp: auxv_bytes_def dest: arg_cong [of _ _ length])

lemma getauxval_loop_chunks:
  assumes "\<forall>c \<in> set chunks. c \<noteq> []"
  shows "getauxval_loop tag (map (\<lambda>c. Ok (auxv_bytes c)) chunks) = auxv_lookup tag (concat chunks)"
  using assms
proof (induction chunks)
  case Nil
  then show ?case by (simp add: auxv_lookup_def)
next
  case (Cons c chunks)
  show ?case
  proof (cases "\<forall>e \<in> set c. fst e \<noteq> 0 \<and> fst e \<noteq> tag")
    case True
    with Cons show ?thesis by (simp add: auxv_bytes_nonempty scan_auxv_list auxv_lookup_append)
  next
    case False
    from auxv_lookup_stop [OF this] have "auxv_lookup tag (c @ concat chunks) = auxv_lookup tag c" .
    moreover have "scan_auxv tag (auxv_bytes c) = Stop (auxv_lookup tag c)"
      using False by (simp only: scan_auxv_list if_False)
    ultimately show ?thesis using Cons.prems by (simp add: auxv_bytes_nonempty)
  qed
qed

text \<open>However the kernel cuts the auxiliary vector into reads of whole entries, \<open>getauxval\<close>
  gives the value of the first entry with the tag before the terminator, if there is one.\<close>
theorem getauxval_finds:
  assumes "\<forall>c \<in> set chunks. c \<noteq> []" and "0 <=s opened"
  shows "getauxval opened (map (\<lambda>c. Ok (auxv_bytes c)) chunks) tag = auxv_lookup tag (concat chunks)"
  using getauxval_loop_chunks [OF assms(1)] assms(2)
  by (simp add: getauxval_def sys_check_def word_sle_eq word_sless_alt)

lemma getauxval_finds_witness:
  "getauxval 3 (map (\<lambda>c. Ok (auxv_bytes c)) [[(3, 0x40)], [(6, 4096), (0, 0), (6, 1)]]) AT_PAGESZ = Some 4096"
proof -
  have "(0 :: i64) <=s 3" by code_simp
  with getauxval_finds [of "[[(3, 0x40)], [(6, 4096), (0, 0), (6, 1)]]" 3 AT_PAGESZ] show ?thesis
    by (simp add: auxv_lookup_def AT_PAGESZ_def)
qed

section \<open>Mappings\<close>

definition PROT_READ :: u64 where "PROT_READ = 1"
definition PROT_WRITE :: u64 where "PROT_WRITE = 2"
definition PROT_EXEC :: u64 where "PROT_EXEC = 4"
definition MAP_PRIVATE :: u64 where "MAP_PRIVATE = 2"
definition MAP_ANONYMOUS :: u64 where "MAP_ANONYMOUS = 32"

record mmap_inner =
  mi_ptr :: u64
  mi_len :: u64

text \<open>The guard for 32-bit targets is dead code on the targets of this module.\<close>

definition map_anon_call :: "u64 \<Rightarrow> u64 \<Rightarrow> sys_call" where
  "map_anon_call len prot = SysCall SYS_MMAP [0, max len 1, prot, MAP_PRIVATE OR MAP_ANONYMOUS, -1, 0]"

definition map_anon :: "kernel \<Rightarrow> u64 \<Rightarrow> u64 \<Rightarrow> (mmap_inner, i32) res" where
  "map_anon k len prot =
     bind_res (sys_check (k (map_anon_call len prot))) (\<lambda>ptr. Ok \<lparr>mi_ptr = ptr, mi_len = len\<rparr>)"

definition mmap_base_and_len :: "u64 \<Rightarrow> mmap_inner \<Rightarrow> u64 \<times> u64" where
  "mmap_base_and_len page m =
     (let offset = mi_ptr m mod page in (mi_ptr m - offset, max (mi_len m + offset) 1))"

definition mprotect_call :: "u64 \<Rightarrow> mmap_inner \<Rightarrow> u64 \<Rightarrow> sys_call" where
  "mprotect_call page m prot =
     (let (base, map_len) = mmap_base_and_len page m in SysCall SYS_MPROTECT [base, map_len, prot])"

definition drop_call :: "u64 \<Rightarrow> mmap_inner \<Rightarrow> sys_call" where
  "drop_call page m = (let (base, map_len) = mmap_base_and_len page m in SysCall SYS_MUNMAP [base, map_len])"

text \<open>\<open>make_mut\<close>, \<open>make_read_only\<close> and \<open>make_exec\<close> consume the map: when the call fails the map is
  dropped. The result comes with the calls made.\<close>

definition change_prot :: "kernel \<Rightarrow> u64 \<Rightarrow> u64 \<Rightarrow> mmap_inner \<Rightarrow> (mmap_inner, i32) res \<times> sys_call list" where
  "change_prot k page prot m =
     (case sys_check (k (mprotect_call page m prot)) of
        Ok _ \<Rightarrow> (Ok m, [mprotect_call page m prot])
      | Err e \<Rightarrow> (Err e, [mprotect_call page m prot, drop_call page m])
      | Panic \<Rightarrow> (Panic, []))"

definition mmap_map_anon :: "kernel \<Rightarrow> u64 \<Rightarrow> (mmap_inner, i32) res" where
  "mmap_map_anon k len = map_anon k len PROT_READ"

definition mmap_mut_map_anon :: "kernel \<Rightarrow> u64 \<Rightarrow> (mmap_inner, i32) res" where
  "mmap_mut_map_anon k len = map_anon k len (PROT_READ OR PROT_WRITE)"

definition make_mut :: "kernel \<Rightarrow> u64 \<Rightarrow> mmap_inner \<Rightarrow> (mmap_inner, i32) res \<times> sys_call list" where
  "make_mut k page m = change_prot k page (PROT_READ OR PROT_WRITE) m"

definition make_read_only :: "kernel \<Rightarrow> u64 \<Rightarrow> mmap_inner \<Rightarrow> (mmap_inner, i32) res \<times> sys_call list" where
  "make_read_only k page m = change_prot k page PROT_READ m"

definition make_exec :: "kernel \<Rightarrow> u64 \<Rightarrow> mmap_inner \<Rightarrow> (mmap_inner, i32) res \<times> sys_call list" where
  "make_exec k page m = change_prot k page (PROT_READ OR PROT_EXEC) m"

text \<open>What \<open>map_anon\<close> maps is what the drop of the map, whether at its end or after a failed
  change of protection, unmaps: the same base and length, given that the kernel's mappings are
  page aligned; and no change of protection alters the map.\<close>
theorem mapping_balanced:
  assumes "map_anon k len prot = Ok m" and "mi_ptr m mod page = 0"
    and "base = k (map_anon_call len prot)" and "n = sc_args (map_anon_call len prot) ! 1"
  shows "1 \<le> n \<and> len \<le> n \<and> drop_call page m = SysCall SYS_MUNMAP [base, n]
    \<and> (case change_prot k page prot' m of
         (Ok m', calls) \<Rightarrow> m' = m \<and> calls = [SysCall SYS_MPROTECT [base, n, prot']]
       | (Err e, calls) \<Rightarrow> calls = [SysCall SYS_MPROTECT [base, n, prot'], SysCall SYS_MUNMAP [base, n]]
       | (Panic, _) \<Rightarrow> False)"
proof -
  have m: "m = \<lparr>mi_ptr = base, mi_len = len\<rparr>"
    using assms(1, 3) by (auto simp: map_anon_def sys_check_def split: if_splits)
  have n: "n = max len 1" using assms(4) by (simp add: map_anon_call_def)
  with m assms(2) have b: "mmap_base_and_len page m = (base, n)"
    by (simp add: mmap_base_and_len_def)
  with n show ?thesis
    by (simp add: drop_call_def mprotect_call_def change_prot_def sys_check_def)
qed

text \<open>A kernel that maps and refuses every change of protection.\<close>

definition ex_kernel :: kernel where
  "ex_kernel c = (if sc_nr c = SYS_MMAP then 0x7f0000001000 else - 12)"

lemma mapping_balanced_witness:
  "map_anon ex_kernel 0 PROT_READ = Ok \<lparr>mi_ptr = 0x7f0000001000, mi_len = 0\<rparr>
    \<and> drop_call 4096 \<lparr>mi_ptr = 0x7f0000001000, mi_len = 0\<rparr> = SysCall SYS_MUNMAP [0x7f0000001000, 1]"
proof -
  let ?m = "\<lparr>mi_ptr = 0x7f0000001000, mi_len = 0\<rparr> :: mmap_inner"
  have "\<not> (0x7f0000001000 :: i64) <s 0" by code_simp
  then have ok: "map_anon ex_kernel 0 PROT_READ = Ok ?m"
    by (simp add: map_anon_def map_anon_call_def sys_check_def ex_kernel_def)
  have "mi_ptr ?m mod 4096 = 0" by simp
  from mapping_balanced [OF ok this, of "0x7f0000001000" 1] ok show ?thesis
    by (simp add: map_anon_call_def ex_kernel_def)
qed

text \<open>The bytes of a map, as a slice to read and to write through. A store outside panics.\<close>

definition mmap_deref :: "(u64 \<Rightarrow> u8) \<Rightarrow> mmap_inner \<Rightarrow> u8 list" where
  "mmap_deref mem m = map (\<lambda>i. mem (mi_ptr m + word_of_nat i)) [0..<unat (mi_len m)]"

definition mmap_store :: "(u64 \<Rightarrow> u8) \<Rightarrow> mmap_inner \<Rightarrow> nat \<Rightarrow> u8 \<Rightarrow> (u64 \<Rightarrow> u8, unit) res" where
  "mmap_store mem m i b = (if i < unat (mi_len m) then Ok (mem(mi_ptr m + word_of_nat i := b)) else Panic)"

lemma offset_inj: "i < 2 ^ 64 \<Longrightarrow> j < 2 ^ 64 \<Longrightarrow> (p :: u64) + word_of_nat i = p + word_of_nat j \<longleftrightarrow> i = j"
proof -
  assume "i < 2 ^ 64" "j < 2 ^ 64"
  then have "(word_of_nat i :: u64) = word_of_nat j \<longleftrightarrow> i = j" by (simp only: word_unat_eq_iff unat_of_nat) simp
  then show ?thesis by simp
qed

lemma mmap_store_deref:
  assumes "mmap_store mem m i b = Ok mem'"
  shows "mmap_deref mem' m = (mmap_deref mem m)[i := b]"
proof (rule nth_equalityI)
  from assms have i: "i < unat (mi_len m)" and mem': "mem' = mem(mi_ptr m + word_of_nat i := b)"
    by (auto simp: mmap_store_def split: if_splits)
  have len: "length (mmap_deref mem'' m) = unat (mi_len m)" for mem'' by (simp add: mmap_deref_def)
  then show "length (mmap_deref mem' m) = length ((mmap_deref mem m)[i := b])" by simp
  fix j assume "j < length (mmap_deref mem' m)"
  then have j: "j < unat (mi_len m)" by (simp add: len)
  then have "mi_ptr m + word_of_nat j = mi_ptr m + word_of_nat i \<longleftrightarrow> j = i"
    using i unat_u64_less [of "mi_len m"] by (intro offset_inj) simp_all
  with i j show "mmap_deref mem' m ! j = (mmap_deref mem m)[i := b] ! j"
    by (simp add: mmap_deref_def mem' nth_list_update)
qed

section \<open>Hexadecimal output\<close>

definition HEX :: "u8 list" where
  "HEX = map byte [48, 49, 50, 51, 52, 53, 54, 55, 56, 57, 97, 98, 99, 100, 101, 102]"

text \<open>The buffer is filled from its end; the result is the buffer and where the digits begin.\<close>

lemma unat_nibble_shift: "unat (drop_bit 4 (n :: u64)) = unat n div 16"
  unfolding drop_bit_eq_div by (simp add: unat_div_distrib)

function hex_loop :: "u8 list \<Rightarrow> nat \<Rightarrow> u64 \<Rightarrow> u8 list \<times> nat" where
  "hex_loop buf i n =
     (let i' = i - 1; buf' = buf[i' := HEX ! unat (n AND 0xf)]; n' = drop_bit 4 n
      in if n' = 0 then (buf', i') else hex_loop buf' i' n')"
  by pat_completeness auto
termination
proof (relation "measure (\<lambda>(buf, i, n). unat n)")
  fix n n' :: u64
  assume "n' = drop_bit 4 n" and "n' \<noteq> 0"
  then have "unat n' = unat n div 16" and "unat n' \<noteq> 0"
    using unat_nibble_shift [of n] unat_eq_zero [of n'] by (simp, blast)
  then show "((buf', i', n'), (buf, i, n)) \<in> measure (\<lambda>(buf, i, n). unat n)" for buf' i' buf i
    by (auto simp: div_eq_0_iff intro!: div_less_dividend)
qed simp

declare hex_loop.simps [simp del]

definition write_hex :: "u64 \<Rightarrow> u8 list" where
  "write_hex v = (let (buf, i) = hex_loop (replicate 16 0) 16 v in drop i buf)"

lemma HEX_digit: "d < 16 \<Longrightarrow> HEX ! d = byte (digit_char d)"
proof -
  have "\<forall>d \<in> set [0..<16]. HEX ! d = byte (digit_char d)" by code_simp
  then show "d < 16 \<Longrightarrow> HEX ! d = byte (digit_char d)" by simp
qed

lemma unat_low_nibble: "unat ((n :: u64) AND 0xf) = unat n mod 16"
proof -
  have "n AND 0xf = take_bit 4 n" by (rule bit_word_eqI) (auto simp: bit_simps take_bit_eq_mask mask_eq_exp_minus_1)
  then show ?thesis by (simp add: unsigned_take_bit_eq take_bit_eq_mod unat_mod_distrib)
qed

lemma hex_loop_digits:
  assumes "unat n < 16 ^ i" and "0 < i" and "i \<le> length buf"
  shows "\<exists>buf' i'. hex_loop buf i n = (buf', i') \<and> length buf' = length buf \<and> i' < i
    \<and> drop i' buf' = map byte (digit_chars 16 (unat n)) @ drop i buf"
  using assms
proof (induction buf i n rule: hex_loop.induct)
  case (1 buf i n)
  let ?buf = "buf[i - 1 := HEX ! unat (n AND 0xf)]"
  have d: "HEX ! unat (n AND 0xf) = byte (digit_char (unat n mod 16))"
    by (simp add: unat_low_nibble HEX_digit)
  have dr: "drop (i - 1) ?buf = byte (digit_char (unat n mod 16)) # drop i buf"
    using 1(3,4) d by (simp add: Cons_nth_drop_Suc [symmetric] drop_update_cancel del: Cons_nth_drop_Suc)
  have q: "unat (drop_bit 4 n) = unat n div 16" by (rule unat_nibble_shift)
  have z: "drop_bit 4 n = 0 \<longleftrightarrow> unat n < 16"
    using q by (metis div_eq_0_iff unat_eq_zero zero_neq_numeral)
  show ?case
  proof (cases "drop_bit 4 n = 0")
    case True
    with z have "digit_chars 16 (unat n) = [digit_char (unat n mod 16)]"
      by (subst digit_chars.simps) simp
    with True dr 1(3) show ?thesis by (subst hex_loop.simps) (simp add: Let_def)
  next
    case False
    with z have big: "16 \<le> unat n" by simp
    with 1(2,3) have i: "1 < i" by (cases "i = 1") auto
    then have "unat n < 16 * 16 ^ (i - 1)" using 1(2) by (cases i) auto
    then have "unat (drop_bit 4 n) < 16 ^ (i - 1)" by (simp add: q less_mult_imp_div_less mult.commute)
    moreover have "0 < i - 1" and "i - 1 \<le> length ?buf" using i 1(4) by simp_all
    ultimately obtain buf' i' where ih:
      "hex_loop ?buf (i - 1) (drop_bit 4 n) = (buf', i')" "length buf' = length buf" "i' < i - 1"
      "drop i' buf' = map byte (digit_chars 16 (unat (drop_bit 4 n))) @ drop (i - 1) ?buf"
      using 1(1) [OF refl refl refl False] by auto
    have "digit_chars 16 (unat n) = digit_chars 16 (unat n div 16) @ [digit_char (unat n mod 16)]"
      using big by (subst digit_chars.simps) simp
    with ih dr q have "drop i' buf' = map byte (digit_chars 16 (unat n)) @ drop i buf" by simp
    moreover have "hex_loop buf i n = (buf', i')"
      using False ih(1) by (subst hex_loop.simps) (simp add: Let_def)
    ultimately show ?thesis using ih(2,3) by auto
  qed
qed

text \<open>\<open>write_hex\<close> writes the digits of its number and nothing else, for every number: its
  buffer of sixteen bytes is enough.\<close>
theorem write_hex_digits: "write_hex v = map byte (digit_chars 16 (unat v))"
proof -
  have "unat v < 16 ^ 16" using unat_u64_less [of v] by simp
  from hex_loop_digits [OF this, of "replicate 16 0"] show ?thesis
    by (auto simp: write_hex_def)
qed

end
