(* ===== verification/EventFd.thy ===== *)
theory EventFd
  imports Notlibc
begin

text \<open>
  The eventfd and the set of eventfds that one waits on with epoll
  (\<open>kit/notlibc/src/eventfd.rs\<close>), on x86-64 Linux. The kernel is a parameter: it answers a
  call and moves to its next state.
\<close>

section \<open>Eventfd\<close>

definition EFD_FLAGS :: u64 where "EFD_FLAGS = 0x800 OR 0x1"
definition EPOLL_CTL_ADD :: u64 where "EPOLL_CTL_ADD = 1"
definition EPOLLIN :: u32 where "EPOLLIN = 1"
definition EVENT_SET_CAPACITY :: nat where "EVENT_SET_CAPACITY = 64"

record epoll_event =
  ee_events :: u32
  ee_data :: u64

record event_fd =
  ef_fd :: i32

definition event_fd_new :: "kernel \<Rightarrow> (event_fd, i32) res" where
  "event_fd_new k =
     (let ret = k (SysCall SYS_EVENTFD2 [0, EFD_FLAGS])
      in if 0 <=s ret then Ok \<lparr>ef_fd = ucast ret\<rparr> else Err (ucast (- ret)))"

text \<open>\<open>val\<close> is the address of a word that holds 1.\<close>

definition event_fd_notify :: "event_fd \<Rightarrow> u64 \<Rightarrow> sys_call" where
  "event_fd_notify e val = SysCall SYS_WRITE [scast (ef_fd e), val, 8]"

definition close_fd :: "i32 \<Rightarrow> sys_call" where
  "close_fd fd = SysCall SYS_CLOSE [scast fd]"

definition event_fd_drop :: "event_fd \<Rightarrow> sys_call list" where
  "event_fd_drop e = [close_fd (ef_fd e)]"

section \<open>The set\<close>

record event_set =
  es_epfd :: i32
  es_fds :: "i32 list"
  es_len :: nat

definition event_set_new :: "kernel \<Rightarrow> (event_set, i32) res" where
  "event_set_new k =
     (let ret = k (SysCall SYS_EPOLL_CREATE1 [0])
      in if 0 <=s ret
         then Ok \<lparr>es_epfd = ucast ret, es_fds = replicate EVENT_SET_CAPACITY (- 1), es_len = 0\<rparr>
         else Err (ucast (- ret)))"

text \<open>\<open>epoll_ctl\<close>: the descriptor of the epoll instance, the operation, the descriptor, the event.\<close>

type_synonym 'k epoll_ctl = "'k \<Rightarrow> u64 \<Rightarrow> u64 \<Rightarrow> u64 \<Rightarrow> epoll_event \<Rightarrow> i64 \<times> 'k"

definition event_set_add ::
    "'k epoll_ctl \<Rightarrow> 'k \<Rightarrow> event_set \<Rightarrow> event_fd \<Rightarrow> (nat, i32) res \<times> event_set \<times> 'k" where
  "event_set_add ctl k s efd =
     (if EVENT_SET_CAPACITY \<le> es_len s then (Err 28, s, k)
      else
        let idx = es_len s;
            (ret, k') = ctl k (scast (es_epfd s)) EPOLL_CTL_ADD (scast (ef_fd efd))
                          \<lparr>ee_events = EPOLLIN, ee_data = word_of_nat idx\<rparr>
        in if ret <s 0 then (Err (ucast (- ret)), s, k')
           else (Ok idx, s\<lparr>es_fds := (es_fds s)[idx := ef_fd efd], es_len := idx + 1\<rparr>, k'))"

text \<open>\<open>epoll_wait\<close>, attempt after attempt: what it returns and what it left in the event.\<close>

type_synonym epoll_answers = "nat \<Rightarrow> i64 \<times> epoll_event"

partial_function (option) event_set_wait :: "epoll_answers \<Rightarrow> nat \<Rightarrow> (u64, i32) res option" where
  "event_set_wait answers n =
     (let (ret, ev) = answers n in
      if 0 <s ret then Some (Ok (ee_data ev))
      else if ret = 0 then Some (Err 110)
      else let errno = ucast (- ret) in
           if errno = (4 :: i32) then event_set_wait answers (n + 1) else Some (Err errno))"

definition event_set_drop :: "event_set \<Rightarrow> sys_call list" where
  "event_set_drop s = (if 0 <=s es_epfd s then [close_fd (es_epfd s)] else [])"

section \<open>Waiting\<close>

definition interrupted :: "i64 \<times> epoll_event \<Rightarrow> bool" where
  "interrupted a \<longleftrightarrow> fst a <s 0 \<and> (ucast (- fst a) :: i32) = 4"

definition wait_result :: "i64 \<times> epoll_event \<Rightarrow> (u64, i32) res" where
  "wait_result a =
     (if 0 <s fst a then Ok (ee_data (snd a)) else if fst a = 0 then Err 110 else Err (ucast (- fst a)))"

lemma sless_trichotomy: "0 <s (w :: i64) \<or> w = 0 \<or> w <s 0"
  by (auto simp: word_sless_alt) (metis linorder_neqE_linordered_idom signed_0 signed_word_eqI)

lemma sless_asym: "0 <s (w :: i64) \<Longrightarrow> \<not> w <s 0"
  by (simp add: word_sless_alt)

lemma event_set_wait_step:
  "event_set_wait answers n =
     (if interrupted (answers n) then event_set_wait answers (n + 1) else Some (wait_result (answers n)))"
  using sless_trichotomy [of "fst (answers n)"] sless_asym [of "fst (answers n)"]
  by (subst event_set_wait.simps) (auto simp: interrupted_def wait_result_def Let_def split: prod.split)

lemma event_set_wait_returns:
  "\<not> interrupted (answers (n + m)) \<Longrightarrow> \<forall>i < m. interrupted (answers (n + i))
   \<Longrightarrow> event_set_wait answers n = Some (wait_result (answers (n + m)))"
proof (induction m arbitrary: n)
  case 0
  then show ?case by (subst event_set_wait_step) simp
next
  case (Suc m)
  from Suc.prems(2) have "interrupted (answers n)" by (metis add_0_right zero_less_Suc)
  moreover have "event_set_wait answers (n + 1) = Some (wait_result (answers (n + 1 + m)))"
    using Suc.prems by (intro Suc.IH) (auto simp: less_Suc_eq_0_disj)
  ultimately show ?case by (subst event_set_wait_step) simp
qed

lemma event_set_wait_diverges:
  assumes "\<And>i. interrupted (answers i)"
  shows "event_set_wait answers n = None"
proof -
  have "a \<noteq> answers" if "event_set_wait a n = Some y" for a n y
    using _ that
  proof (rule event_set_wait.raw_induct [of "\<lambda>a n y. a \<noteq> answers"])
    fix f a n y
    assume f: "\<And>a n y. f a n = Some y \<Longrightarrow> a \<noteq> answers"
      and eq: "(let (ret, ev) = a n in
        if 0 <s ret then Some (Ok (ee_data ev)) else if ret = 0 then Some (Err 110)
        else let errno = ucast (- ret) in if errno = (4 :: i32) then f a (n + 1) else Some (Err errno)) = Some y"
    show "a \<noteq> answers"
    proof
      assume "a = answers"
      with assms have "interrupted (a n)" by simp
      then have "\<not> 0 <s fst (a n)" "fst (a n) \<noteq> 0" "(ucast (- fst (a n)) :: i32) = 4"
        using sless_asym by (auto simp: interrupted_def)
      with eq have "f a (n + 1) = Some y" by (simp add: Let_def split: prod.splits)
      with f \<open>a = answers\<close> show False by blast
    qed
  qed
  then show ?thesis by (cases "event_set_wait answers n") auto
qed

text \<open>\<open>wait\<close> restarts the call as long as a signal interrupts it: it returns exactly when some
  attempt is not interrupted, and then the first such attempt decides: the index in the event, a
  timeout, or the error.\<close>
theorem event_set_wait_first:
  "event_set_wait answers 0 =
     (if \<exists>n. \<not> interrupted (answers n)
      then Some (wait_result (answers (LEAST n. \<not> interrupted (answers n)))) else None)"
proof (cases "\<exists>n. \<not> interrupted (answers n)")
  case True
  let ?m = "LEAST n. \<not> interrupted (answers n)"
  have "\<not> interrupted (answers (0 + ?m))" using LeastI_ex [OF True] by simp
  moreover have "\<forall>i < ?m. interrupted (answers (0 + i))" using not_less_Least by auto
  ultimately show ?thesis using event_set_wait_returns True by (metis add_0)
next
  case False
  then show ?thesis by (simp add: event_set_wait_diverges)
qed

section \<open>The indices\<close>

text \<open>Registering several eventfds, whatever becomes of each.\<close>

fun event_set_adds :: "'k epoll_ctl \<Rightarrow> 'k \<Rightarrow> event_set \<Rightarrow> event_fd list \<Rightarrow> event_set \<times> 'k" where
  "event_set_adds ctl k s [] = (s, k)"
| "event_set_adds ctl k s (e # es) = (let (r, s', k') = event_set_add ctl k s e in event_set_adds ctl k' s' es)"

text \<open>The documented behaviour of \<open>epoll_ctl\<close>: a call that fails changes nothing, one that adds
  registers the descriptor with the data of the event. \<open>interest\<close> reads the list of an epoll
  instance off the kernel's state.\<close>

definition epoll_adds :: "'k epoll_ctl \<Rightarrow> ('k \<Rightarrow> (u64 \<times> u64) list) \<Rightarrow> bool" where
  "epoll_adds ctl interest \<longleftrightarrow> (\<forall>k ep fd ev.
     let (ret, k') = ctl k ep EPOLL_CTL_ADD fd ev in
     interest k' = (if ret <s 0 then interest k else interest k @ [(fd, ee_data ev)]))"

definition set_inv :: "('k \<Rightarrow> (u64 \<times> u64) list) \<Rightarrow> event_set \<Rightarrow> 'k \<Rightarrow> bool" where
  "set_inv interest s k \<longleftrightarrow> length (es_fds s) = EVENT_SET_CAPACITY \<and> es_len s \<le> EVENT_SET_CAPACITY
     \<and> interest k = map (\<lambda>i. (scast (es_fds s ! i), word_of_nat i)) [0..<es_len s]"

lemma set_inv_add:
  assumes law: "epoll_adds ctl interest" and inv: "set_inv interest s k"
    and add: "event_set_add ctl k s e = (r, s', k')"
  shows "set_inv interest s' k'"
proof (cases "EVENT_SET_CAPACITY \<le> es_len s")
  case True
  with add inv show ?thesis by (simp add: event_set_add_def)
next
  case False
  let ?ev = "\<lparr>ee_events = EPOLLIN, ee_data = word_of_nat (es_len s)\<rparr>"
  obtain ret k1 where c: "ctl k (scast (es_epfd s)) EPOLL_CTL_ADD (scast (ef_fd e)) ?ev = (ret, k1)"
    by (cases "ctl k (scast (es_epfd s)) EPOLL_CTL_ADD (scast (ef_fd e)) ?ev") auto
  from law [unfolded epoll_adds_def, rule_format, of k "scast (es_epfd s)" "scast (ef_fd e)" ?ev] c
  have i: "interest k1 = (if ret <s 0 then interest k else interest k @ [(scast (ef_fd e), word_of_nat (es_len s))])"
    by simp
  show ?thesis
  proof (cases "ret <s 0")
    case True
    with add c False i inv show ?thesis by (auto simp: event_set_add_def Let_def set_inv_def)
  next
    case ok: False
    with add c False have s': "s' = s\<lparr>es_fds := (es_fds s)[es_len s := ef_fd e], es_len := es_len s + 1\<rparr>" "k' = k1"
      by (simp_all add: event_set_add_def Let_def)
    have "map (\<lambda>i. (scast ((es_fds s)[es_len s := ef_fd e] ! i) :: u64, word_of_nat i :: u64)) [0..<es_len s]
        = map (\<lambda>i. (scast (es_fds s ! i), word_of_nat i)) [0..<es_len s]"
      by simp
    with s' i ok inv False show ?thesis by (simp add: set_inv_def)
  qed
qed

lemma set_inv_adds:
  "epoll_adds ctl interest \<Longrightarrow> set_inv interest s k \<Longrightarrow> event_set_adds ctl k s es = (s', k') \<Longrightarrow> set_inv interest s' k'"
proof (induction es arbitrary: s k)
  case (Cons e es)
  obtain r s1 k1 where a: "event_set_add ctl k s e = (r, s1, k1)" by (cases "event_set_add ctl k s e") auto
  with Cons show ?case using set_inv_add [OF Cons.prems(1,2) a] by simp
qed simp

text \<open>C24: whatever eventfds are registered with a new set, and whichever registrations the kernel
  refuses, the index that \<open>wait\<close> returns is below the set's length, which never passes the
  capacity, and the descriptor stored at that index is ready.\<close>
theorem event_set_index_ready:
  assumes "epoll_adds ctl interest" and "interest k0 = []"
    and "event_set_new (\<lambda>_. epfd) = Ok s0" and "event_set_adds ctl k0 s0 es = (s, k)"
    and "\<And>n. 0 <s fst (answers n) \<Longrightarrow> \<exists>fd. (fd, ee_data (snd (answers n))) \<in> set (interest k) \<and> ready fd"
    and "event_set_wait answers 0 = Some (Ok idx)"
  shows "unat idx < es_len s \<and> es_len s \<le> EVENT_SET_CAPACITY \<and> ready (scast (es_fds s ! unat idx))"
proof -
  have "set_inv interest s0 k0"
    using assms(2,3) by (auto simp: event_set_new_def set_inv_def Let_def split: if_splits)
  from set_inv_adds [OF assms(1) this assms(4)] have inv: "set_inv interest s k" .
  from assms(6) obtain n where "wait_result (answers n) = Ok idx"
    by (auto simp: event_set_wait_first split: if_splits)
  then have "0 <s fst (answers n)" and idx: "idx = ee_data (snd (answers n))"
    by (auto simp: wait_result_def split: if_splits)
  from assms(5) [OF this(1)] inv obtain i where i: "i < es_len s" "idx = word_of_nat i" "ready (scast (es_fds s ! i))"
    by (auto simp: set_inv_def idx)
  from i(1) inv have "i < 64" by (simp add: set_inv_def EVENT_SET_CAPACITY_def)
  with i(2) have "unat idx = i" by (simp add: unat_of_nat take_bit_nat_eq_self)
  with i inv show ?thesis by (simp add: set_inv_def)
qed

text \<open>An epoll instance that keeps its list and accepts at most one descriptor.\<close>

definition ex_ctl :: "(u64 \<times> u64) list epoll_ctl" where
  "ex_ctl k ep op fd ev = (if k = [] then (0, [(fd, ee_data ev)]) else (- 28, k))"

lemma event_set_index_ready_witness:
  "\<exists>s k. event_set_adds ex_ctl [] \<lparr>es_epfd = 9, es_fds = replicate 64 (- 1), es_len = 0\<rparr> [\<lparr>ef_fd = 7\<rparr>, \<lparr>ef_fd = 8\<rparr>] = (s, k)
    \<and> es_fds s ! unat (0 :: u64) = 7"
proof -
  have sg: "(0 :: i64) <=s 9" "(- 28 :: i64) <s 0" "\<not> (0 :: i64) <s 0" "(0 :: i64) <s 1" "\<not> (- 4 :: i64) = 0"
    "(ucast (4 :: i64) :: i32) = 4" "\<not> (0 :: i64) <s - 4" by code_simp+
  let ?s0 = "\<lparr>es_epfd = 9, es_fds = replicate 64 (- 1), es_len = 0\<rparr> :: event_set"
  let ?ans = "\<lambda>n. (if n = 0 then - 4 else 1 :: i64, \<lparr>ee_events = 1, ee_data = 0\<rparr>)"
  obtain s k where a: "event_set_adds ex_ctl [] ?s0 [\<lparr>ef_fd = 7\<rparr>, \<lparr>ef_fd = 8\<rparr>] = (s, k)" by fastforce
  then have k: "k = [(7, 0)]" and s: "es_fds s = (replicate 64 (- 1))[0 := 7]"
    using sg by (auto simp: event_set_add_def ex_ctl_def EVENT_SET_CAPACITY_def Let_def)
  have law: "epoll_adds ex_ctl (\<lambda>k. k)"
    using sg by (simp add: epoll_adds_def ex_ctl_def)
  have new: "event_set_new (\<lambda>_. 9) = Ok ?s0"
    using sg by (simp add: event_set_new_def EVENT_SET_CAPACITY_def)
  have w: "event_set_wait ?ans 0 = Some (Ok 0)"
    using sg by (subst event_set_wait.simps, simp, subst event_set_wait.simps, simp)
  have rd: "\<exists>fd. (fd, ee_data (snd (?ans n))) \<in> set k \<and> fd = 7" for n by (simp add: k)
  from event_set_index_ready [OF law refl new a rd w] have "unat (0 :: u64) < es_len s" by blast
  with a s show ?thesis by auto
qed

end
