(* ===== verification/PySignalProfInit.thy ===== *)
theory PySignalProfInit
  imports PySignalProfRun PythonOffsets KindasafeInit EventFd
begin

text \<open>
  Starting the profiler: \<open>start\<close> and \<open>init_sequence\<close> of \<open>kit/pysignalprof/src/lib.rs\<close>, the signal
  handler's installation and the timer (\<open>kit/sighandler/src/lib.rs\<close>), and the C function
  (\<open>kit/pysignalprof_capi/src/lib.rs\<close>).
\<close>

section \<open>Errors and environment\<close>

datatype profiler_error =
  KindasafeInit | NoPython | NoSymbol | OffsetsMismatch | BadVersion
  | AllocFailed | SignalHandler | AlreadyRunning | KindasafeSanityCheck

text \<open>The discriminants.\<close>

fun error_code :: "profiler_error \<Rightarrow> i32" where
  "error_code KindasafeInit = 1"
| "error_code NoPython = 2"
| "error_code NoSymbol = 3"
| "error_code OffsetsMismatch = 4"
| "error_code BadVersion = 5"
| "error_code AllocFailed = 7"
| "error_code SignalHandler = 8"
| "error_code AlreadyRunning = 9"
| "error_code KindasafeSanityCheck = 10"

fun map_init_error :: "offsets_error \<Rightarrow> profiler_error" where
  "map_init_error KindasafeInitFailed = KindasafeInit"
| "map_init_error PythonNotFound = NoPython"
| "map_init_error OffsetsIo = NoPython"
| "map_init_error (SymbolNotFound _) = NoSymbol"
| "map_init_error ElfParse = NoSymbol"
| "map_init_error DebugOffsetsMismatch = OffsetsMismatch"
| "map_init_error UnsupportedVersion = BadVersion"

text \<open>What the operating system and the libraries answer: which calls of \<open>sigaction\<close> fail, the
  lines of the maps file (opened twice), the ELF parser and the files, the guarded reads, whether
  bbqueue can split the buffer of a shard, eventfd, the spawning of a thread, the page of the
  sanity check and the read of it, and \<open>setitimer\<close>.\<close>

record init_env =
  ie_fails :: failures
  ie_crash_handler :: u64
  ie_on_sigprof :: u64
  ie_maps :: "line_reader option"
  ie_maps_again :: "line_reader option"
  ie_parse :: elf_parser
  ie_files :: mapped_files
  ie_ops :: ks_ops
  ie_splits :: "nat \<Rightarrow> bool"
  ie_kernel :: kernel
  ie_spawns :: bool
  ie_page :: "u64 option"
  ie_read_page :: "u64 \<Rightarrow> (u64, read_mem_error) res outcome"
  ie_setitimer :: i32

text \<open>The process: the statics of the profiler, its reader threads (the state each was given),
  and the interval timer in microseconds.\<close>

record statics =
  ps_lifecycle :: u32
  ps_log_enabled :: bool
  ps_process :: process
  ps_handler_state :: "handler_state option"
  ps_readers :: "handler_state list"
  ps_timer :: "nat option"

definition STATE_UNINITIALIZED :: u32 where "STATE_UNINITIALIZED = 0"
definition STATE_RUNNING :: u32 where "STATE_RUNNING = 1"
definition DEFAULT_NUM_SHARDS :: u64 where "DEFAULT_NUM_SHARDS = 16"
definition SIGPROF :: u32 where "SIGPROF = 27"

section \<open>The signal handler\<close>

datatype sighandler_error = SigactionFailed | SetitimerFailed

text \<open>A mask has bit \<open>sig - 1\<close> for the signal \<open>sig\<close>.\<close>

definition profiler_action :: "u64 \<Rightarrow> sigaction" where
  "profiler_action handler = \<lparr>sa_sigaction = handler, sa_mask = 2 ^ (unat SIGPROF - 1), sa_flags = SA_SIGINFO OR SA_RESTART\<rparr>"

definition register_sigaction ::
    "failures \<Rightarrow> u64 \<Rightarrow> process \<Rightarrow> (unit, sighandler_error) res \<times> process" where
  "register_sigaction fails handler p =
     (case sys_sigaction fails SIGPROF (Some (profiler_action handler)) p of
        (None, p1) \<Rightarrow> (Err SigactionFailed, p1)
      | (Some _, p1) \<Rightarrow> (Ok (), p1))"

definition start_timer :: "i32 \<Rightarrow> nat option \<Rightarrow> (unit, sighandler_error) res \<times> nat option" where
  "start_timer ret timer = (if ret \<noteq> 0 then (Err SetitimerFailed, timer) else (Ok (), Some 10000))"

definition sighandler_start ::
    "failures \<Rightarrow> u64 \<Rightarrow> i32 \<Rightarrow> process \<times> nat option \<Rightarrow> (unit, sighandler_error) res \<times> process \<times> nat option" where
  "sighandler_start fails handler ret = (\<lambda>(p, timer).
     case register_sigaction fails handler p of
       (Ok _, p1) \<Rightarrow> (case start_timer ret timer of (r, timer') \<Rightarrow> (r, p1, timer'))
     | (e, p1) \<Rightarrow> (e, p1, timer))"

section \<open>The steps of the start\<close>

text \<open>Steps 2 to 5: the symbols and the offsets of the running interpreter.\<close>

definition python_runtime ::
    "init_env \<Rightarrow> (elf_symbols \<times> py314_debug_offsets, profiler_error) res" where
  "python_runtime e = map_err map_init_error
     (bind_res (find_python_in_maps (ie_maps e)) (\<lambda>binary.
      bind_res (resolve_elf_symbols (ie_parse e) (ie_files e) binary) (\<lambda>symbols.
      bind_res (detect_version (ie_ops e) (ey_py_version symbols)) (\<lambda>version.
      bind_res (read_version_hex (ie_ops e) (ey_py_version symbols)) (\<lambda>version_hex.
      bind_res (read_debug_offsets (ie_ops e) (ey_py_runtime symbols) version version_hex) (\<lambda>debug_offsets.
      Ok (symbols, debug_offsets)))))))"

text \<open>Step 5b: the offsets of asyncio, if they can be had.\<close>

definition asyncio_offsets :: "init_env \<Rightarrow> (py314_asyncio_offsets option, profiler_error) res" where
  "asyncio_offsets e =
     (case bind_res (find_asyncio_in_maps (ie_maps_again e)) (\<lambda>binary.
           bind_res (resolve_asyncio_debug_symbol (ie_parse e) (ie_files e) binary) (\<lambda>addr.
           read_asyncio_debug_offsets (ie_ops e) addr)) of
        Ok offsets \<Rightarrow> Ok (Some offsets)
      | Err _ \<Rightarrow> Ok None
      | Panic \<Rightarrow> Panic)"

text \<open>Steps 7 to 10: the buffers, the eventfd and the state of the handler.\<close>

definition new_shard :: shard where
  "new_shard = \<lparr>sh_locked = False, sh_frame_buffer = replicate MAX_DEPTH \<lparr>rf_code_object = 0, rf_instr_offset = 0\<rparr>,
     sh_queue = []\<rparr>"

definition new_handler_state ::
    "u64 \<Rightarrow> string \<Rightarrow> string option \<Rightarrow> (string \<times> string) list \<Rightarrow> elf_symbols \<Rightarrow> py314_debug_offsets
     \<Rightarrow> py314_asyncio_offsets option \<Rightarrow> handler_state" where
  "new_handler_state num_shards app_name server_url tags symbols debug_offsets asyncio =
     \<lparr>hs_debug_offsets = debug_offsets, hs_type_addrs = \<lparr>ta_code_type = ey_py_code_type symbols\<rparr>,
      hs_asyncio_offsets = asyncio, hs_shards = replicate (unat num_shards) new_shard, hs_eventfd = 0,
      hs_samples_since_notify = 0, hs_num_shards = num_shards, hs_notify_interval = DEFAULT_NOTIFY_INTERVAL,
      hs_app_name = app_name, hs_server_url = server_url, hs_tags = tags\<rparr>"

definition prepare ::
    "init_env \<Rightarrow> u64 \<Rightarrow> string \<Rightarrow> string option \<Rightarrow> (string \<times> string) list \<Rightarrow> (handler_state, profiler_error) res" where
  "prepare e num_shards app_name server_url tags =
     bind_res (python_runtime e) (\<lambda>(symbols, debug_offsets).
     bind_res (asyncio_offsets e) (\<lambda>asyncio.
     bind_res (if list_all (ie_splits e) [0..<unat num_shards] then Ok () else Err AllocFailed) (\<lambda>_.
     bind_res (map_err (\<lambda>_. AllocFailed) (event_fd_new (ie_kernel e))) (\<lambda>_.
     Ok (new_handler_state num_shards app_name server_url tags symbols debug_offsets asyncio)))))"

text \<open>Steps 11 to 13, with the state published. The state that a failing step leaves behind comes
  with its error.\<close>

definition launch :: "init_env \<Rightarrow> handler_state \<Rightarrow> statics \<Rightarrow> (unit, profiler_error) res outcome \<times> statics" where
  "launch e hs s =
     (if \<not> ie_spawns e then (Returned (Err AllocFailed), s)
      else
        let s1 = s\<lparr>ps_readers := ps_readers s @ [hs]\<rparr> in
        case register_sigaction (ie_fails e) (ie_on_sigprof e) (ps_process s1) of
          (Ok _, p) \<Rightarrow>
            let s2 = s1\<lparr>ps_process := p\<rparr> in
            (case sanity_check (ie_page e) (ie_read_page e) of
               Returned (Ok _) \<Rightarrow>
                 (case start_timer (ie_setitimer e) (ps_timer s2) of
                    (Ok _, t) \<Rightarrow> (Returned (Ok ()), s2\<lparr>ps_timer := t\<rparr>)
                  | (_, t) \<Rightarrow> (Returned (Err SignalHandler), s2\<lparr>ps_timer := t\<rparr>))
             | Returned (Err _) \<Rightarrow> (Returned (Err KindasafeSanityCheck), s2)
             | Returned Panic \<Rightarrow> (Returned Panic, s2)
             | Fallback \<Rightarrow> (Fallback, s2))
        | (_, p) \<Rightarrow> (Returned (Err SignalHandler), s1\<lparr>ps_process := p\<rparr>))"

definition init_sequence ::
    "init_env \<Rightarrow> u64 \<Rightarrow> string \<Rightarrow> string option \<Rightarrow> (string \<times> string) list \<Rightarrow> statics
     \<Rightarrow> (unit, profiler_error) res outcome \<times> statics" where
  "init_sequence e num_shards app_name server_url tags s =
     (case ks_init (ie_fails e) (ie_crash_handler e) (ps_process s) of
        (Ok _, p) \<Rightarrow>
          let s1 = s\<lparr>ps_process := p\<rparr> in
          (case prepare e num_shards app_name server_url tags of
             Ok hs \<Rightarrow> launch e hs (s1\<lparr>ps_handler_state := Some hs\<rparr>)
           | Err x \<Rightarrow> (Returned (Err x), s1)
           | Panic \<Rightarrow> (Returned Panic, s1))
      | (Err _, p) \<Rightarrow> (Returned (Err KindasafeInit), s\<lparr>ps_process := p\<rparr>)
      | (Panic, p) \<Rightarrow> (Returned Panic, s\<lparr>ps_process := p\<rparr>))"

definition profiler_init ::
    "init_env \<Rightarrow> string \<Rightarrow> string option \<Rightarrow> u64 \<Rightarrow> bool \<Rightarrow> (string \<times> string) list \<Rightarrow> statics
     \<Rightarrow> (unit, profiler_error) res outcome \<times> statics" where
  "profiler_init e app_name server_url num_shards log_enabled tags s =
     (if ps_lifecycle s \<noteq> STATE_UNINITIALIZED then (Returned (Err AlreadyRunning), s)
      else
        let s1 = s\<lparr>ps_lifecycle := STATE_RUNNING\<rparr>;
            s2 = (if log_enabled then s1\<lparr>ps_log_enabled := True\<rparr> else s1);
            n = (if num_shards = 0 then DEFAULT_NUM_SHARDS else num_shards)
        in case init_sequence e n app_name server_url tags s2 of
             (Returned (Err x), s3) \<Rightarrow> (Returned (Err x), s3\<lparr>ps_lifecycle := STATE_UNINITIALIZED\<rparr>)
           | r \<Rightarrow> r)"

text \<open>A C string: its bytes before the terminator, or a null pointer.\<close>

type_synonym c_string = "u8 list option"

definition lossy_string :: "u8 list \<Rightarrow> string" where
  "lossy_string bs = string_of_utf8 (concat (map utf8_encode (utf8_lossy bs)))"

definition pyroscope_start ::
    "init_env \<Rightarrow> c_string \<Rightarrow> c_string \<Rightarrow> i32 \<Rightarrow> i32 \<Rightarrow> statics \<Rightarrow> (i32, unit) res outcome \<times> statics" where
  "pyroscope_start e app_name server_url num_shards log_enabled s =
     (let name = (case app_name of None \<Rightarrow> [] | Some bs \<Rightarrow> lossy_string bs);
          url = (case server_url of None \<Rightarrow> None
                 | Some bs \<Rightarrow> if lossy_string bs = [] then None else Some (lossy_string bs));
          n = (if num_shards <=s 0 then 0 else scast num_shards)
      in case profiler_init e name url n (log_enabled \<noteq> 0) [] s of
           (Returned (Ok _), s') \<Rightarrow> (Returned (Ok 0), s')
         | (Returned (Err code), s') \<Rightarrow> (Returned (Ok (error_code code)), s')
         | (Returned Panic, s') \<Rightarrow> (Returned Panic, s')
         | (Fallback, s') \<Rightarrow> (Fallback, s'))"

section \<open>Lemmas\<close>

lemmas profiler_init_defs = profiler_init_def init_sequence_def launch_def register_sigaction_def start_timer_def
  sys_sigaction_def Let_def

lemma new_handler_state_ok: "n \<noteq> 0 \<Longrightarrow> hs_ok (new_handler_state n app url tags symbols offs aio)"
proof -
  have "length (sh_frame_buffer new_shard) = MAX_DEPTH" "sh_queue new_shard = []"
    unfolding new_shard_def by (simp_all only: shard.simps length_replicate)
  then show "n \<noteq> 0 \<Longrightarrow> hs_ok (new_handler_state n app url tags symbols offs aio)"
    by (simp add: hs_ok_def new_handler_state_def shard_ok_def list_all_iff DEFAULT_NOTIFY_INTERVAL_def)
qed

lemma new_handler_state_start:
  assumes "n \<noteq> 0"
  shows "profiler_start \<lparr>pr_handler = new_handler_state n app (Some url) tags symbols offs aio,
    pr_reader = reader_init now, pr_sent = []\<rparr> now"
  using new_handler_state_ok [OF assms, of app "Some url" tags symbols offs aio]
  by (simp add: profiler_start_def list_all_iff) (simp add: new_handler_state_def new_shard_def)

lemma prepare_ok:
  assumes "prepare e n app url tags = Ok hs"
  shows "\<exists>symbols offs aio. hs = new_handler_state n app url tags symbols offs aio \<and> python_runtime e = Ok (symbols, offs)"
  using assms by (auto simp: prepare_def bind_res_eq_Ok)

lemma map_init_error_cases:
  "map_init_error x \<in> {KindasafeInit, NoPython, NoSymbol, OffsetsMismatch, BadVersion}"
  by (cases x) simp_all

lemma prepare_err:
  assumes "prepare e n app url tags = Err x"
  shows "x \<in> {KindasafeInit, NoPython, NoSymbol, OffsetsMismatch, BadVersion, AllocFailed}"
proof -
  have "y \<in> {KindasafeInit, NoPython, NoSymbol, OffsetsMismatch, BadVersion}" if "python_runtime e = Err y" for y
    using that map_init_error_cases unfolding python_runtime_def by (auto simp: map_err_eq_Err)
  moreover have "asyncio_offsets e \<noteq> Err y" for y
    by (auto simp: asyncio_offsets_def split: res.split)
  ultimately show ?thesis
    using assms by (auto simp: prepare_def bind_res_eq_Err map_err_eq_Err split: if_splits)
qed

text \<open>What \<open>launch\<close> does to the process, with its result.\<close>

lemma launch_effect:
  assumes "launch e hs s = (r, s')"
  shows "ps_lifecycle s' = ps_lifecycle s" "ps_handler_state s' = ps_handler_state s"
    "ps_readers s' = ps_readers s @ (if ie_spawns e then [hs] else [])"
    "ps_timer s' = (if r = Returned (Ok ()) then Some 10000 else ps_timer s)"
    "r \<in> {Returned (Ok ()), Returned (Err KindasafeSanityCheck), Returned Panic, Fallback} \<Longrightarrow>
       ie_spawns e \<and> pr_disposition (ps_process s') SIGPROF = profiler_action (ie_on_sigprof e)"
    "\<And>x. r = Returned (Err x) \<Longrightarrow> x \<in> {AllocFailed, SignalHandler, KindasafeSanityCheck}"
    "sig \<noteq> SIGPROF \<Longrightarrow> pr_disposition (ps_process s') sig = pr_disposition (ps_process s) sig"
  using assms
  by (auto simp: launch_def register_sigaction_def start_timer_def sys_sigaction_def Let_def
      split: if_splits res.splits outcome.splits option.splits prod.splits)

lemma init_sequence_cases:
  assumes "init_sequence e n app url tags s = (r, s')"
  obtains (kindasafe) p where "r = Returned (Err KindasafeInit)" "s' = s\<lparr>ps_process := p\<rparr>"
  | (early) p x where "r = Returned x" "s' = s\<lparr>ps_process := p\<rparr>" "x \<noteq> Ok ()"
      "\<And>y. x = Err y \<Longrightarrow> y \<in> {KindasafeInit, NoPython, NoSymbol, OffsetsMismatch, BadVersion, AllocFailed}"
  | (launched) p hs where "ks_init (ie_fails e) (ie_crash_handler e) (ps_process s) = (Ok (), p)"
      "prepare e n app url tags = Ok hs"
      "launch e hs (s\<lparr>ps_process := p, ps_handler_state := Some hs\<rparr>) = (r, s')"
  using assms prepare_err [of e n app url tags] unfolding init_sequence_def Let_def
  by (auto split: res.splits prod.splits)

lemma init_sequence_lifecycle:
  assumes "init_sequence e n app url tags s = (r, s')"
  shows "ps_lifecycle s' = ps_lifecycle s" and "r \<noteq> Returned (Err AlreadyRunning)"
  using assms by (cases rule: init_sequence_cases; auto dest: launch_effect(1,6))+

text \<open>A start from the initial lifecycle is a run of the sequence.\<close>

lemma profiler_init_runs:
  assumes "profiler_init e app url n log tags s = (r, s')" and "ps_lifecycle s = STATE_UNINITIALIZED"
  obtains s3 where "init_sequence e (if n = 0 then DEFAULT_NUM_SHARDS else n) app url tags
      (s\<lparr>ps_lifecycle := STATE_RUNNING, ps_log_enabled := log \<or> ps_log_enabled s\<rparr>) = (r, s3)"
    and "s' = (case r of Returned (Err _) \<Rightarrow> s3\<lparr>ps_lifecycle := STATE_UNINITIALIZED\<rparr> | _ \<Rightarrow> s3)"
proof -
  have st: "(if log then s\<lparr>ps_lifecycle := STATE_RUNNING, ps_log_enabled := True\<rparr> else s\<lparr>ps_lifecycle := STATE_RUNNING\<rparr>)
      = s\<lparr>ps_lifecycle := STATE_RUNNING, ps_log_enabled := log \<or> ps_log_enabled s\<rparr>"
    by simp
  show thesis
    using assms that unfolding profiler_init_def Let_def st
    by (auto split: prod.splits outcome.splits res.splits)
qed

lemma profiler_init_lifecycle:
  assumes "profiler_init e app url n log tags s = (Returned r, s')"
  shows "r = Ok () \<Longrightarrow> ps_lifecycle s = STATE_UNINITIALIZED \<and> ps_lifecycle s' = STATE_RUNNING"
    and "r = Err AlreadyRunning \<longleftrightarrow> ps_lifecycle s \<noteq> STATE_UNINITIALIZED"
    and "r = Err AlreadyRunning \<Longrightarrow> s' = s"
    and "r = Err x \<Longrightarrow> x \<noteq> AlreadyRunning \<Longrightarrow> ps_lifecycle s' = STATE_UNINITIALIZED"
proof -
  have old: "ps_lifecycle s \<noteq> STATE_UNINITIALIZED \<Longrightarrow> r = Err AlreadyRunning \<and> s' = s"
    using assms by (simp add: profiler_init_def)
  have new: "ps_lifecycle s = STATE_UNINITIALIZED \<Longrightarrow> r \<noteq> Err AlreadyRunning
    \<and> ps_lifecycle s' = (case r of Err _ \<Rightarrow> STATE_UNINITIALIZED | _ \<Rightarrow> STATE_RUNNING)"
    using assms by (auto elim!: profiler_init_runs dest: init_sequence_lifecycle split: res.split)
  show "r = Ok () \<Longrightarrow> ps_lifecycle s = STATE_UNINITIALIZED \<and> ps_lifecycle s' = STATE_RUNNING"
    "r = Err AlreadyRunning \<longleftrightarrow> ps_lifecycle s \<noteq> STATE_UNINITIALIZED"
    "r = Err AlreadyRunning \<Longrightarrow> s' = s"
    "r = Err x \<Longrightarrow> x \<noteq> AlreadyRunning \<Longrightarrow> ps_lifecycle s' = STATE_UNINITIALIZED"
    using old new by (cases "ps_lifecycle s = STATE_UNINITIALIZED"; force)+
qed

section \<open>A successful start\<close>


text \<open>An environment in which everything works: one line of the maps, the example object file and
  offsets.\<close>

definition ex_env :: init_env where
  "ex_env = \<lparr>ie_fails = (\<lambda>_. False), ie_crash_handler = 0x4000, ie_on_sigprof = 0x5000,
     ie_maps = Some [Ok (maps_line_bytes 0 ex_maps_entry)], ie_maps_again = None, ie_parse = (\<lambda>_. Some ex_object),
     ie_files = (\<lambda>_. Some []),
     ie_ops = \<lparr>ko_u64 = (\<lambda>_. Ok 0x030e00f0), ko_slice = (\<lambda>_ _. (Ok (), py314_offsets_repr ex_offsets_314)), ko_str = (\<lambda>_ _. (Err (ReadMemError 11), []))\<rparr>,
     ie_splits = (\<lambda>_. True), ie_kernel = (\<lambda>_. 5), ie_spawns = True, ie_page = Some 0x9000,
     ie_read_page = (\<lambda>_. Returned (Err (ReadMemError 11))), ie_setitimer = 0\<rparr>"

definition ex_statics :: statics where
  "ex_statics = \<lparr>ps_lifecycle = 0, ps_log_enabled = False, ps_process = ex_process, ps_handler_state = None,
     ps_readers = [], ps_timer = None\<rparr>"

lemma ex_env_python: "\<exists>r. python_runtime ex_env = Ok r"
proof -
  have ne: "maps_line_bytes 0 ex_maps_entry \<noteq> []" by (simp add: maps_line_bytes_def)
  have f: "find_python_in_maps (ie_maps ex_env) = Ok (binary_of ex_maps_entry)"
    using find_python_loop_spec [of "[maps_line_bytes 0 ex_maps_entry]" None] ne
      parse_printed_line [OF ex_maps_entry_ok, of 0]
    by (simp add: find_python_in_maps_def find_python_in_maps_reader_def ex_env_def maps_entries_def first_with_def)
      (simp add: ex_maps_entry_def bytes_of_def path_contains_def)
  have e: "\<exists>symbols. resolve_elf_symbols (ie_parse ex_env) (ie_files ex_env) b = Ok symbols" for b
    by (simp add: resolve_elf_symbols_def resolve_elf_symbols_from_bytes_def ex_env_def ex_object_def note_symbol_def
        all_found_def Let_def)
  have u: "ko_u64 (ie_ops ex_env) a = Ok 0x030e00f0" for a by (simp add: ex_env_def)
  have v: "detect_version (ie_ops ex_env) a = Ok \<lparr>pn_major = 3, pn_minor = 14, pn_micro = 0\<rparr>"
    "read_version_hex (ie_ops ex_env) a = Ok 0x030e00f0" for a
    by (simp_all add: detect_version_def read_version_hex_def parse_version_def u)
  have c: "p4do_cookie ex_offsets_314 = u64_bytes COOKIE" "p4do_version ex_offsets_314 = 0x030e00f0"
    "p4do_free_threaded ex_offsets_314 = 0"
    using ex_offsets_ft by (simp_all add: ex_offsets_314_def)
  let ?bs = "py314_offsets_repr ex_offsets_314"
  have len: "length ?bs = py314_offsets_size"
    unfolding py314_offsets_repr_def by (simp add: c py314_offsets_words_length py314_offsets_size_def)
  have dec: "py314_offsets_of_repr ?bs = ex_offsets_314"
    unfolding py314_offsets_repr_def by (rule py314_offsets_decode) (simp add: c)
  have words: "take 8 ?bs = p4do_cookie ex_offsets_314" "bytes_u64 (take 8 (drop 8 ?bs)) = p4do_version ex_offsets_314"
    "bytes_u64 (take 8 (drop 16 ?bs)) = p4do_free_threaded ex_offsets_314"
    using dec by (auto simp: mem_word_def dest: arg_cong [where f = p4do_cookie] arg_cong [where f = p4do_version]
        arg_cong [where f = p4do_free_threaded])
  have "\<exists>offs. read_debug_offsets (ie_ops ex_env) a \<lparr>pn_major = 3, pn_minor = 14, pn_micro = 0\<rparr> 0x030e00f0 = Ok offs" for a
    using len words c by (simp add: read_debug_offsets_def parse_repr_c_def ex_env_def slice_of_def py314_offsets_size_def)
  then show ?thesis
    using f e v by (simp add: python_runtime_def) (metis bind_res.simps(1) map_err.simps(1))
qed

lemma ex_env_prepare: "\<exists>hs. prepare ex_env n app url tags = Ok hs"
proof -
  obtain symbols offs where "python_runtime ex_env = Ok (symbols, offs)" using ex_env_python by auto
  moreover have "asyncio_offsets ex_env = Ok None"
    by (simp add: asyncio_offsets_def ex_env_def find_asyncio_in_maps_def)
  moreover have "(0 :: i64) <=s 5" by code_simp
  ultimately show ?thesis
    by (simp add: prepare_def ex_env_def event_fd_new_def list_all_iff)
qed

text \<open>The sanity check fails when its page cannot be mapped.\<close>

definition ex_env_unmapped :: init_env where
  "ex_env_unmapped = ex_env\<lparr>ie_page := None\<rparr>"

definition ks_fresh :: "process \<Rightarrow> bool" where
  "ks_fresh p \<longleftrightarrow> pr_init_lock p = None \<or> pr_init_lock p = Some (Ok ())"

lemma ks_init_fresh:
  assumes "ks_fresh p"
  shows "\<exists>p1. ks_init (\<lambda>_. False) h p = (Ok (), p1) \<and> ks_fresh p1"
proof (cases "pr_init_lock p")
  case None
  obtain r p1 where i: "ks_init (\<lambda>_. False) h p = (r, p1)" by fastforce
  with ks_init_no_failure [OF None, of "\<lambda>_. False" h] ks_init_memo [OF i] show ?thesis
    by (auto simp: ks_fresh_def is_initialized_def)
next
  case (Some r)
  with assms show ?thesis by (auto simp: ks_fresh_def ks_init_def)
qed

lemma prepare_unmapped: "prepare ex_env_unmapped = prepare ex_env"
  by (intro ext) (simp add: prepare_def python_runtime_def asyncio_offsets_def ex_env_unmapped_def)

lemma ex_env_starts:
  assumes "ps_lifecycle s = 0" and "ks_fresh (ps_process s)"
  shows "\<exists>s'. profiler_init ex_env app url n log tags s = (Returned (Ok ()), s')"
    and "\<exists>s'. profiler_init ex_env_unmapped app url n log tags s = (Returned (Err KindasafeSanityCheck), s')
      \<and> ps_lifecycle s' = 0 \<and> ks_fresh (ps_process s')"
proof -
  obtain p1 where k: "ks_init (\<lambda>_. False) 0x4000 (ps_process s) = (Ok (), p1)" "ks_fresh p1"
    using ks_init_fresh [OF assms(2)] by blast
  obtain hs where h: "prepare ex_env (if n = 0 then DEFAULT_NUM_SHARDS else n) app url tags = Ok hs"
    using ex_env_prepare by blast
  have e: "ie_fails ex_env = (\<lambda>_. False)" "ie_crash_handler ex_env = 0x4000" "ie_spawns ex_env" "ie_page ex_env = Some 0x9000"
    "ie_read_page ex_env 0x9000 = Returned (Err (ReadMemError 11))" "ie_setitimer ex_env = 0"
    by (simp_all add: ex_env_def)
  then have e': "ie_fails ex_env_unmapped = (\<lambda>_. False)" "ie_crash_handler ex_env_unmapped = 0x4000"
    "ie_spawns ex_env_unmapped" "ie_page ex_env_unmapped = None"
    by (simp_all add: ex_env_unmapped_def)
  note defs = profiler_init_def init_sequence_def launch_def register_sigaction_def start_timer_def
    sys_sigaction_def Let_def sanity_check_def STATE_UNINITIALIZED_def
  show "\<exists>s'. profiler_init ex_env app url n log tags s = (Returned (Ok ()), s')"
    using assms(1) k h e by (simp add: defs)
  show "\<exists>s'. profiler_init ex_env_unmapped app url n log tags s = (Returned (Err KindasafeSanityCheck), s')
      \<and> ps_lifecycle s' = 0 \<and> ks_fresh (ps_process s')"
    using assms(1) k h e' by (simp add: defs prepare_unmapped) (simp add: ks_fresh_def)
qed

lemma ex_statics_fresh: "ps_lifecycle ex_statics = 0" "ks_fresh (ps_process ex_statics)"
  by (simp_all add: ex_statics_def ks_fresh_def ex_process_def process_start_def)


section \<open>Failures\<close>

text \<open>C25: a start that fails changes nothing when a profiler is running; otherwise it leaves the
  lifecycle as it was, for another try, and the timer alone, and up to the publication of the
  handler's state (the errors of the interpreter's search) also the state and the readers.\<close>
theorem profiler_init_failure:
  assumes "profiler_init e app url n log tags s = (Returned (Err x), s')"
  shows "if x = AlreadyRunning then ps_lifecycle s \<noteq> STATE_UNINITIALIZED \<and> s' = s
    else ps_lifecycle s = STATE_UNINITIALIZED \<and> ps_lifecycle s' = STATE_UNINITIALIZED \<and> ps_timer s' = ps_timer s
      \<and> (x \<notin> {AllocFailed, SignalHandler, KindasafeSanityCheck} \<longrightarrow>
           ps_handler_state s' = ps_handler_state s \<and> ps_readers s' = ps_readers s)
      \<and> (x = KindasafeSanityCheck \<longrightarrow>
           pr_disposition (ps_process s') SIGPROF = profiler_action (ie_on_sigprof e))"
proof (cases "ps_lifecycle s = STATE_UNINITIALIZED")
  case False
  with assms show ?thesis by (auto simp: profiler_init_def)
next
  case True
  then obtain s3 where i: "init_sequence e (if n = 0 then DEFAULT_NUM_SHARDS else n) app url tags
      (s\<lparr>ps_lifecycle := STATE_RUNNING, ps_log_enabled := log \<or> ps_log_enabled s\<rparr>) = (Returned (Err x), s3)"
    and s3: "s' = (case Returned (Err x :: (unit, profiler_error) res) of
      Returned (Err (_ :: profiler_error)) \<Rightarrow> s3\<lparr>ps_lifecycle := STATE_UNINITIALIZED\<rparr> | _ \<Rightarrow> s3)"
    by (rule profiler_init_runs [OF assms])
  from s3 have s': "s' = s3\<lparr>ps_lifecycle := STATE_UNINITIALIZED\<rparr>" by simp
  from i show ?thesis
  proof (cases rule: init_sequence_cases)
    case (kindasafe p)
    with True s' show ?thesis by simp
  next
    case (early p y)
    with True s' show ?thesis by auto
  next
    case (launched p hs)
    note l = launch_effect [OF launched(3)]
    have "x \<in> {AllocFailed, SignalHandler, KindasafeSanityCheck}" using l(6) by simp
    with True s' l(1,2,4,5) show ?thesis by auto
  qed
qed

lemma profiler_init_failure_witness:
  "\<exists>s'. profiler_init ex_env_unmapped [] None 4 False [] ex_statics = (Returned (Err KindasafeSanityCheck), s')
    \<and> ps_lifecycle s' = 0 \<and> ps_timer s' = None"
proof -
  obtain s' where i: "profiler_init ex_env_unmapped [] None 4 False [] ex_statics = (Returned (Err KindasafeSanityCheck), s')"
    using ex_env_starts(2) [OF ex_statics_fresh] by blast
  have "ps_timer ex_statics = None" by (simp add: ex_statics_def)
  with profiler_init_failure [OF i] i show ?thesis by (auto simp: STATE_UNINITIALIZED_def)
qed

text \<open>C40: after a start that failed in the sanity check, a second one that succeeds leaves two
  reader threads: the reader and the state of the first attempt are never given back.\<close>
theorem profiler_restart_leaks:
  assumes "profiler_init e app url n log tags s = (Returned (Err KindasafeSanityCheck), s1)"
    and "profiler_init e' app' url' n' log' tags' s1 = (Returned (Ok ()), s2)"
  shows "\<exists>hs hs'. ps_readers s2 = ps_readers s @ [hs, hs'] \<and> ps_handler_state s2 = Some hs'"
proof -
  have reader: "\<exists>hs. ps_readers s' = ps_readers s @ [hs] \<and> ps_handler_state s' = Some hs"
    if i: "profiler_init e app url n log tags s = (Returned r, s')" and r: "r = Ok () \<or> r = Err KindasafeSanityCheck"
    for e app url n log tags s r s'
  proof -
    have "ps_lifecycle s = STATE_UNINITIALIZED" using profiler_init_lifecycle(2) [OF i] r by auto
    then obtain s3 where
      q: "init_sequence e (if n = 0 then DEFAULT_NUM_SHARDS else n) app url tags
        (s\<lparr>ps_lifecycle := STATE_RUNNING, ps_log_enabled := log \<or> ps_log_enabled s\<rparr>) = (Returned r, s3)"
      and s': "s' = (case Returned r of Returned (Err _) \<Rightarrow> s3\<lparr>ps_lifecycle := STATE_UNINITIALIZED\<rparr> | _ \<Rightarrow> s3)"
      by (rule profiler_init_runs [OF i])
    have q': "ps_readers s' = ps_readers s3" "ps_handler_state s' = ps_handler_state s3"
      using r by (auto simp: s')
    from q show ?thesis
    proof (cases rule: init_sequence_cases)
      case (kindasafe p)
      with r show ?thesis by auto
    next
      case (early p y)
      with r show ?thesis by auto
    next
      case (launched p hs)
      from launch_effect(2,3,5) [OF launched(3)] r q' show ?thesis by auto
    qed
  qed
  from reader [OF assms(1)] reader [OF assms(2)] show ?thesis by auto
qed

lemma profiler_restart_leaks_witness:
  "\<exists>s1 s2. profiler_init ex_env_unmapped [] None 4 False [] ex_statics = (Returned (Err KindasafeSanityCheck), s1)
    \<and> profiler_init ex_env [] None 4 False [] s1 = (Returned (Ok ()), s2) \<and> length (ps_readers s2) = 2"
proof -
  obtain s1 where i: "profiler_init ex_env_unmapped [] None 4 False [] ex_statics = (Returned (Err KindasafeSanityCheck), s1)"
    "ps_lifecycle s1 = 0" "ks_fresh (ps_process s1)"
    using ex_env_starts(2) [OF ex_statics_fresh] by blast
  obtain s2 where j: "profiler_init ex_env [] None 4 False [] s1 = (Returned (Ok ()), s2)"
    using ex_env_starts(1) [OF i(2,3)] by blast
  have "ps_readers ex_statics = []" by (simp add: ex_statics_def)
  with profiler_restart_leaks [OF i(1) j] i(1) j show ?thesis by force
qed

text \<open>The code that \<open>pyroscope_start\<close> returns tells what happened: it is zero or 9 exactly when
  a profiler is running afterwards, 9 exactly when one was running before, and one of the
  documented codes in any case.\<close>
theorem pyroscope_start_code:
  assumes "pyroscope_start e app url n log s = (Returned (Ok c), s')"
  shows "c \<in> {0, 1, 2, 3, 4, 5, 7, 8, 9, 10} \<and> (c = 9 \<longleftrightarrow> ps_lifecycle s \<noteq> STATE_UNINITIALIZED)
    \<and> (c = 0 \<or> c = 9 \<longleftrightarrow> ps_lifecycle s' \<noteq> STATE_UNINITIALIZED)"
proof -
  define name where "name = (case app of None \<Rightarrow> [] | Some bs \<Rightarrow> lossy_string bs)"
  define url' where "url' = (case url of None \<Rightarrow> None
    | Some bs \<Rightarrow> if lossy_string bs = [] then None else Some (lossy_string bs))"
  define k where "k = (if n <=s 0 then 0 else scast n :: u64)"
  obtain r where i: "profiler_init e name url' k (log \<noteq> 0) [] s = (Returned r, s')"
    and r: "r = Ok () \<and> c = 0 \<or> (\<exists>x. r = Err x \<and> c = error_code x)"
    using assms unfolding pyroscope_start_def Let_def name_def [symmetric] url'_def [symmetric] k_def [symmetric]
    by (auto split: prod.splits outcome.splits res.splits)
  note life = profiler_init_lifecycle [OF i]
  from r show ?thesis
  proof (elim disjE exE conjE)
    assume "r = Ok ()" "c = 0"
    with life show ?thesis by (simp add: STATE_UNINITIALIZED_def STATE_RUNNING_def)
  next
    fix x assume x: "r = Err x" "c = error_code x"
    have "error_code x \<in> {1, 2, 3, 4, 5, 7, 8, 9, 10}" "error_code x = 9 \<longleftrightarrow> x = AlreadyRunning" "error_code x \<noteq> 0"
      by (cases x; simp)+
    with life x show ?thesis by (cases "x = AlreadyRunning") auto
  qed
qed

lemma pyroscope_start_code_witness:
  "\<exists>s'. pyroscope_start ex_env None (Some [104]) 4 1 ex_statics = (Returned (Ok 0), s') \<and> ps_lifecycle s' \<noteq> 0"
proof -
  obtain s' where i: "profiler_init ex_env [] (if lossy_string [104] = [] then None else Some (lossy_string [104]))
      (if (4 :: i32) <=s 0 then 0 else scast (4 :: i32)) True [] ex_statics = (Returned (Ok ()), s')"
    using ex_env_starts(1) [OF ex_statics_fresh] by blast
  then have "pyroscope_start ex_env None (Some [104]) 4 1 ex_statics = (Returned (Ok 0), s')"
    by (simp add: pyroscope_start_def)
  with pyroscope_start_code [OF this] show ?thesis by (auto simp: STATE_UNINITIALIZED_def)
qed

end
