(* ===== verification/FfiEntry.thy ===== *)
theory FfiEntry
  imports FfiKit PySignalProfInit
begin

text \<open>
  The functions that Python and Ruby call (\<open>pyroscope_ffi/python/rust/src/lib.rs\<close> and
  \<open>pyroscope_ffi/ruby/ext/rbspy/src/lib.rs\<close>): C strings, tags, the choice of the profiler, and the agent
  that they build. A pointer argument is the string it points to, which the callers guarantee.
\<close>

section \<open>Strings\<close>

text \<open>\<open>CStr::to_str().unwrap()\<close>.\<close>

definition c_str :: "u8 list \<Rightarrow> (string, unit) res" where
  "c_str bs = (case path_to_str bs of Some s \<Rightarrow> Ok s | None \<Rightarrow> Panic)"

fun collect_tags :: "string list \<Rightarrow> ((string \<times> string) list, unit) res" where
  "collect_tags [] = Ok []"
| "collect_tags (t # ts) =
     (case split_on CHR ''='' t of
        k # v # _ \<Rightarrow> bind_res (collect_tags ts) (\<lambda>kvs. Ok ((k, v) # kvs))
      | _ \<Rightarrow> Panic)"

definition string_to_tags :: "string \<Rightarrow> ((string \<times> string) list, unit) res" where
  "string_to_tags tags = (if tags = [] then Ok [] else collect_tags (split_on CHR '','' tags))"

section \<open>Steps that both interfaces have\<close>

definition with_basic_auth :: "string \<Rightarrow> string \<Rightarrow> 'b agent_builder \<Rightarrow> 'b agent_builder" where
  "with_basic_auth user password b = (if user \<noteq> [] \<and> password \<noteq> [] then ab_basic_auth user password b else b)"

definition with_tenant_id :: "string \<Rightarrow> 'b agent_builder \<Rightarrow> 'b agent_builder" where
  "with_tenant_id tenant b = (if tenant \<noteq> [] then ab_tenant_id tenant b else b)"

text \<open>Headers that cannot be parsed are logged and left out.\<close>

definition with_http_headers :: "json_lib \<Rightarrow> string \<Rightarrow> 'b agent_builder \<Rightarrow> 'b agent_builder" where
  "with_http_headers lib headers b =
     (case parse_http_headers_json lib headers of
        Ok h \<Rightarrow> ab_http_headers h b
      | _ \<Rightarrow> b)"

text \<open>\<open>ffikit::run(builder).is_ok()\<close> and \<open>ffikit::send(signal).is_ok()\<close>. An error is \<open>False\<close>, a panic
  stays one.\<close>

fun as_bool :: "unit presult \<Rightarrow> (bool, unit) res" where
  "as_bool (Ok u) = Ok True"
| "as_bool (Err e) = Ok False"
| "as_bool Panic = Panic"

definition run_builder ::
    "'b backend_ops \<Rightarrow> 'k timer_env \<Rightarrow> nat \<Rightarrow> nat \<Rightarrow> 'k \<Rightarrow> 'b agent_builder \<Rightarrow> ('b, timer_phase, 'k) ffi_sys
     \<Rightarrow> ((bool, unit) res \<times> ('b, timer_phase, 'k) ffi_sys) option" where
  "run_builder ops tenv dummy rx k builder s =
     map_option (\<lambda>(r, s'). (as_bool r, s'))
       (ffi_run (map_option (\<lambda>r. bind_res r (\<lambda>(agent, _). Ok agent)) (agent_build ops tenv dummy builder k)) rx s)"

definition send_signal :: "ffi_signal \<Rightarrow> ('b, 'p, 'k) ffi_sys \<Rightarrow> (bool, unit) res \<times> ('b, 'p, 'k) ffi_sys" where
  "send_signal g s = (case ffi_send g s of (r, s') \<Rightarrow> (as_bool r, s'))"

definition send_tag ::
    "(thread_id \<Rightarrow> tag \<Rightarrow> ffi_signal) \<Rightarrow> thread_id \<Rightarrow> u8 list \<Rightarrow> u8 list \<Rightarrow> ('b, 'p, 'k) ffi_sys
     \<Rightarrow> (bool, unit) res \<times> ('b, 'p, 'k) ffi_sys" where
  "send_tag sig tid key value s =
     (case bind_res (c_str key) (\<lambda>k. bind_res (c_str value) (\<lambda>v. Ok (Tag k v))) of
        Ok t \<Rightarrow> send_signal (sig tid t) s
      | Err e \<Rightarrow> (Err e, s)
      | Panic \<Rightarrow> (Panic, s))"

section \<open>Python\<close>

text \<open>The process as far as the module touches it: the variables of the environment, whether a logger is
  installed, and the statics.\<close>

record 'k py_sys =
  py_vars :: "string \<rightharpoonup> string"
  py_logger :: bool
  py_using_pysignalprof :: bool
  py_statics :: statics
  py_ffi :: "(pyspy_backend, timer_phase, 'k) ffi_sys"

record 'k py_env =
  fe_init :: init_env
  fe_timer :: "'k timer_env"
  fe_kernel :: 'k
  fe_json :: json_lib
  fe_ops :: "pyspy_backend backend_ops"
  fe_pid :: u32
  fe_version :: string
  fe_dummy :: nat
  fe_rx :: nat

record py_args =
  pa_application_name :: "u8 list"
  pa_server_address :: "u8 list"
  pa_basic_auth_username :: "u8 list"
  pa_basic_auth_password :: "u8 list"
  pa_sample_rate :: u32
  pa_oncpu :: bool
  pa_gil_only :: bool
  pa_report_pid :: bool
  pa_report_thread_id :: bool
  pa_report_thread_name :: bool
  pa_tags :: "u8 list"
  pa_tenant_id :: "u8 list"
  pa_http_headers_json :: "u8 list"

definition py_log_level :: "u32 \<Rightarrow> string" where
  "py_log_level level =
     (if level = 50 then ''off'' else if level = 40 then ''error'' else if level = 30 then ''warn''
      else if level = 20 then ''info'' else if level = 10 then ''debug'' else ''debug'')"

text \<open>A second logger is a panic of the logging crate.\<close>

definition py_initialize_logging :: "u32 \<Rightarrow> 'k py_sys \<Rightarrow> (bool, unit) res \<times> 'k py_sys" where
  "py_initialize_logging level s =
     (let s1 = s\<lparr>py_vars := (py_vars s)(''RUST_LOG'' \<mapsto> py_log_level level)\<rparr>
      in if py_logger s then (Panic, s1) else (Ok True, s1\<lparr>py_logger := True\<rparr>))"

text \<open>The start of the signal profiler.\<close>

definition py_start_pysignalprof ::
    "init_env \<Rightarrow> string \<Rightarrow> string \<Rightarrow> u8 list \<Rightarrow> 'k py_sys \<Rightarrow> (bool, unit) res outcome \<times> 'k py_sys" where
  "py_start_pysignalprof e application_name server_address tags s =
     (let s1 = s\<lparr>py_using_pysignalprof := True\<rparr>;
          server_url = (if server_address = [] then None else Some server_address);
          log_enabled = (case py_vars s ''RUST_LOG'' of Some v \<Rightarrow> v \<noteq> ''off'' | None \<Rightarrow> False)
      in case string_to_tags (opt_or [] (path_to_str tags)) of
           Ok tags \<Rightarrow>
             (case profiler_init e application_name server_url 0 log_enabled tags (py_statics s1) of
                (r, st) \<Rightarrow> (case r of
                    Returned (Ok _) \<Rightarrow> Returned (Ok True)
                  | Returned (Err _) \<Rightarrow> Returned (Ok False)
                  | Returned Panic \<Rightarrow> Returned Panic
                  | Fallback \<Rightarrow> Fallback, s1\<lparr>py_statics := st\<rparr>))
         | _ \<Rightarrow> (Returned Panic, s1))"

text \<open>The builder for py-spy. Of py-spy's configuration the fields that the backend reads are kept.\<close>

definition py_builder :: "'k py_env \<Rightarrow> py_args \<Rightarrow> string \<Rightarrow> string \<Rightarrow> (pyspy_backend agent_builder, unit) res" where
  "py_builder e a application_name server_address =
     bind_res (c_str (pa_basic_auth_username a)) (\<lambda>user.
     bind_res (c_str (pa_basic_auth_password a)) (\<lambda>password.
     bind_res (c_str (pa_tags a)) (\<lambda>tags_string.
     bind_res (c_str (pa_tenant_id a)) (\<lambda>tenant.
     bind_res (c_str (pa_http_headers_json a)) (\<lambda>headers.
     bind_res (if uint (fe_pid e) < 2 ^ 31 then Ok (ucast (fe_pid e) :: i32) else Panic) (\<lambda>pid.
     let backend_config = \<lparr>report_thread_id = pa_report_thread_id a, report_thread_name = pa_report_thread_name a,
           report_pid = pa_report_pid a\<rparr>;
         config = \<lparr>yc_pid = Some pid, yc_include_idle = \<not> pa_oncpu a, yc_gil_only = pa_gil_only a\<rparr>
     in bind_res (string_to_tags tags_string) (\<lambda>tags.
        Ok (with_http_headers (fe_json e) headers (with_tenant_id tenant (with_basic_auth user password
             (ab_tags tags (ab_new server_address application_name (pa_sample_rate a) ''pyspy'' (fe_version e)
               (bi_new (pyspy_new config backend_config))))))))))))))"

definition py_initialize_agent :: "'k py_env \<Rightarrow> py_args \<Rightarrow> 'k py_sys \<Rightarrow> ((bool, unit) res outcome \<times> 'k py_sys) option" where
  "py_initialize_agent e a s =
     (case bind_res (c_str (pa_application_name a)) (\<lambda>n. bind_res (c_str (pa_server_address a)) (\<lambda>u. Ok (n, u))) of
        Ok (application_name, server_address) \<Rightarrow>
          if py_vars s ''PYROSCOPE_PYSIGNALPROF'' = Some ''true'' then
            Some (py_start_pysignalprof (fe_init e) application_name server_address (pa_tags a) s)
          else
            (case py_builder e a application_name server_address of
               Ok builder \<Rightarrow>
                 map_option (\<lambda>(r, ffi). (Returned r, s\<lparr>py_ffi := ffi\<rparr>))
                   (run_builder (fe_ops e) (fe_timer e) (fe_dummy e) (fe_rx e) (fe_kernel e) builder (py_ffi s))
             | _ \<Rightarrow> Some (Returned Panic, s))
      | _ \<Rightarrow> Some (Returned Panic, s))"

definition py_drop_agent :: "'k py_sys \<Rightarrow> (bool, unit) res \<times> 'k py_sys" where
  "py_drop_agent s =
     (if py_using_pysignalprof s then (Ok True, s)
      else case send_signal KillSignal (py_ffi s) of (r, ffi) \<Rightarrow> (r, s\<lparr>py_ffi := ffi\<rparr>))"

definition py_add_thread_tag :: "thread_id \<Rightarrow> u8 list \<Rightarrow> u8 list \<Rightarrow> 'k py_sys \<Rightarrow> (bool, unit) res \<times> 'k py_sys" where
  "py_add_thread_tag tid key value s =
     (if py_using_pysignalprof s then (Ok True, s)
      else case send_tag AddThreadTag tid key value (py_ffi s) of (r, ffi) \<Rightarrow> (r, s\<lparr>py_ffi := ffi\<rparr>))"

definition py_remove_thread_tag :: "thread_id \<Rightarrow> u8 list \<Rightarrow> u8 list \<Rightarrow> 'k py_sys \<Rightarrow> (bool, unit) res \<times> 'k py_sys" where
  "py_remove_thread_tag tid key value s =
     (if py_using_pysignalprof s then (Ok True, s)
      else case send_tag RemoveThreadTag tid key value (py_ffi s) of (r, ffi) \<Rightarrow> (r, s\<lparr>py_ffi := ffi\<rparr>))"

section \<open>Ruby: file names\<close>

text \<open>A string is the list of its bytes. Slicing inside a character, or beyond the end, panics.\<close>

definition char_boundary :: "string \<Rightarrow> nat \<Rightarrow> bool" where
  "char_boundary s i \<longleftrightarrow> i = 0 \<or> i = length s \<or> i < length s \<and> (of_char (s ! i) < (128 :: nat) \<or> 192 \<le> (of_char (s ! i) :: nat))"

definition slice_from :: "nat \<Rightarrow> string \<Rightarrow> (string, pyroscope_error) res" where
  "slice_from i s = (if char_boundary s i then Ok (drop i s) else Panic)"

fun find_sub :: "string \<Rightarrow> string \<Rightarrow> nat option" where
  "find_sub pat [] = (if pat = [] then Some 0 else None)"
| "find_sub pat (c # cs) = (if take (length pat) (c # cs) = pat then Some 0 else map_option Suc (find_sub pat cs))"

definition transform_path :: "string \<Rightarrow> string \<Rightarrow> (string, pyroscope_error) res" where
  "transform_path cwd s =
     (case find_sub cwd s of
        Some i \<Rightarrow> slice_from (i + length cwd + 1) s
      | None \<Rightarrow>
          (case find_sub ''/gems/'' s of
             Some i \<Rightarrow> slice_from (i + 1) s
           | None \<Rightarrow>
               (case find_sub ''/ruby/'' s of
                  Some i \<Rightarrow> bind_res (slice_from (i + 6) s) (\<lambda>t.
                    case find_sub ''/'' t of Some j \<Rightarrow> slice_from (j + 1) t | None \<Rightarrow> Ok t)
                | None \<Rightarrow> Ok s)))"

definition transform_frame :: "string \<Rightarrow> stack_frame \<Rightarrow> (stack_frame, pyroscope_error) res" where
  "transform_frame cwd f =
     (case sf_filename f of
        None \<Rightarrow> Panic
      | Some s \<Rightarrow> bind_res (transform_path cwd s) (\<lambda>t.
          Ok (sf_new (sf_module f) (sf_name f) (Some t) (sf_relative_path f) (sf_absolute_path f) (sf_line f))))"

text \<open>\<open>cwd\<close> is the current directory, if there is one; one that is not UTF-8 counts as empty.\<close>

definition transform_report :: "(stack_trace, usize) iter_order \<Rightarrow> u8 list option \<Rightarrow> report \<Rightarrow> report presult" where
  "transform_report ord cwd r =
     (case cwd of
        None \<Rightarrow> Panic
      | Some bytes \<Rightarrow>
          (let dir = opt_or [] (path_to_str bytes) in
           bind_res (map_res (\<lambda>(st, c). bind_res (map_res (transform_frame dir) (st_frames st)) (\<lambda>fs. Ok (st\<lparr>st_frames := fs\<rparr>, c)))
               (ord (rp_data r))) (\<lambda>data.
           Ok (rp_set_metadata (rp_new (hm_collect data)) (rp_metadata r)))))"

section \<open>Ruby: entry points\<close>

record 'k rb_sys =
  rs_vars :: "string \<rightharpoonup> string"
  rs_logger :: bool
  rs_ffi :: "(rbspy_backend, timer_phase, 'k) ffi_sys"

record 'k rb_env =
  re_timer :: "'k timer_env"
  re_kernel :: 'k
  re_json :: json_lib
  re_ops :: "rbspy_backend backend_ops"
  re_order :: "(stack_trace, usize) iter_order"
  re_cwd :: "u8 list option"
  re_version :: string
  re_dummy :: nat
  re_rx :: nat

record rb_args =
  ra_application_name :: "u8 list"
  ra_server_address :: "u8 list"
  ra_basic_auth_user :: "u8 list"
  ra_basic_auth_password :: "u8 list"
  ra_sample_rate :: u32
  ra_oncpu :: bool
  ra_report_pid :: bool
  ra_report_thread_id :: bool
  ra_tags :: "u8 list"
  ra_tenant_id :: "u8 list"
  ra_http_headers_json :: "u8 list"

definition rb_log_level :: "u32 \<Rightarrow> string" where
  "rb_log_level level =
     (if level = 50 then ''error'' else if level = 40 then ''warn'' else if level = 30 then ''info''
      else if level = 20 then ''debug'' else if level = 10 then ''trace'' else ''debug'')"

definition rb_initialize_logging :: "u32 \<Rightarrow> 'k rb_sys \<Rightarrow> (bool, unit) res \<times> 'k rb_sys" where
  "rb_initialize_logging level s =
     (let s1 = s\<lparr>rs_vars := (rs_vars s)(''RUST_LOG'' \<mapsto> rb_log_level level)\<rparr>
      in if rs_logger s then (Panic, s1) else (Ok True, s1\<lparr>rs_logger := True\<rparr>))"

text \<open>The builder for rbspy, whose sampler is rbspy's own.\<close>

definition rb_builder :: "'k rb_env \<Rightarrow> rb_args \<Rightarrow> (rbspy_backend agent_builder, unit) res" where
  "rb_builder e a =
     bind_res (c_str (ra_application_name a)) (\<lambda>application_name.
     bind_res (c_str (ra_server_address a)) (\<lambda>server_address.
     bind_res (c_str (ra_basic_auth_user a)) (\<lambda>user.
     bind_res (c_str (ra_basic_auth_password a)) (\<lambda>password.
     bind_res (c_str (ra_tags a)) (\<lambda>tags_string.
     bind_res (c_str (ra_tenant_id a)) (\<lambda>tenant.
     bind_res (c_str (ra_http_headers_json a)) (\<lambda>headers.
     let backend_config = \<lparr>report_thread_id = ra_report_thread_id a, report_thread_name = False, report_pid = ra_report_pid a\<rparr>
     in bind_res (string_to_tags tags_string) (\<lambda>tags.
        Ok (with_http_headers (re_json e) headers (with_tenant_id tenant (with_basic_auth user password
             (ab_tags tags (ab_func (transform_report (re_order e) (re_cwd e))
               (ab_new server_address application_name (ra_sample_rate a) ''rbspy'' (re_version e)
                 (bi_new (rbspy_new (ra_sample_rate a) backend_config))))))))))))))))"

definition rb_initialize_agent :: "'k rb_env \<Rightarrow> rb_args \<Rightarrow> 'k rb_sys \<Rightarrow> ((bool, unit) res \<times> 'k rb_sys) option" where
  "rb_initialize_agent e a s =
     (case rb_builder e a of
        Ok builder \<Rightarrow>
          map_option (\<lambda>(r, ffi). (r, s\<lparr>rs_ffi := ffi\<rparr>))
            (run_builder (re_ops e) (re_timer e) (re_dummy e) (re_rx e) (re_kernel e) builder (rs_ffi s))
      | _ \<Rightarrow> Some (Panic, s))"

definition rb_drop_agent :: "'k rb_sys \<Rightarrow> (bool, unit) res \<times> 'k rb_sys" where
  "rb_drop_agent s = (case send_signal KillSignal (rs_ffi s) of (r, ffi) \<Rightarrow> (r, s\<lparr>rs_ffi := ffi\<rparr>))"

definition rb_add_thread_tag :: "thread_id \<Rightarrow> u8 list \<Rightarrow> u8 list \<Rightarrow> 'k rb_sys \<Rightarrow> (bool, unit) res \<times> 'k rb_sys" where
  "rb_add_thread_tag tid key value s =
     (case send_tag AddThreadTag tid key value (rs_ffi s) of (r, ffi) \<Rightarrow> (r, s\<lparr>rs_ffi := ffi\<rparr>))"

definition rb_remove_thread_tag :: "thread_id \<Rightarrow> u8 list \<Rightarrow> u8 list \<Rightarrow> 'k rb_sys \<Rightarrow> (bool, unit) res \<times> 'k rb_sys" where
  "rb_remove_thread_tag tid key value s =
     (case send_tag RemoveThreadTag tid key value (rs_ffi s) of (r, ffi) \<Rightarrow> (r, s\<lparr>rs_ffi := ffi\<rparr>))"

section \<open>Properties\<close>

definition tag_text :: "string \<times> string \<Rightarrow> string" where
  "tag_text kv = fst kv @ ''='' @ snd kv"

lemma split_on_join:
  "\<forall>t \<in> set ts. sep \<notin> set t \<Longrightarrow> ts \<noteq> [] \<Longrightarrow> split_on sep (join_with [sep] ts) = ts"
proof (induction ts rule: induct_list012)
  case (3 t u ts)
  then have "split_on sep (join_with [sep] (t # u # ts)) = t # split_on sep (join_with [sep] (u # ts))"
    by simp
  with 3 show ?case by simp
qed simp_all

lemma join_with_nonempty: "ts \<noteq> [] \<Longrightarrow> [] \<notin> set ts \<Longrightarrow> join_with sep ts \<noteq> []"
  by (induction ts rule: induct_list012) auto

lemma collect_tags_text:
  "\<forall>kv \<in> set kvs. CHR ''='' \<notin> set (fst kv) \<and> CHR ''='' \<notin> set (snd kv) \<Longrightarrow> collect_tags (map tag_text kvs) = Ok kvs"
  by (induction kvs) (auto simp: tag_text_def)

text \<open>C36: a non-empty list of tags, written \<open>key=value\<close> with commas between them, is read back, as long
  as no key or value contains a comma or an equals sign. Text after a second equals sign is dropped,
  and a tag without one is a panic.\<close>
theorem string_to_tags_roundtrip:
  assumes "tags \<noteq> []" and "\<forall>(k, v) \<in> set tags. {CHR '','', CHR ''=''} \<inter> (set k \<union> set v) = {}"
    and "{CHR '','', CHR ''=''} \<inter> set key = {}" and "CHR '','' \<notin> set tail" and "key \<noteq> []"
  shows "string_to_tags (join_with '','' (map tag_text tags)) = Ok tags
    \<and> string_to_tags (key @ ''=v='' @ tail) = Ok [(key, ''v'')]
    \<and> string_to_tags key = Panic"
proof -
  have plain: "\<forall>kv \<in> set tags. CHR ''='' \<notin> set (fst kv) \<and> CHR ''='' \<notin> set (snd kv)"
    "\<forall>t \<in> set (map tag_text tags). CHR '','' \<notin> set t"
    using assms(2) by (auto simp: tag_text_def)
  have nonempty: "map tag_text tags \<noteq> []" "join_with '','' (map tag_text tags) \<noteq> []"
    using assms(1) join_with_nonempty [of "map tag_text tags"] by (auto simp: tag_text_def)
  then have "string_to_tags (join_with '','' (map tag_text tags)) = Ok tags"
    using split_on_join [OF plain(2)] collect_tags_text [OF plain(1)] by (simp add: string_to_tags_def)
  moreover have "split_on CHR '','' (key @ ''=v='' @ tail) = [key @ ''=v='' @ tail]"
    using assms(3,4) by (intro split_on_single) auto
  then have "string_to_tags (key @ ''=v='' @ tail) = Ok [(key, ''v'')]"
    using assms(3) by (simp add: string_to_tags_def)
  ultimately show ?thesis using assms(3,5) by (simp add: string_to_tags_def)
qed

lemma string_to_tags_roundtrip_witness:
  "string_to_tags ''env=prod,zone=a'' = Ok [(''env'', ''prod''), (''zone'', ''a'')] \<and> string_to_tags ''k'' = Panic"
  using string_to_tags_roundtrip [of "[(''env'', ''prod''), (''zone'', ''a'')]" "''k''" "''x''"]
  by (simp add: tag_text_def)

lemma py_start_sets_flag:
  assumes "py_start_pysignalprof e n u tags s = (r, s')"
  shows "py_using_pysignalprof s'"
  using assms by (auto simp: py_start_pysignalprof_def Let_def split: res.splits prod.splits)

lemma py_initialize_flag:
  assumes "py_using_pysignalprof s" and "py_initialize_agent e a s = Some (r, s')"
  shows "py_using_pysignalprof s'"
  using assms by (auto simp: py_initialize_agent_def py_start_sets_flag split: res.splits if_splits)

text \<open>C29: the choice of the signal profiler is remembered even if it cannot be started: the call
  returns false, and an agent that is then started with py-spy instead cannot be stopped or given
  tags, although the functions for that say that all is well.\<close>
theorem py_failed_start_sticks:
  assumes "py_vars s ''PYROSCOPE_PYSIGNALPROF'' = Some ''true''"
    and "py_initialize_agent e a s = Some (Returned (Ok False), s1)"
    and "py_initialize_agent e' a' (s1\<lparr>py_vars := vars\<rparr>) = Some (r, s2)"
  shows "py_drop_agent s2 = (Ok True, s2) \<and> py_add_thread_tag tid key value s2 = (Ok True, s2)
    \<and> py_remove_thread_tag tid key value s2 = (Ok True, s2)"
proof -
  have "py_using_pysignalprof s1"
    using assms(1,2) by (auto simp: py_initialize_agent_def py_start_sets_flag split: res.splits)
  with py_initialize_flag [OF _ assms(3)] show ?thesis
    by (simp add: py_drop_agent_def py_add_thread_tag_def py_remove_thread_tag_def)
qed

definition ex_py_sys :: "unit py_sys" where
  "ex_py_sys = \<lparr>py_vars = [''PYROSCOPE_PYSIGNALPROF'' \<mapsto> ''true''], py_logger = False, py_using_pysignalprof = False,
     py_statics = ex_statics\<lparr>ps_lifecycle := STATE_RUNNING\<rparr>, py_ffi = ffi_init\<rparr>"

definition ex_py_env :: "unit py_env" where
  "ex_py_env = \<lparr>fe_init = ex_env, fe_timer = ex_timer_env, fe_kernel = (), fe_json = \<lparr>jl_parse = (\<lambda>_. Err []), jl_show = (\<lambda>_. [])\<rparr>,
     fe_ops = pyspy_ops ex_orders [] (Some (Ok ())), fe_pid = 7, fe_version = ''1'', fe_dummy = 0, fe_rx = 5\<rparr>"

definition ex_py_args :: py_args where
  "ex_py_args = \<lparr>pa_application_name = [97], pa_server_address = [97], pa_basic_auth_username = [], pa_basic_auth_password = [],
     pa_sample_rate = 100, pa_oncpu = True, pa_gil_only = True, pa_report_pid = False, pa_report_thread_id = False,
     pa_report_thread_name = False, pa_tags = [], pa_tenant_id = [], pa_http_headers_json = []\<rparr>"

definition ex_py_builder :: "pyspy_backend agent_builder" where
  "ex_py_builder = ab_tags [] (ab_new ''a'' ''a'' 100 ''pyspy'' ''1'' (bi_new (pyspy_new
     \<lparr>yc_pid = Some 7, yc_include_idle = False, yc_gil_only = True\<rparr>
     \<lparr>report_thread_id = False, report_thread_name = False, report_pid = False\<rparr>)))"

lemma ex_py_builder: "py_builder ex_py_env ex_py_args ''a'' ''a'' = Ok ex_py_builder"
proof -
  have "c_str [] = Ok []" by code_simp
  then show ?thesis
    by (simp add: py_builder_def ex_py_env_def ex_py_args_def ex_py_builder_def string_to_tags_def with_http_headers_def
        with_tenant_id_def with_basic_auth_def parse_http_headers_json_def Let_def)
qed

lemma ex_py_run: "\<exists>ffi. run_builder (pyspy_ops ex_orders [] (Some (Ok ()))) ex_timer_env 0 5 () ex_py_builder ffi_init = Some (Ok True, ffi)"
proof -
  have "case run_builder (pyspy_ops ex_orders [] (Some (Ok ()))) ex_timer_env 0 5 () ex_py_builder ffi_init of
      Some (Ok b, ffi) \<Rightarrow> b | _ \<Rightarrow> False" by code_simp
  then show ?thesis by (auto split: option.splits prod.splits res.splits)
qed

lemma py_failed_start_sticks_witness:
  "\<exists>s1 s2. py_initialize_agent ex_py_env ex_py_args ex_py_sys = Some (Returned (Ok False), s1)
    \<and> py_initialize_agent ex_py_env ex_py_args (s1\<lparr>py_vars := Map.empty\<rparr>) = Some (Returned (Ok True), s2)
    \<and> py_drop_agent s2 = (Ok True, s2)"
proof -
  have a: "c_str [97] = Ok ''a''" "path_to_str [] = Some []" by code_simp+
  have args: "pa_application_name ex_py_args = [97]" "pa_server_address ex_py_args = [97]" "pa_tags ex_py_args = []"
    by (simp_all add: ex_py_args_def)
  have var: "py_vars ex_py_sys ''PYROSCOPE_PYSIGNALPROF'' = Some ''true''" by (simp add: ex_py_sys_def)
  have running: "ps_lifecycle (py_statics ex_py_sys) \<noteq> STATE_UNINITIALIZED" and ffi: "py_ffi ex_py_sys = ffi_init"
    by (simp_all add: ex_py_sys_def STATE_RUNNING_def STATE_UNINITIALIZED_def)
  let ?s1 = "ex_py_sys\<lparr>py_using_pysignalprof := True, py_statics := py_statics ex_py_sys\<rparr>"
  have 1: "py_initialize_agent ex_py_env ex_py_args ex_py_sys = Some (Returned (Ok False), ?s1)"
    using running by (simp add: py_initialize_agent_def args a var py_start_pysignalprof_def string_to_tags_def profiler_init_def)
  from ex_py_run obtain f where f: "run_builder (pyspy_ops ex_orders [] (Some (Ok ()))) ex_timer_env 0 5 () ex_py_builder ffi_init
      = Some (Ok True, f)" by blast
  have env: "fe_ops ex_py_env = pyspy_ops ex_orders [] (Some (Ok ()))" "fe_timer ex_py_env = ex_timer_env" "fe_dummy ex_py_env = 0"
    "fe_rx ex_py_env = 5" "fe_kernel ex_py_env = ()" by (simp_all add: ex_py_env_def)
  have 2: "py_initialize_agent ex_py_env ex_py_args (?s1\<lparr>py_vars := Map.empty\<rparr>)
      = Some (Returned (Ok True), ?s1\<lparr>py_vars := Map.empty\<rparr>\<lparr>py_ffi := f\<rparr>)"
    by (simp add: py_initialize_agent_def args a ex_py_builder env ffi f)
  from py_failed_start_sticks [OF var 1 2] 1 2 show ?thesis by blast
qed

lemma find_sub_prefix: "find_sub pat (pat @ s) = Some 0"
  by (cases "pat @ s") (auto simp: append_eq_Cons_conv)

text \<open>Of the files below the current directory the Ruby interface keeps the path relative to it,
  and of those of a gem the path from the first \<open>gems/\<close> on; but a path that is the current directory itself
  is a panic.\<close>
theorem transform_path_shortens:
  assumes "rel = [] \<or> char_boundary rel 0 \<and> of_char (hd rel) < (128 :: nat)"
    and "find_sub cwd path = None" and "find_sub ''/gems/'' path = Some i" and "i + 1 < length path"
    and "of_char (path ! (i + 1)) < (128 :: nat)"
  shows "transform_path cwd (cwd @ ''/'' @ rel) = Ok rel \<and> transform_path cwd cwd = Panic
    \<and> transform_path cwd path = Ok (drop (i + 1) path)"
proof -
  have "char_boundary (cwd @ ''/'' @ rel) (length cwd + 1)"
    using assms(1) by (cases rel) (auto simp: char_boundary_def nth_append)
  moreover have "find_sub cwd cwd = Some 0" using find_sub_prefix [of cwd "[]"] by simp
  ultimately show ?thesis
    using assms(2-5) find_sub_prefix [of cwd "''/'' @ rel"]
    by (simp add: transform_path_def slice_from_def char_boundary_def)
qed

lemma transform_path_shortens_witness:
  "transform_path ''/app'' ''/app/lib/a.rb'' = Ok ''lib/a.rb'' \<and> transform_path ''/app'' ''/app'' = Panic
    \<and> transform_path ''/app'' ''/usr/gems/x.rb'' = Ok ''gems/x.rb''"
proof -
  have "find_sub ''/app'' ''/usr/gems/x.rb'' = None" "find_sub ''/gems/'' ''/usr/gems/x.rb'' = Some 4"
    "of_char (hd ''lib/a.rb'') < (128 :: nat)" "of_char (''/usr/gems/x.rb'' ! (4 + 1)) < (128 :: nat)" by code_simp+
  with transform_path_shortens [of "''lib/a.rb''" "''/app''" "''/usr/gems/x.rb''" 4] show ?thesis
    by (simp add: char_boundary_def)
qed

end
