(* ===== verification/Coredump.thy ===== *)
theory Coredump
  imports TextParse
begin

text \<open>
  The reader of ELF core files (\<open>src/kit/coredump\<close>): the segments of the process image
  (\<open>memory.rs\<close>), the notes with the threads' registers and the mapped files (\<open>notes.rs\<close>) and
  the reads of the dead process's memory (\<open>lib.rs\<close>).

  The ELF reader is the crate \<open>object\<close>: the file header, the program headers and the notes
  of a segment are parameters (a record of functions on the file's bytes). The mapped
  file is a byte list. A path is the list of its characters, as \<open>String::from_utf8_lossy\<close>
  returns them. Arithmetic on \<open>u64\<close> and \<open>usize\<close> wraps around, as in the release profile.
\<close>

section \<open>Data\<close>

record segment =
  sg_vaddr :: u64
  sg_memsz :: u64
  sg_file_offset :: u64
  sg_filesz :: u64

record core_mapping =
  cm_vaddr :: u64
  cm_length :: u64
  cm_flags :: u32
  cm_file_offset :: u64
  cm_path :: "nat list option"

record thread_info =
  ti_lwp :: u32
  ti_gp_regs :: "u8 list"
  ti_tp_base :: u64

record coredump =
  cd_data :: "u8 list"
  cd_mappings :: "core_mapping list"
  cd_threads :: "thread_info list"
  cd_segments :: "segment list"

datatype coredump_error =
    CoreIo string
  | ElfParse string
  | NotCoreFile
  | InvalidNote string
  | AddressNotMapped u64
  | ReadOutOfBounds u64 nat

definition hex_string :: "u64 \<Rightarrow> string" where
  "hex_string w = map char_of (digit_chars 16 (unat w))"

fun coredump_error_display :: "coredump_error \<Rightarrow> string" where
  "coredump_error_display (CoreIo e) = ''I/O error: '' @ e"
| "coredump_error_display (ElfParse msg) = ''ELF parse error: '' @ msg"
| "coredump_error_display NotCoreFile = ''not an ELF core file''"
| "coredump_error_display (InvalidNote msg) = ''invalid note: '' @ msg"
| "coredump_error_display (AddressNotMapped addr) = ''address 0x'' @ hex_string addr @ '' not mapped in coredump''"
| "coredump_error_display (ReadOutOfBounds addr n) =
     ''read of '' @ show_nat n @ '' bytes at 0x'' @ hex_string addr @ '' out of bounds''"

text \<open>What the code takes from the crate \<open>object\<close>: the type of the file, its program headers, and
  for a header of type \<open>PT_NOTE\<close> the iterator over its notes, as the results of its \<open>next\<close>.\<close>

record phdr =
  ph_type :: u32
  ph_offset :: u64
  ph_vaddr :: u64
  ph_filesz :: u64
  ph_memsz :: u64

record core_note =
  nt_name :: string
  nt_type :: u32
  nt_desc :: "u8 list"

record elf_reader =
  er_type :: "u8 list \<Rightarrow> (u16, string) res"
  er_phdrs :: "u8 list \<Rightarrow> (phdr list, string) res"
  er_notes :: "phdr \<Rightarrow> u8 list \<Rightarrow> ((core_note, string) res list option, string) res"

definition ET_CORE :: u16 where "ET_CORE = 4"
definition PT_LOAD :: u32 where "PT_LOAD = 1"
definition NT_PRSTATUS :: u32 where "NT_PRSTATUS = 1"
definition NT_FILE :: u32 where "NT_FILE = 0x46494c45"

section \<open>Memory\<close>

definition segment_of :: "phdr \<Rightarrow> segment" where
  "segment_of ph = \<lparr>sg_vaddr = ph_vaddr ph, sg_memsz = ph_memsz ph, sg_file_offset = ph_offset ph,
     sg_filesz = ph_filesz ph\<rparr>"

definition collect_segments :: "phdr list \<Rightarrow> segment list" where
  "collect_segments phs = map segment_of (filter (\<lambda>ph. ph_type ph = PT_LOAD) phs)"

definition sat_add :: "u64 \<Rightarrow> u64 \<Rightarrow> u64" where
  "sat_add a b = (if unat a + unat b < 2 ^ 64 then a + b else - 1)"

text \<open>\<open>read\<close> fills the buffer from the first segment that covers the range; on an error the
  caller's buffer stays as it was.\<close>

fun memory_read :: "u8 list \<Rightarrow> segment list \<Rightarrow> u64 \<Rightarrow> u8 list \<Rightarrow> (u8 list, coredump_error) res" where
  "memory_read data [] addr buf = Err (AddressNotMapped addr)"
| "memory_read data (seg # segs) addr buf =
     (let n = word_of_nat (length buf) in
      if sg_vaddr seg \<le> addr \<and> sat_add addr n \<le> sat_add (sg_vaddr seg) (sg_memsz seg) then
        (let seg_rel = addr - sg_vaddr seg in
         if sg_filesz seg < seg_rel + n then Err (ReadOutOfBounds addr (length buf))
         else
           (let file_pos = sg_file_offset seg + seg_rel; file_end = file_pos + n in
            if length data < unat file_end then Err (ReadOutOfBounds addr (length buf))
            else bind_res (slice_of data (unat file_pos) (unat file_end)) (\<lambda>src.
              copy_at buf 0 (length buf) src)))
      else memory_read data segs addr buf)"

section \<open>Notes\<close>

definition PRSTATUS_SIZE :: nat where "PRSTATUS_SIZE = 336"
definition LWP_OFFSET :: nat where "LWP_OFFSET = 32"
definition GPREGS_OFFSET :: nat where "GPREGS_OFFSET = 112"
definition GPREGS_SIZE :: nat where "GPREGS_SIZE = 216"
definition FS_BASE_REG_INDEX :: nat where "FS_BASE_REG_INDEX = 21"

lemmas prstatus_layout = PRSTATUS_SIZE_def LWP_OFFSET_def GPREGS_OFFSET_def GPREGS_SIZE_def FS_BASE_REG_INDEX_def

definition parse_prstatus :: "u8 list \<Rightarrow> thread_info list \<Rightarrow> (thread_info list, coredump_error) res" where
  "parse_prstatus desc threads =
     (if length desc < PRSTATUS_SIZE then Err (InvalidNote ''NT_PRSTATUS too short for x86_64'')
      else bind_res (slice_of desc LWP_OFFSET (LWP_OFFSET + 4)) (\<lambda>lwp.
        bind_res (slice_of desc GPREGS_OFFSET (GPREGS_OFFSET + GPREGS_SIZE)) (\<lambda>gp_regs.
        bind_res (slice_of gp_regs (FS_BASE_REG_INDEX * 8) (FS_BASE_REG_INDEX * 8 + 8)) (\<lambda>tp.
        Ok (threads @ [\<lparr>ti_lwp = bytes_u32 lwp, ti_gp_regs = gp_regs, ti_tp_base = bytes_u64 tp\<rparr>])))))"

record nt_entry =
  en_start :: u64
  en_end :: u64
  en_pages :: u64

definition ENTRY_SIZE :: nat where "ENTRY_SIZE = 24"

text \<open>\<open>Vec::with_capacity(n)\<close> for elements of the given size panics when the vector would be
  larger than \<open>isize::MAX\<close>. A \<open>Mapping\<close> has 56 bytes.\<close>

definition with_capacity :: "nat \<Rightarrow> nat \<Rightarrow> (unit, 'e) res" where
  "with_capacity size_of n = (if n * size_of < 2 ^ 63 then Ok () else Panic)"

definition MAPPING_SIZE :: nat where "MAPPING_SIZE = 56"

text \<open>The loop over the entries; its offsets are below \<open>entries_end\<close> and do not wrap around.\<close>

fun nt_entries :: "u8 list \<Rightarrow> nat \<Rightarrow> nat \<Rightarrow> (nt_entry list, coredump_error) res" where
  "nt_entries desc i 0 = Ok []"
| "nt_entries desc i (Suc k) =
     (let base = 16 + i * ENTRY_SIZE in
      bind_res (slice_of desc base (base + 8)) (\<lambda>s.
      bind_res (slice_of desc (base + 8) (base + 16)) (\<lambda>e.
      bind_res (slice_of desc (base + 16) (base + 24)) (\<lambda>p.
      bind_res (nt_entries desc (i + 1) k) (\<lambda>es.
      Ok (\<lparr>en_start = bytes_u64 s, en_end = bytes_u64 e, en_pages = bytes_u64 p\<rparr> # es))))))"

fun null_pos :: "u8 list \<Rightarrow> nat option" where
  "null_pos [] = None"
| "null_pos (b # bs) = (if b = 0 then Some 0 else map_option Suc (null_pos bs))"

definition nt_mapping :: "u64 \<Rightarrow> nt_entry \<Rightarrow> nat list option \<Rightarrow> core_mapping" where
  "nt_mapping page_size e path = \<lparr>cm_vaddr = en_start e, cm_length = en_end e - en_start e, cm_flags = 0,
     cm_file_offset = en_pages e * page_size, cm_path = path\<rparr>"

fun nt_names :: "u64 \<Rightarrow> nt_entry list \<Rightarrow> u8 list \<Rightarrow> (core_mapping list, coredump_error) res" where
  "nt_names page_size [] names = Ok []"
| "nt_names page_size (e # es) names =
     bind_res (ok_or (InvalidNote ''NT_FILE filename missing null terminator'') (null_pos names)) (\<lambda>p.
     (let path = (if 0 < p then Some (utf8_lossy (take p names)) else None) in
      bind_res (nt_names page_size es (drop (p + 1) names)) (\<lambda>ms.
      Ok (nt_mapping page_size e path # ms))))"

definition parse_nt_file :: "u8 list \<Rightarrow> (core_mapping list, coredump_error) res" where
  "parse_nt_file desc =
     (if length desc < 16 then Err (InvalidNote ''NT_FILE too short for header'')
      else bind_res (slice_of desc 0 8) (\<lambda>b0.
        bind_res (slice_of desc 8 16) (\<lambda>b1.
        (let num_files = bytes_u64 b0; page_size = bytes_u64 b1;
             entries_end = 16 + num_files * word_of_nat ENTRY_SIZE in
         if length desc < unat entries_end then Err (InvalidNote ''NT_FILE truncated entries'')
         else bind_res (with_capacity ENTRY_SIZE (unat num_files)) (\<lambda>_.
           bind_res (nt_entries desc 0 (unat num_files)) (\<lambda>entries.
           bind_res (slice_of desc (unat entries_end) (length desc)) (\<lambda>names.
           bind_res (with_capacity MAPPING_SIZE (unat num_files)) (\<lambda>_.
           nt_names page_size entries names))))))))"

definition handle_note ::
  "core_note \<Rightarrow> core_mapping list \<times> thread_info list \<Rightarrow> (core_mapping list \<times> thread_info list, coredump_error) res"
where
  "handle_note note acc =
     (let (mappings, threads) = acc in
      if nt_name note = ''CORE'' then
        (if nt_type note = NT_PRSTATUS then
           bind_res (parse_prstatus (nt_desc note) threads) (\<lambda>ts. Ok (mappings, ts))
         else if nt_type note = NT_FILE then
           bind_res (parse_nt_file (nt_desc note)) (\<lambda>ms. Ok (ms, threads))
         else Ok (mappings, threads))
      else Ok (mappings, threads))"

fun notes_loop ::
  "(core_note, string) res list \<Rightarrow> core_mapping list \<times> thread_info list
     \<Rightarrow> (core_mapping list \<times> thread_info list, coredump_error) res"
where
  "notes_loop [] acc = Ok acc"
| "notes_loop (r # rs) acc =
     bind_res (map_err ElfParse r) (\<lambda>note. bind_res (handle_note note acc) (notes_loop rs))"

fun phdrs_loop ::
  "elf_reader \<Rightarrow> u8 list \<Rightarrow> phdr list \<Rightarrow> core_mapping list \<times> thread_info list
     \<Rightarrow> (core_mapping list \<times> thread_info list, coredump_error) res"
where
  "phdrs_loop elf data [] acc = Ok acc"
| "phdrs_loop elf data (ph # phs) acc =
     bind_res (map_err ElfParse (er_notes elf ph data)) (\<lambda>notes.
     (case notes of
        None \<Rightarrow> phdrs_loop elf data phs acc
      | Some iter \<Rightarrow> bind_res (notes_loop iter acc) (phdrs_loop elf data phs)))"

definition parse_notes ::
  "elf_reader \<Rightarrow> phdr list \<Rightarrow> u8 list \<Rightarrow> (core_mapping list \<times> thread_info list, coredump_error) res"
where
  "parse_notes elf phs data = phdrs_loop elf data phs ([], [])"

section \<open>The core file\<close>

definition coredump_parse :: "elf_reader \<Rightarrow> u8 list \<Rightarrow> (coredump, coredump_error) res" where
  "coredump_parse elf data =
     bind_res (map_err ElfParse (er_type elf data)) (\<lambda>e_type.
     if e_type \<noteq> ET_CORE then Err NotCoreFile
     else bind_res (map_err ElfParse (er_phdrs elf data)) (\<lambda>program_headers.
       (let segments = collect_segments program_headers in
        bind_res (parse_notes elf program_headers data) (\<lambda>(mappings, threads).
        Ok \<lparr>cd_data = data, cd_mappings = mappings, cd_threads = threads, cd_segments = segments\<rparr>))))"

text \<open>Opening a file and mapping it are the operating system's; each may fail with an I/O error.\<close>

definition coredump_open ::
  "(string \<Rightarrow> ('f, string) res) \<Rightarrow> ('f \<Rightarrow> (u8 list, string) res) \<Rightarrow> elf_reader \<Rightarrow> string
     \<Rightarrow> (coredump, coredump_error) res"
where
  "coredump_open file_open mmap elf path =
     bind_res (map_err CoreIo (file_open path)) (\<lambda>file.
     bind_res (map_err CoreIo (mmap file)) (coredump_parse elf))"

definition coredump_read :: "coredump \<Rightarrow> u64 \<Rightarrow> u8 list \<Rightarrow> (u8 list, coredump_error) res" where
  "coredump_read c addr buf = memory_read (cd_data c) (cd_segments c) addr buf"

definition coredump_read_u64 :: "coredump \<Rightarrow> u64 \<Rightarrow> (u64, coredump_error) res" where
  "coredump_read_u64 c addr = bind_res (coredump_read c addr (replicate 8 0)) (\<lambda>buf. Ok (bytes_u64 buf))"

definition coredump_read_u32 :: "coredump \<Rightarrow> u64 \<Rightarrow> (u32, coredump_error) res" where
  "coredump_read_u32 c addr = bind_res (coredump_read c addr (replicate 4 0)) (\<lambda>buf. Ok (bytes_u32 buf))"

end
