(* ===== verification/CoredumpCorrect.thy ===== *)
theory CoredumpCorrect
  imports Coredump
begin

text \<open>
  The reader of core files against its reference: the memory image that the loadable segments
  describe, byte by byte, and the layout of the note of mapped files.
\<close>

section \<open>The memory image\<close>

text \<open>The reference: the image is the function from addresses to bytes that the loadable segments
  describe. A byte of a segment beyond its part in the file is not in the dump.\<close>

definition ph_covers :: "phdr \<Rightarrow> nat \<Rightarrow> nat \<Rightarrow> bool" where
  "ph_covers ph a n \<longleftrightarrow> unat (ph_vaddr ph) \<le> a \<and> a + n \<le> unat (ph_vaddr ph) + unat (ph_memsz ph)"

definition loads :: "phdr list \<Rightarrow> phdr list" where
  "loads phs = filter (\<lambda>ph. ph_type ph = PT_LOAD) phs"

definition ph_byte :: "u8 list \<Rightarrow> phdr \<Rightarrow> nat \<Rightarrow> u8 option" where
  "ph_byte data ph a = (let i = a - unat (ph_vaddr ph) in
     if i < unat (ph_filesz ph) then Some (data ! (unat (ph_offset ph) + i)) else None)"

definition image_byte :: "u8 list \<Rightarrow> phdr list \<Rightarrow> nat \<Rightarrow> u8 option" where
  "image_byte data phs a = Option.bind (find (\<lambda>ph. ph_covers ph a 1) (loads phs)) (\<lambda>ph. ph_byte data ph a)"

definition read_ref :: "u8 list \<Rightarrow> phdr list \<Rightarrow> u64 \<Rightarrow> nat \<Rightarrow> (u8 list, coredump_error) res" where
  "read_ref data phs addr n =
     (if list_ex (\<lambda>ph. ph_covers ph (unat addr) n) (loads phs) then
        ok_or (ReadOutOfBounds addr n) (those (map (image_byte data phs) [unat addr..<unat addr + n]))
      else Err (AddressNotMapped addr))"

text \<open>A well-formed file: no segment ends at the last address or leaves the file, and no two
  segments overlap.\<close>

definition ph_ok :: "u8 list \<Rightarrow> phdr \<Rightarrow> bool" where
  "ph_ok data ph \<longleftrightarrow> unat (ph_vaddr ph) + unat (ph_memsz ph) < 2 ^ 64 - 1
     \<and> unat (ph_offset ph) + unat (ph_filesz ph) \<le> length data"

definition ph_apart :: "phdr \<Rightarrow> phdr \<Rightarrow> bool" where
  "ph_apart p q \<longleftrightarrow> unat (ph_vaddr p) + unat (ph_memsz p) \<le> unat (ph_vaddr q)
     \<or> unat (ph_vaddr q) + unat (ph_memsz q) \<le> unat (ph_vaddr p)"

definition loads_ok :: "u8 list \<Rightarrow> phdr list \<Rightarrow> bool" where
  "loads_ok data phs \<longleftrightarrow> list_all (ph_ok data) (loads phs)
     \<and> list_all (\<lambda>p. list_all (\<lambda>q. p = q \<or> ph_apart p q) (loads phs)) (loads phs)"

lemma unat_sat_add: "unat (sat_add a b) = min (unat a + unat b) (2 ^ 64 - 1)"
proof -
  have "unat (- 1 :: u64) = 2 ^ 64 - 1" by (simp add: unsigned_minus_1_eq_mask mask_eq_exp_minus_1)
  then show ?thesis by (auto simp: sat_add_def unat_word_ariths min_def)
qed

lemma unat_of_len: "length xs < 2 ^ 63 \<Longrightarrow> unat (word_of_nat (length xs) :: u64) = length xs"
  by (simp add: unat_of_nat)

lemma segment_test:
  assumes "ph_ok data ph" and "unat n = len"
  shows "sg_vaddr (segment_of ph) \<le> addr
      \<and> sat_add addr n \<le> sat_add (sg_vaddr (segment_of ph)) (sg_memsz (segment_of ph))
    \<longleftrightarrow> ph_covers ph (unat addr) len"
  using assms by (auto simp: ph_ok_def ph_covers_def segment_of_def word_le_nat_alt unat_sat_add)

lemma read_hit:
  assumes ok: "ph_ok data ph" and len: "length data < 2 ^ 63" "length buf < 2 ^ 63"
    and c: "ph_covers ph (unat addr) (length buf)"
  shows "memory_read data (segment_of ph # segs) addr buf =
     (let i = unat addr - unat (ph_vaddr ph) in
      if unat (ph_filesz ph) < i + length buf then Err (ReadOutOfBounds addr (length buf))
      else Ok (take (length buf) (drop (unat (ph_offset ph) + i) data)))"
proof -
  define n :: u64 where "n = word_of_nat (length buf)"
  define i where "i = unat addr - unat (ph_vaddr ph)"
  have n: "unat n = length buf" using len(2) by (simp add: n_def unat_of_len)
  have le: "ph_vaddr ph \<le> addr" using c by (simp add: ph_covers_def word_le_nat_alt)
  then have rel: "unat (addr - ph_vaddr ph) = i" by (simp add: i_def unat_sub)
  have "i + length buf < 2 ^ 64" using c ok by (auto simp: i_def ph_covers_def ph_ok_def)
  then have sum: "unat (addr - ph_vaddr ph + n) = i + length buf" by (simp add: unat_word_ariths rel n)
  show ?thesis
  proof (cases "unat (ph_filesz ph) < i + length buf")
    case True
    then show ?thesis
      using c segment_test [OF ok n, of addr] sum
      by (simp add: Let_def n_def segment_of_def word_less_nat_alt flip: i_def)
  next
    case False
    then have f: "unat (ph_offset ph) + (i + length buf) \<le> length data" using ok by (simp add: ph_ok_def)
    then have pos: "unat (ph_offset ph + (addr - ph_vaddr ph)) = unat (ph_offset ph) + i"
      using len(1) by (simp add: unat_word_ariths rel)
    with f have e: "unat (ph_offset ph + (addr - ph_vaddr ph) + n) = unat (ph_offset ph) + i + length buf"
      using len(1) by (simp add: unat_word_ariths(1) [of "ph_offset ph + (addr - ph_vaddr ph)" n] pos n)
    show ?thesis
      using False c segment_test [OF ok n, of addr] sum pos e f
      by (simp add: Let_def segment_of_def word_less_nat_alt slice_of_def copy_at_def flip: i_def n_def)
  qed
qed

lemma those_map_Some:
  assumes "\<And>i. i < n \<Longrightarrow> f (a + i) = Some (xs ! (k + i))" and "k + n \<le> length xs"
  shows "those (map f [a..<a + n]) = Some (take n (drop k xs))"
  using assms
proof (induction n arbitrary: a k)
  case 0
  then show ?case by simp
next
  case (Suc n)
  have "those (map f [Suc a..<Suc a + n]) = Some (take n (drop (Suc k) xs))"
    using Suc.prems(1) [of "Suc i" for i] Suc.prems(2) by (intro Suc.IH) simp_all
  moreover have "[a..<a + Suc n] = a # [Suc a..<Suc a + n]" by (simp add: upt_rec)
  moreover have "take (Suc n) (drop k xs) = xs ! k # take n (drop (Suc k) xs)"
    using Suc.prems(2) by (simp add: Cons_nth_drop_Suc [symmetric])
  ultimately show ?case using Suc.prems(1) [of 0] by simp
qed

lemma those_None: "None \<in> set xs \<Longrightarrow> those xs = None"
  by (induction xs) (auto split: option.splits)

lemma covers_byte: "ph_covers ph a n \<Longrightarrow> a \<le> x \<Longrightarrow> x < a + n \<Longrightarrow> ph_covers ph x 1"
  by (auto simp: ph_covers_def)

lemma covers_unique:
  assumes "loads_ok data phs" "p \<in> set (loads phs)" "q \<in> set (loads phs)"
    and "ph_covers p x 1" "ph_covers q x 1"
  shows "p = q"
  using assms by (fastforce simp: loads_ok_def list_all_iff ph_apart_def ph_covers_def)

lemma image_byte_of:
  assumes ok: "loads_ok data phs" and ph: "ph \<in> set (loads phs)" and c: "ph_covers ph x 1"
  shows "image_byte data phs x = ph_byte data ph x"
proof -
  have "find (\<lambda>ph. ph_covers ph x 1) (loads phs) \<noteq> None" using ph c by (auto simp: find_None_iff)
  then obtain q where q: "find (\<lambda>ph. ph_covers ph x 1) (loads phs) = Some q" by blast
  then have "q \<in> set (loads phs)" "ph_covers q x 1" by (auto simp: find_Some_iff)
  then have "q = ph" using covers_unique [OF ok _ ph _ c] by blast
  with q show ?thesis by (simp add: image_byte_def)
qed

lemma image_range:
  assumes ok: "loads_ok data phs" and ph: "ph \<in> set (loads phs)" and c: "ph_covers ph a n" and n: "0 < n"
  shows "those (map (image_byte data phs) [a..<a + n]) =
    (let i = a - unat (ph_vaddr ph) in
     if unat (ph_filesz ph) < i + n then None else Some (take n (drop (unat (ph_offset ph) + i) data)))"
proof -
  define i where "i = a - unat (ph_vaddr ph)"
  have v: "a = unat (ph_vaddr ph) + i" using c by (simp add: i_def ph_covers_def)
  have b: "image_byte data phs (a + j) = ph_byte data ph (a + j)" if "j < n" for j
    using image_byte_of [OF ok ph covers_byte [OF c]] that by simp
  show ?thesis
  proof (cases "unat (ph_filesz ph) < i + n")
    case True
    have "ph_byte data ph (a + (n - 1)) = None" using True n by (simp add: ph_byte_def v Let_def)
    then have "None \<in> set (map (image_byte data phs) [a..<a + n])"
      using b [of "n - 1"] n by (auto simp: image_iff intro!: bexI [of _ "a + (n - 1)"])
    with True show ?thesis by (simp only: those_None flip: i_def) simp
  next
    case False
    then have "ph_byte data ph (a + j) = Some (data ! (unat (ph_offset ph) + i + j))" if "j < n" for j
      using that by (simp add: ph_byte_def v Let_def add.assoc)
    moreover have "unat (ph_offset ph) + i + n \<le> length data"
      using ok ph False by (auto simp: loads_ok_def list_all_iff ph_ok_def)
    ultimately show ?thesis
      using those_map_Some [of n "image_byte data phs" a data "unat (ph_offset ph) + i"] b False
      by (simp flip: i_def)
  qed
qed

lemma memory_read_loads:
  assumes ok: "loads_ok data phs" and len: "length data < 2 ^ 63" "length buf < 2 ^ 63" "0 < length buf"
    and sub: "set ls \<subseteq> set (loads phs)"
  shows "memory_read data (map segment_of ls) addr buf =
    (if list_ex (\<lambda>ph. ph_covers ph (unat addr) (length buf)) ls
     then ok_or (ReadOutOfBounds addr (length buf))
       (those (map (image_byte data phs) [unat addr..<unat addr + length buf]))
     else Err (AddressNotMapped addr))"
  using sub
proof (induction ls)
  case Nil
  then show ?case by simp
next
  case (Cons ph ls)
  have ph: "ph \<in> set (loads phs)" and pok: "ph_ok data ph"
    using Cons.prems ok by (auto simp: loads_ok_def list_all_iff)
  show ?case
  proof (cases "ph_covers ph (unat addr) (length buf)")
    case True
    have "memory_read data (map segment_of (ph # ls)) addr buf = ok_or (ReadOutOfBounds addr (length buf))
        (those (map (image_byte data phs) [unat addr..<unat addr + length buf]))"
      unfolding image_range [OF ok ph True len(3)] list.map read_hit [OF pok len(1,2) True] Let_def by simp
    with True show ?thesis by simp
  next
    case False
    with Cons segment_test [OF pok unat_of_len [OF len(2)], of addr] show ?thesis
      by (auto simp: Let_def)
  qed
qed

lemma coredump_parse_Ok:
  "coredump_parse elf data = Ok c \<Longrightarrow> er_phdrs elf data = Ok phs \<Longrightarrow>
    cd_data c = data \<and> cd_segments c = map segment_of (loads phs)"
  by (auto simp: coredump_parse_def res_simps collect_segments_def loads_def Let_def split: if_splits)

definition ex_phdrs :: "phdr list" where
  "ex_phdrs = [
     \<lparr>ph_type = 4, ph_offset = 0, ph_vaddr = 0, ph_filesz = 20, ph_memsz = 0\<rparr>,
     \<lparr>ph_type = 1, ph_offset = 0, ph_vaddr = 0x1000, ph_filesz = 16, ph_memsz = 32\<rparr>,
     \<lparr>ph_type = 1, ph_offset = 16, ph_vaddr = 0x2000, ph_filesz = 8, ph_memsz = 8\<rparr>]"

definition ex_elf :: elf_reader where
  "ex_elf = \<lparr>er_type = \<lambda>data. Ok 4, er_phdrs = \<lambda>data. Ok ex_phdrs,
     er_notes = \<lambda>ph data. Ok (if ph_type ph = 4
       then Some [Ok \<lparr>nt_name = ''CORE'', nt_type = 1, nt_desc = replicate 336 1\<rparr>] else None)\<rparr>"

definition ex_core :: "u8 list" where
  "ex_core = [1, 2, 3, 4, 5, 6, 7, 8, 9, 10, 11, 12, 13, 14, 15, 16, 17, 18, 19, 20, 21, 22, 23, 24]"

text \<open>C13: in a well-formed core file, reading is the same as looking up every byte of the range in
  the memory image that the loadable segments describe: the bytes when all of them are in the dump,
  \<open>ReadOutOfBounds\<close> when the range lies in a segment whose file part is shorter, and
  \<open>AddressNotMapped\<close> when no segment holds the whole range. \<open>read_u64\<close> and \<open>read_u32\<close> are the
  little-endian numbers of these bytes.\<close>
theorem coredump_reads_image:
  assumes "coredump_parse elf data = Ok c" and "er_phdrs elf data = Ok phs" and "loads_ok data phs"
    and "length data < 2 ^ 63" and "length buf < 2 ^ 63" and "0 < length buf"
  shows "coredump_read c addr buf = read_ref data phs addr (length buf)
    \<and> coredump_read_u64 c addr = bind_res (read_ref data phs addr 8) (\<lambda>bs. Ok (bytes_u64 bs))
    \<and> coredump_read_u32 c addr = bind_res (read_ref data phs addr 4) (\<lambda>bs. Ok (bytes_u32 bs))"
proof -
  have "coredump_read c addr b = read_ref data phs addr (length b)"
    if "length b < 2 ^ 63" "0 < length b" for b
    using memory_read_loads [OF assms(3,4) that subset_refl] coredump_parse_Ok [OF assms(1,2)]
    by (simp add: coredump_read_def read_ref_def)
  from this [OF assms(5,6)] this [of "replicate 8 0"] this [of "replicate 4 0"] show ?thesis
    by (simp add: coredump_read_u64_def coredump_read_u32_def)
qed

lemma coredump_reads_image_witness:
  "\<exists>c. coredump_parse ex_elf ex_core = Ok c \<and> map ti_tp_base (cd_threads c) = [0x0101010101010101]
    \<and> coredump_read c 0x2002 [0, 0, 0] = Ok [19, 20, 21]
    \<and> coredump_read c 0x100e [0, 0, 0] = Err (ReadOutOfBounds 0x100e 3)
    \<and> coredump_read_u32 c 0x2006 = Err (AddressNotMapped 0x2006)
    \<and> coredump_read_u64 c 0x2000 = Ok 0x1817161514131211"
proof -
  have "replicate 8 (1 :: u8) = [1, 1, 1, 1, 1, 1, 1, 1]" by (simp add: eval_nat_numeral)
  then have bytes: "bytes_u64 (replicate 8 1) = 0x0101010101010101" by (simp add: bytes_u64_def)
  have "parse_prstatus (replicate 336 1) [] = Ok [\<lparr>ti_lwp = bytes_u32 (replicate 4 1),
      ti_gp_regs = replicate 216 1, ti_tp_base = bytes_u64 (replicate 8 1)\<rparr>]"
    by (simp add: parse_prstatus_def prstatus_layout slice_of_def)
  then obtain c where c: "coredump_parse ex_elf ex_core = Ok c" "map ti_tp_base (cd_threads c) = [0x0101010101010101]"
    by (simp add: coredump_parse_def ex_elf_def ET_CORE_def parse_notes_def ex_phdrs_def handle_note_def
        NT_PRSTATUS_def bytes)
  have phs: "er_phdrs ex_elf ex_core = Ok ex_phdrs" by (simp add: ex_elf_def)
  have len: "length ex_core < 2 ^ 63" by (simp add: ex_core_def)
  have l: "loads ex_phdrs = [
      \<lparr>ph_type = 1, ph_offset = 0, ph_vaddr = 0x1000, ph_filesz = 16, ph_memsz = 32\<rparr>,
      \<lparr>ph_type = 1, ph_offset = 16, ph_vaddr = 0x2000, ph_filesz = 8, ph_memsz = 8\<rparr>]"
    by (simp add: loads_def ex_phdrs_def PT_LOAD_def)
  have ok: "loads_ok ex_core ex_phdrs"
    by (simp add: loads_ok_def l ph_ok_def ph_apart_def ex_core_def)
  have "read_ref ex_core ex_phdrs 0x2002 3 = Ok [19, 20, 21]"
    "read_ref ex_core ex_phdrs 0x100e 3 = Err (ReadOutOfBounds 0x100e 3)"
    "read_ref ex_core ex_phdrs 0x2006 4 = Err (AddressNotMapped 0x2006)"
    "read_ref ex_core ex_phdrs 0x2000 8 = Ok [17, 18, 19, 20, 21, 22, 23, 24]"
    by (simp_all add: read_ref_def l image_byte_def ph_covers_def ph_byte_def ex_core_def)
  moreover have "bytes_u64 [17, 18, 19, 20, 21, 22, 23, 24] = 0x1817161514131211" by (simp add: bytes_u64_def)
  ultimately show ?thesis
    using c coredump_reads_image [OF c(1) phs ok len, of "[0, 0, 0]"] by (auto simp: numeral_3_eq_3)
qed

section \<open>The mapped files\<close>

text \<open>What the kernel writes: the number of files and the page size, the ranges, the names.\<close>

record file_map =
  fm_start :: u64
  fm_end :: u64
  fm_pages :: u64
  fm_name :: "nat list"

definition entry_bytes :: "file_map \<Rightarrow> u8 list" where
  "entry_bytes f = u64_bytes (fm_start f) @ u64_bytes (fm_end f) @ u64_bytes (fm_pages f)"

definition name_bytes :: "file_map \<Rightarrow> u8 list" where
  "name_bytes f = concat (map utf8_encode (fm_name f)) @ [0]"

definition nt_file_bytes :: "u64 \<Rightarrow> file_map list \<Rightarrow> u8 list" where
  "nt_file_bytes page_size fs = u64_bytes (word_of_nat (length fs)) @ u64_bytes page_size
     @ concat (map entry_bytes fs) @ concat (map name_bytes fs)"

definition mapping_of_file :: "u64 \<Rightarrow> file_map \<Rightarrow> core_mapping" where
  "mapping_of_file page_size f = \<lparr>cm_vaddr = fm_start f, cm_length = fm_end f - fm_start f, cm_flags = 0,
     cm_file_offset = fm_pages f * page_size,
     cm_path = (if fm_name f = [] then None else Some (fm_name f))\<rparr>"

definition name_ok :: "file_map \<Rightarrow> bool" where
  "name_ok f \<longleftrightarrow> list_all (\<lambda>c. scalar c \<and> c \<noteq> 0) (fm_name f)"

definition entry_of :: "file_map \<Rightarrow> nt_entry" where
  "entry_of f = \<lparr>en_start = fm_start f, en_end = fm_end f, en_pages = fm_pages f\<rparr>"

lemma length_entry_bytes [simp]: "length (entry_bytes f) = 24"
  by (simp add: entry_bytes_def)

lemma length_entries [simp]: "length (concat (map entry_bytes fs)) = 24 * length fs"
  by (induction fs) simp_all

lemma slice_middle: "lo = length pre \<Longrightarrow> hi = lo + length mid \<Longrightarrow> slice_of (pre @ mid @ post) lo hi = Ok mid"
  by (simp add: slice_of_def)

lemma nt_entries_ok:
  "length pre = 16 + 24 * i \<Longrightarrow>
    nt_entries (pre @ concat (map entry_bytes fs) @ post) i (length fs) = Ok (map entry_of fs)"
proof (induction fs arbitrary: pre i)
  case Nil
  then show ?case by simp
next
  case (Cons f fs)
  let ?rest = "concat (map entry_bytes fs) @ post" and ?d = "pre @ concat (map entry_bytes (f # fs)) @ post"
  have "slice_of ?d (16 + i * ENTRY_SIZE) (16 + i * ENTRY_SIZE + 8) = (Ok (u64_bytes (fm_start f)) :: (_, coredump_error) res)"
    "slice_of ?d (16 + i * ENTRY_SIZE + 8) (16 + i * ENTRY_SIZE + 16) = (Ok (u64_bytes (fm_end f)) :: (_, coredump_error) res)"
    "slice_of ?d (16 + i * ENTRY_SIZE + 16) (16 + i * ENTRY_SIZE + 24) = (Ok (u64_bytes (fm_pages f)) :: (_, coredump_error) res)"
    using Cons.prems
      slice_middle [of "16 + i * ENTRY_SIZE" pre "16 + i * ENTRY_SIZE + 8" "u64_bytes (fm_start f)"
        "u64_bytes (fm_end f) @ u64_bytes (fm_pages f) @ ?rest"]
      slice_middle [of "16 + i * ENTRY_SIZE + 8" "pre @ u64_bytes (fm_start f)" "16 + i * ENTRY_SIZE + 16"
        "u64_bytes (fm_end f)" "u64_bytes (fm_pages f) @ ?rest"]
      slice_middle [of "16 + i * ENTRY_SIZE + 16" "pre @ u64_bytes (fm_start f) @ u64_bytes (fm_end f)"
        "16 + i * ENTRY_SIZE + 24" "u64_bytes (fm_pages f)" ?rest]
    by (simp_all add: ENTRY_SIZE_def entry_bytes_def)
  moreover have "nt_entries ?d (Suc i) (length fs) = Ok (map entry_of fs)"
    using Cons.IH [of "pre @ entry_bytes f" "Suc i"] Cons.prems by simp
  ultimately show ?case by (simp add: Let_def entry_of_def [of f])
qed

lemma utf8_encode_no_zero: "scalar c \<Longrightarrow> c \<noteq> 0 \<Longrightarrow> 0 \<notin> set (utf8_encode c)"
proof -
  have nz: "byte n = 0 \<longleftrightarrow> n mod 256 = 0" for n
    by (simp add: byte_def word_unat_eq_iff unat_u8_of_nat)
  have "cont_byte n \<noteq> 0" for n
    using mod_less_divisor [of 64 n] by (simp add: cont_byte_def nz)
  moreover assume "scalar c" "c \<noteq> 0"
  then have "c < 0x110000" "c div 262144 < 8" by (simp_all add: scalar_def less_mult_imp_div_less)
  ultimately show ?thesis using \<open>c \<noteq> 0\<close>
    by (auto simp: utf8_encode_def nz div_less_dividend less_mult_imp_div_less dest: sym [of "0 :: u8"])
qed

lemma null_pos_append: "0 \<notin> set xs \<Longrightarrow> null_pos (xs @ 0 # ys) = Some (length xs)"
  by (induction xs) auto

lemma name_no_zero: "name_ok f \<Longrightarrow> 0 \<notin> set (concat (map utf8_encode (fm_name f)))"
  using utf8_encode_no_zero by (auto simp: name_ok_def list_all_iff)

lemma name_lossy: "name_ok f \<Longrightarrow> utf8_lossy (concat (map utf8_encode (fm_name f))) = fm_name f"
  by (intro utf8_lossy_valid utf8_decode_encode) (auto simp: name_ok_def list_all_iff)

lemma nt_names_ok:
  "list_all name_ok fs \<Longrightarrow> nt_names page_size (map entry_of fs) (concat (map name_bytes fs))
     = Ok (map (mapping_of_file page_size) fs)"
proof (induction fs)
  case Nil
  then show ?case by simp
next
  case (Cons f fs)
  let ?n = "concat (map utf8_encode (fm_name f))"
  have "null_pos (?n @ 0 # concat (map name_bytes fs)) = Some (length ?n)"
    using Cons.prems by (intro null_pos_append name_no_zero) simp
  moreover have "0 < length ?n \<longleftrightarrow> fm_name f \<noteq> []" by auto
  ultimately show ?case
    using Cons name_lossy [of f]
    by (simp add: name_bytes_def [of f] Let_def nt_mapping_def entry_of_def [of f] mapping_of_file_def [of _ f])
qed

text \<open>C33: the reader of \<open>NT_FILE\<close> notes inverts their layout: for any number of files up to the
  capacity of a vector, any page size and any ranges and names, it returns one mapping per file, in
  order, with its start, its length, its offset in bytes and its name, the empty name as \<open>None\<close>.\<close>
theorem nt_file_roundtrip:
  assumes "list_all name_ok fs" and "MAPPING_SIZE * length fs < 2 ^ 63"
  shows "parse_nt_file (nt_file_bytes page_size fs) = Ok (map (mapping_of_file page_size) fs)"
proof -
  let ?n = "word_of_nat (length fs) :: u64" and ?e = "concat (map entry_bytes fs)" and ?s = "concat (map name_bytes fs)"
  let ?d = "nt_file_bytes page_size fs"
  have len: "length fs < 2 ^ 58" using assms(2) by (simp add: MAPPING_SIZE_def)
  then have n: "unat ?n = length fs" by (simp add: unat_of_nat)
  have w: "unat (?n * word_of_nat ENTRY_SIZE) = 24 * length fs"
    using len by (simp add: ENTRY_SIZE_def unat_word_ariths n)
  with len have e: "unat (16 + ?n * word_of_nat ENTRY_SIZE) = 16 + 24 * length fs"
    by (simp add: unat_word_ariths(1))
  have s: "slice_of ?d 0 8 = (Ok (u64_bytes ?n) :: (_, coredump_error) res)"
    "slice_of ?d 8 16 = (Ok (u64_bytes page_size) :: (_, coredump_error) res)"
    "slice_of ?d (16 + 24 * length fs) (length ?d) = (Ok ?s :: (_, coredump_error) res)"
    using slice_middle [of 0 "[]" 8 "u64_bytes ?n" "u64_bytes page_size @ ?e @ ?s"]
      slice_middle [of 8 "u64_bytes ?n" 16 "u64_bytes page_size" "?e @ ?s"]
      slice_middle [of "16 + 24 * length fs" "u64_bytes ?n @ u64_bytes page_size @ ?e" "length ?d" ?s "[]"]
    by (simp_all add: nt_file_bytes_def)
  have "nt_entries ?d 0 (length fs) = Ok (map entry_of fs)"
    using nt_entries_ok [of "u64_bytes ?n @ u64_bytes page_size" 0 fs ?s] by (simp add: nt_file_bytes_def)
  moreover have "\<not> length ?d < 16 + 24 * length fs" by (simp add: nt_file_bytes_def)
  moreover have "with_capacity ENTRY_SIZE (length fs) = (Ok () :: (_, coredump_error) res)"
    "with_capacity MAPPING_SIZE (length fs) = (Ok () :: (_, coredump_error) res)"
    using assms(2) len by (simp_all add: with_capacity_def ENTRY_SIZE_def mult.commute)
  ultimately show ?thesis
    using s nt_names_ok [OF assms(1)] by (simp add: parse_nt_file_def Let_def n e)
qed

definition ex_files :: "file_map list" where
  "ex_files = [\<lparr>fm_start = 0x1000, fm_end = 0x3000, fm_pages = 2, fm_name = [47, 0xE9]\<rparr>,
     \<lparr>fm_start = 0x5000, fm_end = 0x6000, fm_pages = 0, fm_name = []\<rparr>]"

lemma nt_file_roundtrip_witness:
  "parse_nt_file (nt_file_bytes 4096 ex_files) =
     Ok [\<lparr>cm_vaddr = 0x1000, cm_length = 0x2000, cm_flags = 0, cm_file_offset = 0x2000, cm_path = Some [47, 0xE9]\<rparr>,
         \<lparr>cm_vaddr = 0x5000, cm_length = 0x1000, cm_flags = 0, cm_file_offset = 0, cm_path = None\<rparr>]"
proof -
  have "list_all name_ok ex_files" "MAPPING_SIZE * length ex_files < 2 ^ 63"
    by (simp_all add: ex_files_def name_ok_def scalar_def MAPPING_SIZE_def)
  from nt_file_roundtrip [OF this, of 4096] show ?thesis by (simp add: ex_files_def mapping_of_file_def)
qed

text \<open>A count whose product with the entry size wraps around passes the length check; the vector of
  entries then panics.\<close>

lemma nt_file_count_panics: "parse_nt_file (u64_bytes 0x8000000000000000 @ u64_bytes 4096) = Panic"
proof -
  let ?d = "u64_bytes 0x8000000000000000 @ u64_bytes 4096"
  have "slice_of ?d 0 8 = (Ok (u64_bytes 0x8000000000000000) :: (_, coredump_error) res)"
    "slice_of ?d 8 16 = (Ok (u64_bytes 4096) :: (_, coredump_error) res)"
    by (simp_all add: slice_of_def)
  then show ?thesis by (simp add: parse_nt_file_def ENTRY_SIZE_def with_capacity_def)
qed

end
