(* ===== verification/Syscall.thy ===== *)
theory Syscall
  imports EventFd
begin

text \<open>
  The \<open>asm!\<close> blocks behind every system call (\<open>kit/notlibc/src/syscall.rs\<close>, x86-64 Linux) and the
  debug output (\<open>debug.rs\<close>). Elsewhere a call is its number and its arguments; here it is what the
  registers hold when the instruction \<open>syscall\<close> is executed, and the two views agree.
\<close>

section \<open>Registers\<close>

datatype reg = RAX | RBX | RCX | RDX | RSI | RDI | RBP | RSP | R8 | R9 | R10 | R11 | R12 | R13 | R14 | R15

type_synonym regs = "reg \<Rightarrow> u64"

text \<open>The instruction: the kernel sees all registers, leaves its answer in \<open>rax\<close>, and the processor
  has saved the address of the next instruction and the flags in \<open>rcx\<close> and \<open>r11\<close>. Kernel and saved
  values are parameters.\<close>

record cpu_kernel =
  ck_answer :: "regs \<Rightarrow> i64"
  ck_rip :: u64
  ck_rflags :: u64

definition syscall_instr :: "cpu_kernel \<Rightarrow> regs \<Rightarrow> regs" where
  "syscall_instr ck r = r(RAX := ck_answer ck r, RCX := ck_rip ck, R11 := ck_rflags ck)"

text \<open>An \<open>asm!\<close> block: its register operands are loaded, the instruction is executed, the output is
  read from \<open>rax\<close>. The compiler takes the registers in \<open>out\<close> for changed and every other one for
  unchanged.\<close>

record asm_block =
  ab_in :: "(reg \<times> u64) list"
  ab_out :: "reg list"

fun load_operands :: "(reg \<times> u64) list \<Rightarrow> regs \<Rightarrow> regs" where
  "load_operands [] r = r"
| "load_operands ((x, v) # ops) r = load_operands ops (r(x := v))"

definition run_asm :: "cpu_kernel \<Rightarrow> asm_block \<Rightarrow> regs \<Rightarrow> i64 \<times> regs" where
  "run_asm ck b r = (let r' = syscall_instr ck (load_operands (ab_in b) r) in (r' RAX, r'))"

definition clobbers :: "reg list" where
  "clobbers = [RCX, R11]"

definition syscall1_asm :: "u64 \<Rightarrow> u64 \<Rightarrow> asm_block" where
  "syscall1_asm nr a0 = \<lparr>ab_in = [(RAX, nr), (RDI, a0)], ab_out = RAX # clobbers\<rparr>"

definition syscall2_asm :: "u64 \<Rightarrow> u64 \<Rightarrow> u64 \<Rightarrow> asm_block" where
  "syscall2_asm nr a0 a1 = \<lparr>ab_in = [(RAX, nr), (RDI, a0), (RSI, a1)], ab_out = RAX # clobbers\<rparr>"

definition syscall3_asm :: "u64 \<Rightarrow> u64 \<Rightarrow> u64 \<Rightarrow> u64 \<Rightarrow> asm_block" where
  "syscall3_asm nr a0 a1 a2 =
     \<lparr>ab_in = [(RAX, nr), (RDI, a0), (RSI, a1), (RDX, a2)], ab_out = RAX # clobbers\<rparr>"

definition syscall4_asm :: "u64 \<Rightarrow> u64 \<Rightarrow> u64 \<Rightarrow> u64 \<Rightarrow> u64 \<Rightarrow> asm_block" where
  "syscall4_asm nr a0 a1 a2 a3 =
     \<lparr>ab_in = [(RAX, nr), (RDI, a0), (RSI, a1), (RDX, a2), (R10, a3)], ab_out = RAX # clobbers\<rparr>"

definition syscall6_asm :: "u64 \<Rightarrow> u64 \<Rightarrow> u64 \<Rightarrow> u64 \<Rightarrow> u64 \<Rightarrow> u64 \<Rightarrow> u64 \<Rightarrow> asm_block" where
  "syscall6_asm nr a0 a1 a2 a3 a4 a5 =
     \<lparr>ab_in = [(RAX, nr), (RDI, a0), (RSI, a1), (RDX, a2), (R10, a3), (R8, a4), (R9, a5)], ab_out = RAX # clobbers\<rparr>"

section \<open>Debug output\<close>

text \<open>The calls made with the feature \<open>debug-print\<close>, and none without. A string is its address and
  its bytes; \<open>newline\<close> is the address of the line end's constant, \<open>buf\<close> of the digits' buffer.\<close>

definition STDOUT :: u64 where "STDOUT = 1"

definition debug_writes :: "bool \<Rightarrow> u64 \<Rightarrow> u8 list \<Rightarrow> sys_call list" where
  "debug_writes enabled addr s =
     (if enabled then [SysCall SYS_WRITE [STDOUT, addr, word_of_nat (length s)]] else [])"

definition debug_puts :: "bool \<Rightarrow> u64 \<Rightarrow> u64 \<Rightarrow> u8 list \<Rightarrow> sys_call list" where
  "debug_puts enabled newline addr s = debug_writes enabled addr s @ debug_writes enabled newline [10]"

definition debug_write_hex :: "bool \<Rightarrow> u64 \<Rightarrow> u64 \<Rightarrow> sys_call list" where
  "debug_write_hex enabled buf v =
     (if enabled then (case hex_loop (replicate 16 0) 16 v of (bytes, i) \<Rightarrow>
        [SysCall SYS_WRITE [STDOUT, buf + word_of_nat i, word_of_nat (16 - i)]]) else [])"

section \<open>The kernel's view\<close>

text \<open>The kernel takes its arguments from these registers, as many as the call has: the calls of
  this crate, as their manual pages declare them.\<close>

definition arg_regs :: "reg list" where
  "arg_regs = [RDI, RSI, RDX, R10, R8, R9]"

definition call_arity :: "u64 \<Rightarrow> nat" where
  "call_arity nr =
     (if nr = SYS_GETTID then 0
      else if nr = SYS_CLOSE \<or> nr = SYS_EPOLL_CREATE1 then 1
      else if nr = SYS_MUNMAP \<or> nr = SYS_EVENTFD2 then 2
      else if nr = SYS_READ \<or> nr = SYS_WRITE \<or> nr = SYS_MPROTECT then 3
      else if nr = SYS_OPENAT \<or> nr = SYS_EPOLL_CTL \<or> nr = SYS_EPOLL_WAIT then 4
      else 6)"

definition sees :: "regs \<Rightarrow> sys_call" where
  "sees r = SysCall (r RAX) (take (call_arity (r RAX)) (map r arg_regs))"

text \<open>A kernel that answers calls by number and arguments, behind the registers.\<close>

definition abi_kernel :: "kernel \<Rightarrow> u64 \<Rightarrow> u64 \<Rightarrow> cpu_kernel" where
  "abi_kernel k rip rflags = \<lparr>ck_answer = (\<lambda>r. k (sees r)), ck_rip = rip, ck_rflags = rflags\<rparr>"

text \<open>The wrapper for a call, by the number of its arguments, and the kernel that the rest of the crate
  has before it: every call goes through its \<open>asm!\<close> block, with the registers as they happen to be.\<close>

fun asm_of :: "sys_call \<Rightarrow> asm_block option" where
  "asm_of (SysCall nr [a]) = Some (syscall1_asm nr a)"
| "asm_of (SysCall nr [a, b]) = Some (syscall2_asm nr a b)"
| "asm_of (SysCall nr [a, b, c]) = Some (syscall3_asm nr a b c)"
| "asm_of (SysCall nr [a, b, c, d]) = Some (syscall4_asm nr a b c d)"
| "asm_of (SysCall nr [a, b, c, d, e, f]) = Some (syscall6_asm nr a b c d e f)"
| "asm_of _ = None"

definition reg_kernel :: "cpu_kernel \<Rightarrow> regs \<Rightarrow> kernel" where
  "reg_kernel ck r c = (case asm_of c of Some b \<Rightarrow> fst (run_asm ck b r) | None \<Rightarrow> - 1)"

definition reads_arity :: "kernel \<Rightarrow> bool" where
  "reads_arity k \<longleftrightarrow> (\<forall>nr args. k (SysCall nr args) = k (SysCall nr (take (call_arity nr) args)))"

lemmas asm_defs = syscall1_asm_def syscall2_asm_def syscall3_asm_def syscall4_asm_def syscall6_asm_def

text \<open>The instruction changes no register but those that the block declares as outputs.\<close>

lemma load_operands_eq:
  "distinct (map fst ops) \<Longrightarrow> load_operands ops r x = (case map_of ops x of Some v \<Rightarrow> v | None \<Rightarrow> r x)"
proof (induction ops arbitrary: r)
  case (Cons op ops)
  obtain y v where "op = (y, v)" by (cases op)
  with Cons have "map_of ops y = None" by (simp add: map_of_eq_None_iff)
  with Cons \<open>op = (y, v)\<close> show ?case by (simp split: option.split)
qed simp

lemma asm_of_shape:
  assumes "asm_of c = Some b"
  shows "ab_out b = [RAX, RCX, R11] \<and> ab_in b = (RAX, sc_nr c) # zip arg_regs (sc_args c) \<and> length (sc_args c) \<le> 6"
  using assms by (induction c rule: asm_of.induct) (auto simp: asm_defs clobbers_def arg_regs_def)

lemma asm_of_in:
  assumes "asm_of c = Some b"
  shows "distinct (map fst (ab_in b))"
  using asm_of_shape [OF assms] by (auto simp: map_fst_zip_take arg_regs_def take_Cons' split: if_splits)

lemma run_asm_preserves:
  assumes "asm_of c = Some b" and "x \<notin> set (ab_out b)"
  shows "snd (run_asm ck b r) x = (case map_of (ab_in b) x of Some v \<Rightarrow> v | None \<Rightarrow> r x)"
proof -
  have "x \<noteq> RAX" "x \<noteq> RCX" "x \<noteq> R11" using assms(2) asm_of_shape [OF assms(1)] by auto
  then show ?thesis
    by (simp add: run_asm_def syscall_instr_def Let_def load_operands_eq [OF asm_of_in [OF assms(1)]])
qed

text \<open>Given the registers that it loads, a block's call is seen as it is, up to the arity.\<close>

lemma block_sees:
  assumes "asm_of c = Some b" and "call_arity (sc_nr c) \<le> length (sc_args c)"
  shows "sees (load_operands (ab_in b) r) = SysCall (sc_nr c) (take (call_arity (sc_nr c)) (sc_args c))"
  using assms
  by (induction c rule: asm_of.induct) (auto simp: sees_def asm_defs arg_regs_def take_Cons')

lemma reg_kernel_eq:
  assumes "reads_arity k" and "asm_of c = Some b" and "call_arity (sc_nr c) \<le> length (sc_args c)"
  shows "reg_kernel (abi_kernel k rip rflags) r c = k c"
proof -
  have "k c = k (SysCall (sc_nr c) (take (call_arity (sc_nr c)) (sc_args c)))"
    using assms(1) by (cases c) (simp add: reads_arity_def)
  then show ?thesis
    using assms(2) block_sees [OF assms(2,3)]
    by (simp add: reg_kernel_def run_asm_def syscall_instr_def abi_kernel_def Let_def)
qed

lemmas sys_numbers = SYS_READ_def SYS_WRITE_def SYS_CLOSE_def SYS_MMAP_def SYS_MPROTECT_def SYS_MUNMAP_def
  SYS_GETTID_def SYS_EPOLL_WAIT_def SYS_EPOLL_CTL_def SYS_OPENAT_def SYS_EVENTFD2_def SYS_EPOLL_CREATE1_def

text \<open>C22: the system calls as register contents refine the system calls as numbers with arguments,
  on a kernel that reads as many arguments as a call has: thread id, mappings, changes of protection,
  eventfds and epoll instances are the same through the \<open>asm!\<close> blocks, as is every call with a block
  and enough arguments; and a block leaves every register that it does not declare as an output as
  the compiler takes it to be, an operand's with the operand and any other as it was.\<close>
theorem syscalls_refine:
  assumes "reads_arity k"
  shows "gettid (reg_kernel (abi_kernel k rip rflags) r) = gettid k
    \<and> map_anon (reg_kernel (abi_kernel k rip rflags) r) len prot = map_anon k len prot
    \<and> change_prot (reg_kernel (abi_kernel k rip rflags) r) page prot m = change_prot k page prot m
    \<and> event_fd_new (reg_kernel (abi_kernel k rip rflags) r) = event_fd_new k
    \<and> event_set_new (reg_kernel (abi_kernel k rip rflags) r) = event_set_new k
    \<and> (asm_of c = Some b \<longrightarrow>
        (call_arity (sc_nr c) \<le> length (sc_args c) \<longrightarrow> reg_kernel (abi_kernel k rip rflags) r c = k c)
      \<and> (\<forall>x. x \<notin> set (ab_out b) \<longrightarrow>
          snd (run_asm ck b r) x = (case map_of (ab_in b) x of Some v \<Rightarrow> v | None \<Rightarrow> r x)))"
proof -
  note eq = reg_kernel_eq [OF assms]
  let ?K = "reg_kernel (abi_kernel k rip rflags) r"
  have "?K (SysCall SYS_GETTID [0]) = k (SysCall SYS_GETTID [0])"
    by (rule eq) (simp_all add: call_arity_def)
  moreover have "?K (map_anon_call len prot) = k (map_anon_call len prot)"
    unfolding map_anon_call_def by (rule eq) (simp_all add: call_arity_def)
  moreover have "?K (mprotect_call page m prot) = k (mprotect_call page m prot)"
    unfolding mprotect_call_def case_prod_beta Let_def by (rule eq) (simp_all add: call_arity_def sys_numbers)
  moreover have "?K (SysCall SYS_EVENTFD2 [0, EFD_FLAGS]) = k (SysCall SYS_EVENTFD2 [0, EFD_FLAGS])"
    by (rule eq) (simp_all add: call_arity_def sys_numbers)
  moreover have "?K (SysCall SYS_EPOLL_CREATE1 [0]) = k (SysCall SYS_EPOLL_CREATE1 [0])"
    by (rule eq) (simp_all add: call_arity_def sys_numbers)
  ultimately show ?thesis
    using eq [of c b] run_asm_preserves [of c b]
    by (simp add: gettid_def map_anon_def change_prot_def event_fd_new_def event_set_new_def)
qed

lemma syscalls_refine_witness:
  "gettid (reg_kernel (abi_kernel (\<lambda>c. if sc_nr c = SYS_GETTID then 4242 else - 22) 9 2) (\<lambda>_. 5)) = 4242
    \<and> snd (run_asm (abi_kernel (\<lambda>c. if sc_nr c = SYS_GETTID then 4242 else - 22) 9 2) (syscall1_asm SYS_CLOSE 3) (\<lambda>_. 5)) RDI = 3"
proof -
  let ?k = "\<lambda>c. if sc_nr c = SYS_GETTID then 4242 else - 22" and ?c = "SysCall SYS_CLOSE [3]"
  have k: "reads_arity ?k" by (simp add: reads_arity_def)
  have b: "asm_of ?c = Some (syscall1_asm SYS_CLOSE 3)" by simp
  note s = syscalls_refine [OF k, of 9 2 "\<lambda>_. 5" 0 0 0 "\<lparr>mi_ptr = 0, mi_len = 0\<rparr>" ?c "syscall1_asm SYS_CLOSE 3" "abi_kernel ?k 9 2"]
  have "gettid ?k = 4242" by (simp add: gettid_def)
  moreover have "snd (run_asm (abi_kernel ?k 9 2) (syscall1_asm SYS_CLOSE 3) (\<lambda>_. 5)) RDI
      = (case map_of (ab_in (syscall1_asm SYS_CLOSE 3)) RDI of Some v \<Rightarrow> v | None \<Rightarrow> 5)"
    using s b by (simp add: syscall1_asm_def clobbers_def)
  ultimately show ?thesis using s by (simp add: syscall1_asm_def)
qed

end
