(* ===== verification/SessionDelivers.thy ===== *)
theory SessionDelivers
  imports Session
begin

text \<open>
  From a tick of the timer to the request: the ten seconds that a session is for, the profile in the
  request's body and what its reader finds (\<open>src/session.rs\<close> with \<open>src/utils.rs\<close> and
  \<open>src/encode/pprof.rs\<close>).
\<close>

lemma session_request_Ok:
  assumes "session_request lib o' s = Ok req"
  obtains p where "session_profile o' s = Ok p"
    "lb_gzip lib (lb_push_bytes lib (series_request
       (push_labels (cf_application_name (ss_config s)) (so_tags o' (cf_tags (ss_config s)))) (lb_profile_bytes lib p) (lb_uuid lib)))
     = Ok (hr_body req)"
    "push_url lib (cf_url (ss_config s)) = Ok (hr_url req)" "hr_headers req = session_headers o' (ss_config s)"
  using assms by (auto simp: session_request_def Let_def res_simps)

lemma session_request_fails:
  assumes "session_profile o' s = Ok p" and "\<not> is_ok (session_request lib o' s)"
  shows "\<not> is_ok (lb_gzip lib (lb_push_bytes lib (series_request
       (push_labels (cf_application_name (ss_config s)) (so_tags o' (cf_tags (ss_config s)))) (lb_profile_bytes lib p) (lb_uuid lib))))
    \<or> \<not> is_ok (push_url lib (cf_url (ss_config s)))"
  using assms by (auto simp: session_request_def Let_def res_simps)

text \<open>The reports that are encoded: those of the backend after the configured function.\<close>

definition sent_reports :: "pyroscope_config \<Rightarrow> report list \<Rightarrow> report list presult" where
  "sent_reports c reports = (case cf_func c of None \<Rightarrow> Ok reports | Some f \<Rightarrow> map_res f reports)"

text \<open>C4: what the session for a tick sends. Its ten seconds are those before the tick's cell, and
  the sessions of consecutive ticks meet without gap or overlap. Its profile states them in
  nanoseconds without overflow, and a reader gets from it, sample for sample, the frames, values and
  labels of the reports. A request that is made has the compressed message with this profile, under
  the application's name and tags, as its body, and fails exactly if the client does; none is made
  only if the compression or the address fails.\<close>
theorem session_delivers:
  assumes "10 \<le> unat ts" and "unat ts < 18446744000" and "cf_sample_rate c \<noteq> 0" and "sent_reports c reports = Ok rs"
    and "fair_order (so_labels o')"
  shows "\<exists>s s' p. session_new clock ts c reports = Some (Ok s) \<and> session_new clock' (ts + 10) c reports' = Some (Ok s')
    \<and> ss_from s' = ss_until s
    \<and> unat (pf_time_nanos p) = (unat ts div 10 * 10 - 10) * 1000000000 \<and> pf_duration_nanos p = 10000000000
    \<and> (pf_small p \<longrightarrow> map (resolve_sample p) (pf_sample p) = report_views (so_stacks o') (pf_period p) rs)
    \<and> (let body = lb_gzip lib (lb_push_bytes lib (series_request (push_labels (cf_application_name c) (so_tags o' (cf_tags c)))
                   (lb_profile_bytes lib p) (lb_uuid lib)))
       in case session_push lib o' client s of
            (Some req, r) \<Rightarrow> body = Ok (hr_body req) \<and> push_url lib (cf_url c) = Ok (hr_url req)
              \<and> (r = Ok () \<longleftrightarrow> is_ok (client req))
          | (None, r) \<Rightarrow> \<not> is_ok r \<and> (\<not> is_ok body \<or> \<not> is_ok (push_url lib (cf_url c))))"
proof -
  obtain s s' where s: "session_new clock ts c reports = Some (Ok s)" "ss_config s = c" "ss_reports s = reports"
    "ss_until s - ss_from s = 10" "unat (ss_from s * 1000000000) = (unat ts div 10 * 10 - 10) * 1000000000"
    "session_new clock' (ts + 10) c reports' = Some (Ok s')" "ss_from s' = ss_until s"
    using session_ticks [OF assms(1,2), of clock c reports clock' reports'] by metis
  from encode_ok [OF assms(3,5), of "so_stacks o'" rs "ss_from s * 1000000000" "(ss_until s - ss_from s) * 1000000000"]
  obtain p where p: "encode_reports o' s rs = Ok p" "pf_period p = 1000000000 div ucast (cf_sample_rate c)"
    "pf_time_nanos p = ss_from s * 1000000000" "pf_duration_nanos p = (ss_until s - ss_from s) * 1000000000"
    "pf_small p \<Longrightarrow> map (resolve_sample p) (pf_sample p) = report_views (so_stacks o') (1000000000 div ucast (cf_sample_rate c)) rs"
    by (metis encode_reports_def s(2))
  have prof: "session_profile o' s = Ok p"
    using assms(4) p(1) by (auto simp: session_profile_def sent_reports_def s(2,3) split: option.splits)
  let ?body = "lb_gzip lib (lb_push_bytes lib (series_request (push_labels (cf_application_name c) (so_tags o' (cf_tags c)))
      (lb_profile_bytes lib p) (lb_uuid lib)))"
  have "case session_push lib o' client s of
      (Some req, r) \<Rightarrow> ?body = Ok (hr_body req) \<and> push_url lib (cf_url c) = Ok (hr_url req) \<and> (r = Ok () \<longleftrightarrow> is_ok (client req))
    | (None, r) \<Rightarrow> \<not> is_ok r \<and> (\<not> is_ok ?body \<or> \<not> is_ok (push_url lib (cf_url c)))"
  proof (cases "session_request lib o' s")
    case (Ok req)
    then obtain q where "session_profile o' s = Ok q" "lb_gzip lib (lb_push_bytes lib (series_request
         (push_labels (cf_application_name c) (so_tags o' (cf_tags c))) (lb_profile_bytes lib q) (lb_uuid lib))) = Ok (hr_body req)"
      "push_url lib (cf_url c) = Ok (hr_url req)"
      using session_request_Ok [OF Ok] unfolding s(2) by metis
    with prof Ok show ?thesis by (cases "client req") (simp_all add: session_push_def)
  qed (use session_request_fails [OF prof, of lib] s(2) in \<open>simp_all add: session_push_def\<close>)
  with s(1,4-7) p(2-5) show ?thesis
    by (intro exI [of _ s] exI [of _ s'] exI [of _ p]) (simp add: Let_def)
qed

text \<open>A library that serialises to fixed bytes, and a client that takes every request.\<close>

definition ex_good_libs :: "unit libs" where
  "ex_good_libs = ex_libs\<lparr>lb_gzip := (\<lambda>bs. Ok (31 # bs)), lb_push_bytes := (\<lambda>q. [word_of_nat (length (rs_labels (hd (pq_series q))))])\<rparr>"

lemma session_delivers_witness:
  "\<exists>s req. session_new (\<lambda>_. Panic) 1234567 (ss_config ex_session) [] = Some (Ok s)
    \<and> session_push ex_good_libs ex_session_orders (\<lambda>_. Ok \<lparr>hp_status = 500, hp_text = None\<rparr>) s = (Some req, Ok ())
    \<and> hr_body req = [31, 2]"
proof -
  have c: "cf_sample_rate (ss_config ex_session) \<noteq> 0" "sent_reports (ss_config ex_session) [] = Ok []"
      "fair_order (so_labels ex_session_orders)" "cf_tags (ss_config ex_session) = []"
    by (simp_all add: ex_session_def cf_new_def ex_session_orders_def sent_reports_def)
  have url: "is_ok (push_url ex_good_libs u)" for u
    by (simp add: push_url_def ex_good_libs_def ex_libs_def)
  have body: "lb_gzip ex_good_libs (lb_push_bytes ex_good_libs
      (series_request (push_labels app (so_tags ex_session_orders [])) pprof uuid)) = Ok [31, 2]" for app pprof uuid
    by (simp add: ex_good_libs_def series_request_def push_labels_def ex_session_orders_def)
  obtain s where s: "session_new (\<lambda>_. Panic) 1234567 (ss_config ex_session) [] = Some (Ok s)"
    and c: "case session_push ex_good_libs ex_session_orders (\<lambda>_. Ok \<lparr>hp_status = 500, hp_text = None\<rparr>) s of
        (Some req, r) \<Rightarrow> Ok [31, 2] = (Ok (hr_body req) :: (u8 list, string) res)
          \<and> push_url ex_good_libs (cf_url (ss_config ex_session)) = Ok (hr_url req)
          \<and> (r = Ok () \<longleftrightarrow> is_ok (Ok \<lparr>hp_status = 500, hp_text = None\<rparr> :: (http_response, string) res))
      | (None, r) \<Rightarrow> \<not> is_ok r \<and> (\<not> is_ok (Ok [31, 2] :: (u8 list, string) res) \<or> \<not> is_ok (push_url ex_good_libs (cf_url (ss_config ex_session))))"
    using session_delivers [OF _ _ c(1-3), of 1234567 "\<lambda>_. Panic" "\<lambda>_. Panic" "[]" ex_good_libs "\<lambda>_. Ok \<lparr>hp_status = 500, hp_text = None\<rparr>"]
    unfolding Let_def c(4) body by force
  from c url show ?thesis
    by (cases "session_push ex_good_libs ex_session_orders (\<lambda>_. Ok \<lparr>hp_status = 500, hp_text = None\<rparr>) s")
      (use s in \<open>auto split: option.splits\<close>)
qed

end
