(* ===== verification/ReaderStart.thy ===== *)
theory ReaderStart
  imports PySignalProfInit PySignalProfRun
begin

text \<open>
  How the reader thread of the signal profiler begins (\<open>reader_thread\<close> in
  \<open>kit/pysignalprof/src/lib.rs\<close>): it makes an epoll set and registers the handler's eventfd in it. If
  either fails it logs and ends, though the start of the profiler has succeeded.
\<close>

text \<open>The set and the reader's state before its first turn, or the end of the thread with the calls
  that its set's drop makes.\<close>

datatype reader_begin = ReaderLoops event_set reader_state | ReaderGone "sys_call list"

definition reader_thread_begin :: "kernel \<Rightarrow> 'k epoll_ctl \<Rightarrow> 'k \<Rightarrow> event_fd \<Rightarrow> nat \<Rightarrow> reader_begin" where
  "reader_thread_begin kern ctl k efd now =
     (case event_set_new kern of
        Ok es \<Rightarrow>
          (case event_set_add ctl k es efd of
             (Ok _, es', k') \<Rightarrow> ReaderLoops es' (reader_init now)
           | (_, es', k') \<Rightarrow> ReaderGone (event_set_drop es'))
      | _ \<Rightarrow> ReaderGone [])"

text \<open>A reader that loops waits for exactly the handler's eventfd, at index zero, and has an empty
  builder; one that is gone has closed the set it had made.\<close>

lemma reader_thread_begin_cases:
  "case reader_thread_begin kern ctl k efd now of
     ReaderLoops es rs \<Rightarrow> es_len es = 1 \<and> es_fds es ! 0 = ef_fd efd \<and> rs = reader_init now
   | ReaderGone calls \<Rightarrow> calls = [] \<or> (\<exists>es. event_set_new kern = Ok es \<and> calls = [close_fd (es_epfd es)])"
proof (cases "event_set_new kern")
  case (Ok es)
  then have es: "es_len es = 0" "length (es_fds es) = 64"
    by (auto simp: event_set_new_def Let_def EVENT_SET_CAPACITY_def split: if_splits)
  show ?thesis
    using es Ok
    by (auto simp: reader_thread_begin_def event_set_add_def event_set_drop_def Let_def EVENT_SET_CAPACITY_def
        split: prod.split)
qed (simp_all add: reader_thread_begin_def)

section \<open>The eventfd stays ready\<close>

text \<open>The reader waits on the eventfd but never reads it.\<close>

lemma on_sigprof_eventfd: "on_sigprof grant e (Some st) = Some (Ok (Some st')) \<Longrightarrow> hs_eventfd st \<le> hs_eventfd st'"
  by (auto simp: on_sigprof_def sample_shard_def Let_def res_simps split: if_splits res.splits option.splits prod.splits)

lemma reader_turn_eventfd: "reader_turn enc name_of ts st rs = Some (Ok (reqs, st', rs')) \<Longrightarrow> hs_eventfd st' = hs_eventfd st"
  by (auto simp: reader_turn_def Let_def res_simps split: if_splits prod.splits)

text \<open>No turn of the reader takes anything from the eventfd: once it is ready it stays so.\<close>

lemma profiler_run_eventfd:
  "profiler_run enc name_of grant p0 m p \<Longrightarrow> hs_eventfd (pr_handler p0) \<le> hs_eventfd (pr_handler p)"
proof (induction rule: profiler_run.induct)
  case (run_signal m p e st)
  with on_sigprof_eventfd [OF run_signal.hyps(2)] show ?case by simp
next
  case (run_turn m p ts reqs st rs)
  with reader_turn_eventfd [OF run_turn.hyps(2)] show ?case by simp
qed simp

end
