(* ===== verification/Spec2Isabelle.thy ===== *)
theory Spec2Isabelle
  imports FfiEntry CoredumpCorrect Syscall SessionDelivers ReaderStart StackReports Ruleset PprofEncodeCorrect PprofEncCorrect
begin

text \<open>
  Pyroscope's Rust agent and its profilers: the agent (\<open>src/src\<close>), which samples a process through a
  backend and sends the profiles to a server; the backends for Rust, Python and Ruby; the signal
  profiler for CPython (\<open>src/kit\<close>), which samples inside the signal handler without libc; and the
  foreign interfaces (\<open>src/pyroscope_ffi\<close>). Below, paths are relative to \<open>src/\<close> of the repository.

  \<^bold>\<open>How the program works, and where it is modelled.\<close>

  \<^item> Data. A backend yields stack traces with counts, collected in a buffer and turned into reports,
    one per set of tags: \<open>StackTypes\<close> (\<open>src/backend/types.rs\<close>), \<open>StackReports\<close> (the grouping),
    \<open>Ruleset\<close> (\<open>src/backend/ruleset.rs\<close>, the tags of threads), \<open>PyroError\<close> (\<open>src/error.rs\<close>).
    A \<open>struct\<close> is a \<open>record\<close>, an \<open>enum\<close> a \<open>datatype\<close>, a hash map an association list with distinct
    keys, and the order in which Rust iterates over one a parameter.
  \<^item> Encoding. \<open>PprofEncode\<close> (\<open>src/encode/pprof.rs\<close>) and \<open>PprofEnc\<close> (\<open>kit/pprof_enc\<close>) build a
    pprof profile with interned strings, functions and locations; \<open>Interning\<close> has the locale \<open>interner\<close>
    that their six tables interpret, \<open>PprofEncodeCorrect\<close> and \<open>PprofEncCorrect\<close> the proofs.
  \<^item> Backends. \<open>BackendImpl\<close> (\<open>src/backend/backend.rs\<close>: the typestates, the mutex around the backend,
    and the locale \<open>report_source\<close> that the agent relies on), \<open>Backends\<close> (pprof-rs, py-spy and rbspy:
    \<open>src/backend/pprof.rs\<close> and the two \<open>backend.rs\<close> of \<open>pyroscope_ffi\<close>), \<open>BackendsCorrect\<close>.
  \<^item> Agent. The timer's thread sends a snapshot every ten seconds (\<open>Timer\<close>: \<open>src/timer\<close>; locale
    \<open>ticker\<close>, interpreted for epoll, kqueue and sleeping; \<open>TimeRange\<close>: \<open>src/utils.rs\<close>); the main thread
    takes the backend's report and hands a session to the manager's thread, which sends it
    (\<open>Session\<close>: \<open>src/session.rs\<close>, \<open>kit/pyroscope_ingest\<close>; \<open>SessionDelivers\<close>: from the tick to what the
    request's reader finds). \<open>Config\<close> has the configuration and the builder,
    \<open>Agent\<close> the whole of \<open>src/pyroscope.rs\<close> as one machine: the owner's calls, the main thread, the
    timer and the manager are functions of one step on a common state with its mutexes, channels
    and condition variable, and \<open>agent_run\<close> lets them interleave in any order.
    \<open>AgentCorrect\<close> (well-formedness), \<open>AgentBooks\<close> (accounting) and \<open>AgentStop\<close>, \<open>AgentEnd\<close>
    (fair rounds until \<open>stop\<close> returns) prove about it in locales over any ticker and any report source;
    \<open>AgentRuns\<close> shows that every sequence of events is a run when the clock works, \<open>AgentClaims\<close> instantiates them with the model's own.
  \<^item> Foreign interfaces. \<open>FfiKit\<close> (\<open>src/ffikit.rs\<close>: the static sender and the thread that owns the
    agent), \<open>FfiEntry\<close> (the functions that Python and Ruby call).
  \<^item> Signal profiler. \<open>PySignalProf\<close> (\<open>kit/pysignalprof\<close>: the SIGPROF handler and the reader's turn),
    \<open>PySignalProfCorrect\<close>, \<open>PySignalProfRun\<close> (the runs of signals and turns), \<open>PySignalProfInit\<close> (start,
    \<open>kit/sighandler\<close>, \<open>kit/pysignalprof_capi\<close>), \<open>ReaderStart\<close> (how the reader's thread begins). It uses \<open>PythonUnwind\<close> (\<open>kit/python_unwind\<close>),
    \<open>PySymbols\<close> (names of code objects), \<open>SigRing\<close> (\<open>kit/sig_ring\<close>), \<open>EventFd\<close> and \<open>Notlibc\<close>
    (\<open>kit/notlibc\<close>), \<open>Syscall\<close> (its \<open>asm!\<close> blocks on a register file), \<open>PythonOffsetsTypes\<close>, \<open>PythonOffsetsRepr\<close> (\<open>kit/python_offsets_types\<close>),
    \<open>PythonMaps\<close> and \<open>PythonOffsets\<close> (\<open>kit/python_offsets\<close>).
  \<^item> Foreign memory. \<open>Kindasafe\<close> (\<open>kit/kindasafe\<close>; locale \<open>guarded_loads\<close>), its machine code
    instruction by instruction in \<open>KindasafeX86\<close> and \<open>KindasafeArm\<close>, the signal handler that resumes
    after a fault in \<open>CrashHandler\<close> and \<open>KindasafeInit\<close> (\<open>kit/kindasafe_init\<close>).
  \<^item> Core files. \<open>Coredump\<close> and \<open>CoredumpCorrect\<close> (\<open>kit/coredump\<close>).
  \<^item> Shared: \<open>Prelude\<close> (integers, results, maps), \<open>Bytes\<close>, \<open>Utf8\<close>, \<open>TextParse\<close>.

  \<^bold>\<open>Conventions.\<close> Integers have their width and wrap around, as in the release profile. A function
  that may fail or panic returns \<open>Ok\<close>, \<open>Err\<close> or \<open>Panic\<close>. Statics, kernel objects and locks are fields
  of a state that every operation passes on. Where threads share data a step is one access, and every
  interleaving of steps is a run.

  \<^bold>\<open>What the lemmas show.\<close> Nothing sampled is lost or counted twice between the handler or the backend
  and the request (\<open>profiler_run_accounts\<close>, \<open>reports_partition_buffer\<close>, \<open>backends_account\<close>,
  \<open>agent_accounts\<close>), but for the races that \<open>report_race_loses\<close> and the fields of
  \<open>backends_account\<close> name; what is encoded is what a reader of the profile finds (\<open>encode_resolves\<close>,
  \<open>profiler_window\<close>, \<open>session_delivers\<close>); what is written is read back (\<open>ring_roundtrip\<close>, \<open>maps_line_roundtrip\<close>,
  \<open>py314_repr_roundtrip\<close>, \<open>string_to_tags_roundtrip\<close>, \<open>nt_file_roundtrip\<close>); arbitrary memory is read
  without a crash (\<open>kindasafe_u64_safe\<close>, \<open>resolve_total\<close>) and a core file like the memory it is of
  (\<open>coredump_reads_image\<close>); the system calls that the models make are
  those that the registers carry (\<open>syscalls_refine\<close>); the typestates, the start and the stop of the profilers do what they say
  (\<open>agent_typestate\<close>, \<open>profiler_init_success\<close>, \<open>agent_stop_returns\<close>, \<open>timers_quit\<close>, \<open>ffi_kill_releases\<close>),
  and where they do not, a theorem says when (\<open>agent_stop_hangs\<close>, \<open>agent_shutdown_hangs\<close>, \<open>ffi_stuck\<close>,
  \<open>py_failed_start_sticks\<close>, \<open>profiler_restart_leaks\<close>).

  \<^bold>\<open>Loops.\<close> Every loop is a terminating recursion but three, which are partial functions with the value
  \<open>None\<close> where they do not return: the walk over Python's frames, which returns on every well-formed
  chain (\<open>unwind_collects_frames\<close>) and not on a cycle that the code does not notice; the wait for an
  eventfd, which goes on as long as it is interrupted; \<open>get_time_range\<close>, undefined at the clock value
  zero. The machine code of \<open>kindasafe\<close> runs on fuel, enough for every byte (one step for each on x86-64, four on AArch64): the
  theorems say that it returns. The threads have no end of their own: they are step functions, and
  that they end is a theorem about fair rounds.

  \<^bold>\<open>Not modelled.\<close> The kernel, libc and the processor beyond the calls and instructions that the code
  uses: their answers are parameters. The crates py-spy, rbspy, pprof-rs, bbqueue's memory layout,
  prost, reqwest, libflate, url, uuid, serde_json, object and memmap2: their results are
  parameters, with what the code relies on as hypotheses. The protobuf types that prost generates but for the records of
  the profile. Log output. Memory orderings weaker than sequential consistency. Weak points of the
  hash function: a report's key is a parameter that may collide, and the grouping says so. The Python
  and Ruby packages, C headers, build scripts and tests.
\<close>

section \<open>Encoding of reports as a pprof profile\<close>

text \<open>C1: with a non-zero sample rate \<open>encode\<close> never panics. The profile has the given time,
  duration and period, and as long as its tables have fewer than \<open>2 ^ 64\<close> entries, a reader who
  looks up every location, function and string by its id gets, sample for sample and in the order
  of the reports, the frames with their names, files and lines, the count times the period, and
  the labels of the trace and of the report, the latter winning for a common key.\<close>
theorem encode_resolves:
  assumes "rate \<noteq> 0" and "fair_order ord_labels"
  shows "\<exists>p. encode ord ord_labels reports rate start dur = Ok p
    \<and> pf_period p = 1000000000 div ucast rate \<and> pf_time_nanos p = start \<and> pf_duration_nanos p = dur
    \<and> (pf_small p \<longrightarrow> map (resolve_sample p) (pf_sample p) = report_views ord (pf_period p) reports)"
  using encode_ok [OF assms, of ord reports start dur] by metis

definition ex_frame :: "string \<Rightarrow> u32 \<Rightarrow> stack_frame" where
  "ex_frame n l = sf_new None (Some n) (Some ''a.rs'') None None (Some l)"

definition ex_trace :: "string list \<Rightarrow> tag list \<Rightarrow> stack_trace" where
  "ex_trace ns ts = \<lparr>st_pid = None, st_thread_id = None, st_thread_name = None,
     st_frames = map (\<lambda>n. ex_frame n 7) ns, st_metadata = \<lparr>md_tags = ts\<rparr>\<rparr>"

definition ex_report :: report where
  "ex_report = \<lparr>rp_data = [(ex_trace [''f'', ''main''] [Tag ''k'' ''v''], 3), (ex_trace [''main''] [], 1)],
     rp_metadata = \<lparr>md_tags = [Tag ''k'' ''w'']\<rparr>\<rparr>"

lemma encode_resolves_witness:
  "\<exists>p. encode (\<lambda>m. m) rev [ex_report] 100 5 6 = Ok p \<and> pf_period p = 10000000
    \<and> length (pf_sample p) = 2 \<and> pf_small p
    \<and> map (resolve_sample p) (pf_sample p) = report_views (\<lambda>m. m) (pf_period p) [ex_report]"
proof -
  let ?p = "case encode (\<lambda>m. m) rev [ex_report] 100 5 6 of Ok p \<Rightarrow> p"
  have "length (pf_string_table ?p) = 9 \<and> length (pf_function ?p) = 2 \<and> length (pf_location ?p) = 2
    \<and> length (pf_sample ?p) = 2"
    by code_simp
  then have small: "pf_small ?p" and len: "length (pf_sample ?p) = 2"
    by (simp_all add: pf_small_def)
  obtain p where "encode (\<lambda>m. m) rev [ex_report] 100 5 6 = Ok p" "pf_period p = 1000000000 div ucast (100::u32)"
    "pf_small p \<longrightarrow> map (resolve_sample p) (pf_sample p) = report_views (\<lambda>m. m) (pf_period p) [ex_report]"
    using encode_resolves [of 100 rev "\<lambda>m. m" "[ex_report]" 5 6] by auto
  with small len show ?thesis by auto
qed

text \<open>A sample rate of zero makes \<open>encode\<close> panic, whatever the reports.\<close>
theorem encode_zero_rate: "encode ord ord_labels reports 0 start dur = Panic"
  by (simp add: encode_def enc_header_def pb_init_def empty_profile_def add_string_def
      hm_insert_def hm_get_def Let_def)

section \<open>Reports of a stack buffer\<close>

text \<open>C5: the reports made of a stack buffer hold every recorded trace with its count exactly
  once, all traces of a report have the metadata hash of the report, and no two reports share it,
  for every iteration order of the two hash maps.\<close>
theorem reports_partition_buffer:
  assumes "sb_wf b" and "fair_order ord" and "fair_order ord_r"
  shows "mset (concat (map rp_data (reports_of_buffer hash ord ord_r b))) = mset (sb_data b)
    \<and> distinct (map (\<lambda>r. hash (rp_metadata r)) (reports_of_buffer hash ord ord_r b))
    \<and> (\<forall>r \<in> set (reports_of_buffer hash ord ord_r b).
         rp_data r \<noteq> [] \<and> (\<forall>(st, c) \<in> set (rp_data r). hash (st_metadata st) = hash (rp_metadata r)))"
  using reports_of_buffer_groups [OF assms, where hash = hash]
  by (auto simp: reports_of_buffer_entries [OF assms] reports_of_buffer_distinct_hash [OF assms])

definition ex_buffer :: stack_buffer where
  "ex_buffer = \<lparr>sb_data = [(ex_trace [''f''] [Tag ''k'' ''v''], 3), (ex_trace [''g''] [], 1),
     (ex_trace [''g''] [Tag ''k'' ''v''], 2)]\<rparr>"

definition ex_hash :: metadata_hash where
  "ex_hash md = word_of_nat (length (md_tags md))"

lemma reports_partition_buffer_witness:
  "map (\<lambda>r. (rp_metadata r, map snd (rp_data r))) (reports_of_buffer ex_hash rev rev ex_buffer)
     = [(\<lparr>md_tags = []\<rparr>, [1]), (\<lparr>md_tags = [Tag ''k'' ''v'']\<rparr>, [2, 3])]
   \<and> mset (concat (map rp_data (reports_of_buffer ex_hash rev rev ex_buffer))) = mset (sb_data ex_buffer)"
proof -
  have "sb_wf ex_buffer" by code_simp
  from reports_partition_buffer [OF this fair_order_rev fair_order_rev, of ex_hash]
  have "mset (concat (map rp_data (reports_of_buffer ex_hash rev rev ex_buffer))) = mset (sb_data ex_buffer)"
    by blast
  moreover have "map (\<lambda>r. (rp_metadata r, map snd (rp_data r))) (reports_of_buffer ex_hash rev rev ex_buffer)
     = [(\<lparr>md_tags = []\<rparr>, [1]), (\<lparr>md_tags = [Tag ''k'' ''v'']\<rparr>, [2, 3])]"
    by code_simp
  ultimately show ?thesis by blast
qed

section \<open>The profiler's builder\<close>

text \<open>C10: from a new builder, and equally from one that was just reset, every sequence of
  \<open>add_sample\<close> calls returns, and the profile then encoded is the abstract profile: one entry
  per distinct stack (names, files, lines), in the order of first appearance, with the sum of the
  counts times the period. The value type is cpu in nanoseconds.\<close>
theorem profiler_window:
  assumes "b0 = pv_new t d per \<or> b0 = pv_reset b t d \<and> per = pv_period b"
  shows "\<exists>b1 b2 p cpu ns. pv_add_samples b0 ps = Ok b1 \<and> pv_encode enc b1 = (enc p, b2)
    \<and> ep_time_nanos p = t \<and> ep_duration_nanos p = d \<and> ep_period p = per
    \<and> ep_sample_type p = [\<lparr>ev_type = cpu, ev_unit = ns\<rparr>]
    \<and> (ep_small p \<longrightarrow> ep_view p = abs_profile per ps
        \<and> ep_string p cpu = Some ''cpu'' \<and> ep_string p ns = Some ''nanoseconds'')"
proof -
  from assms have b0: "b0 = pv_new t d per" by (auto simp: pv_reset_new)
  from pv_add_samples_ok [OF pv_new_inv, of t d per ps] b0 obtain b1 where
    b1: "pv_add_samples b0 ps = Ok b1" "pv_inv b1" "pv_time_nanos b1 = t" "pv_duration_nanos b1 = d"
      "pv_period b1 = per" and
    views: "\<And>q. ep_ext (pv_tables b1) q \<Longrightarrow> ep_good q \<Longrightarrow>
      view_map q (sample_map (pv_samples b1)) = abs_profile per ps"
    by (auto simp: pv_new_def abs_profile_def view_map_def sample_map_def)
  from pv_encode_ok [OF b1(2), of enc] obtain p b2 cpu ns where "pv_encode enc b1 = (enc p, b2)"
    "ep_ext (pv_tables b1) p" "ep_small p \<Longrightarrow> ep_good p" "ep_sample p = pv_samples b1"
    "ep_time_nanos p = t" "ep_duration_nanos p = d" "ep_period p = per"
    "ep_sample_type p = [\<lparr>ev_type = cpu, ev_unit = ns\<rparr>]"
    "ep_small p \<Longrightarrow> ep_string p cpu = Some ''cpu'' \<and> ep_string p ns = Some ''nanoseconds''"
    using b1 by metis
  with b1(1) views [of p] show ?thesis by (auto simp: ep_view_tables)
qed

definition ex_window :: "(eframe list \<times> i64) list" where
  "ex_window = [([EFrame ''f'' ''a.py'' 3, EFrame ''main'' ''a.py'' 1], 2), ([EFrame ''main'' ''a.py'' 1], 1),
     ([EFrame ''f'' ''a.py'' 3, EFrame ''main'' ''a.py'' 1], 5)]"

definition ex_sizes :: "eprofile \<Rightarrow> u8 list" where
  "ex_sizes p = (if length (ep_string_table p) = 6 \<and> length (ep_function p) = 2 \<and> length (ep_location p) = 2
     then [1] else [])"

lemma profiler_window_witness:
  "\<exists>b1 b2 p. pv_add_samples (pv_new 8 9 10) ex_window = Ok b1 \<and> pv_encode ex_sizes b1 = (ex_sizes p, b2)
     \<and> ep_small p \<and> map snd (ep_view p) = [70, 10]"
proof -
  have sums: "map snd (abs_profile 10 ex_window) = [70, 10]" by code_simp
  have sizes: "(case pv_add_samples (pv_new 8 9 10) ex_window of Ok b \<Rightarrow> fst (pv_encode ex_sizes b)) = [1]"
    by code_simp
  obtain b1 b2 p where w: "pv_add_samples (pv_new 8 9 10) ex_window = Ok b1"
    "pv_encode ex_sizes b1 = (ex_sizes p, b2)" "ep_small p \<longrightarrow> ep_view p = abs_profile 10 ex_window"
    using profiler_window [OF disjI1 [OF refl], of 8 9 10 ex_window ex_sizes] by blast
  with sizes have "ep_small p" by (auto simp: ex_sizes_def ep_small_def split: if_splits)
  with w sums show ?thesis by metis
qed

text \<open>\<open>encode\<close> takes the tables out of the builder but leaves their indexes behind: recording
  a stack that was recorded before without a \<open>reset\<close> in between panics.\<close>
theorem add_after_encode_panics:
  "pv_add_sample (snd (pv_encode enc (case pv_add_samples (pv_new t d per) [([EFrame ''f'' ''a.py'' 3], 2)] of Ok b \<Rightarrow> b)))
     [EFrame ''f'' ''a.py'' 3] 1 = Panic"
  by (simp add: pv_new_def sx_new_def sx_intern_def hm_insert_def hm_get_def pv_add_sample_def pv_intern_function_def
      pv_func_entry_def pv_intern_location_def pv_encode_def pv_bump_value_def Let_def)

end
